(* ===== verification/Prelude.thy ===== *)
theory Prelude
  imports Main
begin

text \<open>
  Shared vocabulary of the development: the identifiers and clock readings of
  \<^verbatim>\<open>src/src/domain.rs\<close> as integers, the checked and saturating
  operations of Rust's \<open>i64\<close>, the result type of fallible code with its bind,
  decimal printing (for the messages the code formats), JSON values (for the details
  column of the event log), and the list lemmas the components share.

  Integers. \<open>i64\<close> values are \<^typ>\<open>int\<close>: every place where the code leaves the
  64-bit range (\<open>checked_add\<close>, \<open>saturating_add\<close>, \<open>i64::try_from\<close>) is written
  out with the bounds below. Unsigned values (\<open>u32\<close> limits, \<open>u64\<close> durations) are
  \<^typ>\<open>nat\<close>.
\<close>

named_theorems table_simps \<open>how reads of a table see its updates\<close>

named_theorems inv_intros \<open>operations that keep the database invariant\<close>

section \<open>Identifiers and machine integers\<close>

type_synonym job_id = int
type_synonym attempt_id = int
type_synonym millis = int

definition i64_max :: int where
  "i64_max = 9223372036854775807"

definition i64_min :: int where
  "i64_min = - 9223372036854775808"

definition in_i64 :: "int \<Rightarrow> bool" where
  "in_i64 x \<longleftrightarrow> i64_min \<le> x \<and> x \<le> i64_max"

definition checked_add :: "int \<Rightarrow> int \<Rightarrow> int option" where
  "checked_add a b = (if in_i64 (a + b) then Some (a + b) else None)"

definition saturating_add :: "int \<Rightarrow> int \<Rightarrow> int" where
  "saturating_add a b = max i64_min (min i64_max (a + b))"

definition saturating_sub :: "int \<Rightarrow> int \<Rightarrow> int" where
  "saturating_sub a b = max i64_min (min i64_max (a - b))"

text \<open>\<open>i64::try_from\<close> on a \<open>u64\<close>.\<close>

definition i64_try_from :: "nat \<Rightarrow> int option" where
  "i64_try_from n = (if int n \<le> i64_max then Some (int n) else None)"

lemma saturating_add_in_i64: "in_i64 (saturating_add a b)"
  by (simp add: saturating_add_def in_i64_def i64_min_def i64_max_def)

lemma saturating_sub_in_i64: "in_i64 (saturating_sub a b)"
  by (simp add: saturating_sub_def in_i64_def i64_min_def i64_max_def)

lemma saturating_add_exact: "in_i64 (a + b) \<Longrightarrow> saturating_add a b = a + b"
  by (simp add: saturating_add_def in_i64_def)

lemma saturating_add_ge:
  "in_i64 a \<Longrightarrow> 0 \<le> b \<Longrightarrow> a \<le> saturating_add a b"
  by (simp add: saturating_add_def in_i64_def)

lemma i64_try_from_Some: "i64_try_from n = Some i \<longleftrightarrow> i = int n \<and> int n \<le> i64_max"
  by (auto simp: i64_try_from_def)

section \<open>Fallible code\<close>

text \<open>
  \<open>Result<T, E>\<close> is \<open>'e + 'a\<close>, the error on the left; \<open>bindE\<close> is Rust's \<open>?\<close>.
\<close>

definition bindE :: "'e + 'a \<Rightarrow> ('a \<Rightarrow> 'e + 'b) \<Rightarrow> 'e + 'b" where
  "bindE m f = (case m of Inl e \<Rightarrow> Inl e | Inr x \<Rightarrow> f x)"

definition ok_or :: "'e \<Rightarrow> 'a option \<Rightarrow> 'e + 'a" where
  "ok_or e m = (case m of None \<Rightarrow> Inl e | Some x \<Rightarrow> Inr x)"

definition ensure :: "bool \<Rightarrow> 'e \<Rightarrow> 'e + unit" where
  "ensure b e = (if b then Inr () else Inl e)"

lemma bindE_Inl [simp]: "bindE (Inl e) f = Inl e"
  by (simp add: bindE_def)

lemma bindE_Inr [simp]: "bindE (Inr x) f = f x"
  by (simp add: bindE_def)

lemma bindE_eq_Inr: "bindE m f = Inr y \<longleftrightarrow> (\<exists>x. m = Inr x \<and> f x = Inr y)"
  by (cases m) auto

lemma bindE_eq_Inl: "bindE m f = Inl e \<longleftrightarrow> m = Inl e \<or> (\<exists>x. m = Inr x \<and> f x = Inl e)"
  by (cases m) auto

lemma ok_or_simps [simp]: "ok_or e None = Inl e" "ok_or e (Some x) = Inr x"
  by (simp_all add: ok_or_def)

lemma ok_or_eq_Inr: "ok_or e m = Inr x \<longleftrightarrow> m = Some x"
  by (cases m) auto

lemma ensure_simps [simp]: "ensure True e = Inr ()" "ensure False e = Inl e"
  by (simp_all add: ensure_def)

lemma ensure_eq_Inr: "ensure b e = Inr u \<longleftrightarrow> b"
  by (simp add: ensure_def)

lemmas result_eqs = bindE_eq_Inr bindE_eq_Inl ok_or_eq_Inr ensure_eq_Inr

text \<open>A loop of fallible steps: \<open>for x in xs { s = f(x, s)?; }\<close>.\<close>

fun foldE :: "('x \<Rightarrow> 's \<Rightarrow> 'e + 's) \<Rightarrow> 'x list \<Rightarrow> 's \<Rightarrow> 'e + 's" where
  "foldE f [] s = Inr s"
| "foldE f (x # xs) s = bindE (f x s) (foldE f xs)"

lemma foldE_invariant:
  assumes "foldE f xs s = Inr s'" and "P s"
    and "\<And>x s t. x \<in> set xs \<Longrightarrow> P s \<Longrightarrow> f x s = Inr t \<Longrightarrow> P t"
  shows "P s'"
  using assms
proof (induction xs arbitrary: s)
  case Nil
  then show ?case by simp
next
  case (Cons x xs)
  from Cons.prems(1) obtain t where "f x s = Inr t" and "foldE f xs t = Inr s'"
    by (auto simp: bindE_eq_Inr)
  with Cons show ?case by (metis list.set_intros)
qed

section \<open>Text: decimal numbers and JSON\<close>

definition digit_char :: "nat \<Rightarrow> char" where
  "digit_char d = char_of (48 + d)"

fun show_nat :: "nat \<Rightarrow> string" where
  "show_nat n = (if n < 10 then [digit_char n] else show_nat (n div 10) @ [digit_char (n mod 10)])"

declare show_nat.simps [simp del]

definition show_int :: "int \<Rightarrow> string" where
  "show_int i = (if i < 0 then ''-'' @ show_nat (nat (- i)) else show_nat (nat i))"

fun join_with :: "string \<Rightarrow> string list \<Rightarrow> string" where
  "join_with sep [] = ''''"
| "join_with sep [x] = x"
| "join_with sep (x # y # xs) = x @ sep @ join_with sep (y # xs)"

text \<open>Rust's \<open>{:?}\<close> of a \<open>Vec<i64>\<close>.\<close>

definition show_int_list :: "int list \<Rightarrow> string" where
  "show_int_list xs = ''['' @ join_with '', '' (map show_int xs) @ '']''"

text \<open>
  The details column holds text printed by \<open>serde_json\<close>; the model keeps the value that is
  printed.
\<close>

datatype json =
    JNull
  | JBool bool
  | JInt int
  | JStr string
  | JArr "json list"
  | JObj "(string \<times> json) list"

definition json_opt :: "('a \<Rightarrow> json) \<Rightarrow> 'a option \<Rightarrow> json" where
  "json_opt f m = (case m of None \<Rightarrow> JNull | Some x \<Rightarrow> f x)"

section \<open>Lists\<close>

lemma find_Some_mem: "List.find P xs = Some x \<Longrightarrow> x \<in> set xs \<and> P x"
  by (induction xs) (auto split: if_splits)

lemma find_None_all: "List.find P xs = None \<longleftrightarrow> (\<forall>x\<in>set xs. \<not> P x)"
  by (induction xs) auto

lemma find_append_skip:
  "\<forall>x\<in>set xs. \<not> P x \<Longrightarrow> List.find P (xs @ ys) = List.find P ys"
  by (induction xs) auto

lemma find_append:
  "List.find P (xs @ ys) = (case List.find P xs of None \<Rightarrow> List.find P ys | Some x \<Rightarrow> Some x)"
  by (induction xs) auto

lemma find_map_key:
  assumes "\<And>x. k (f x) = k x"
  shows "List.find (\<lambda>x. k x = a) (map f xs) = map_option f (List.find (\<lambda>x. k x = a) xs)"
  using assms by (induction xs) auto

lemma find_key_unique:
  assumes "distinct (map k xs)" and "x \<in> set xs" and "k x = a"
  shows "List.find (\<lambda>y. k y = a) xs = Some x"
  using assms by (induction xs) (auto simp: rev_image_eqI)

lemma map_if_same_key: "map k (map (\<lambda>x. if P x then f x else x) xs) = map k xs"
  if "\<And>x. P x \<Longrightarrow> k (f x) = k x"
  using that by auto

lemma set_map_filter: "set (List.map_filter f xs) = {y. \<exists>x\<in>set xs. f x = Some y}"
  by (force simp: List.map_filter_def)

lemma distinct_map_filter_key:
  assumes "distinct (map k xs)" and "\<And>x y. x \<in> set xs \<Longrightarrow> f x = Some y \<Longrightarrow> g y = k x"
  shows "distinct (map g (List.map_filter f xs))"
  using assms
proof (induction xs)
  case (Cons x xs)
  have "g y \<noteq> k x" if y: "y \<in> set (List.map_filter f xs)" for y
  proof -
    obtain x' where x': "x' \<in> set xs" "f x' = Some y" using y by (auto simp: set_map_filter)
    then have "g y = k x'" using Cons.prems(2) by simp
    moreover have "k x' \<in> k ` set xs" using x'(1) by (rule imageI)
    ultimately show ?thesis using Cons.prems(1) by auto
  qed
  moreover have "f x = Some y \<Longrightarrow> g y = k x" for y
    using Cons.prems(2) by simp
  ultimately show ?case
    using Cons by (cases "f x") (force simp: List.map_filter_simps)+
qed (simp add: List.map_filter_simps)

lemma find_unique_filter:
  assumes "List.find P xs = Some x" and "length (filter P xs) \<le> 1" and "y \<in> set xs" and "P y"
  shows "y = x"
  using assms
  by (induction xs) (auto split: if_splits simp: filter_empty_conv)

lemma filter_length_less:
  assumes "\<And>x. x \<in> set xs \<Longrightarrow> Q x \<Longrightarrow> P x" and "y \<in> set xs" and "P y" and "\<not> Q y"
  shows "length (filter Q xs) < length (filter P xs)"
proof -
  have "filter Q xs = filter Q (filter P xs)"
    using assms(1) by (induction xs) auto
  moreover have "length (filter Q (filter P xs)) < length (filter P xs)"
    using assms(2-4) by (intro length_filter_less [of y]) auto
  ultimately show ?thesis by simp
qed

text \<open>Stable insertion by a strict order on keys, for the \<open>ORDER BY\<close> clauses.\<close>

fun insert_by :: "('a \<Rightarrow> 'a \<Rightarrow> bool) \<Rightarrow> 'a \<Rightarrow> 'a list \<Rightarrow> 'a list" where
  "insert_by before x [] = [x]"
| "insert_by before x (y # ys) =
     (if before y x then y # insert_by before x ys else x # y # ys)"

definition order_by :: "('a \<Rightarrow> 'a \<Rightarrow> bool) \<Rightarrow> 'a list \<Rightarrow> 'a list" where
  "order_by before xs = foldr (insert_by before) xs []"

lemma set_insert_by [simp]: "set (insert_by before x xs) = insert x (set xs)"
  by (induction xs) auto

lemma order_by_simps [simp]:
  "order_by before [] = []"
  "order_by before (x # xs) = insert_by before x (order_by before xs)"
  by (simp_all add: order_by_def)

lemma set_order_by [simp]: "set (order_by before xs) = set xs"
  by (induction xs) auto

lemma distinct_insert_by: "distinct (map k (insert_by b x xs)) \<longleftrightarrow> distinct (map k (x # xs))"
  by (induction xs) (auto simp: image_iff)

lemma distinct_order_by: "distinct (map k (order_by b xs)) \<longleftrightarrow> distinct (map k xs)"
proof (induction xs)
  case Nil
  then show ?case by simp
next
  case (Cons x xs)
  have "distinct (map k (order_by b (x # xs))) \<longleftrightarrow> distinct (map k (x # order_by b xs))"
    by (simp only: order_by_simps distinct_insert_by)
  also have "\<dots> \<longleftrightarrow> distinct (map k (x # xs))"
    using Cons.IH by (simp del: set_order_by add: set_order_by [of b])
  finally show ?case .
qed

lemma sorted_insert_by:
  assumes "sorted_wrt before ys" and "transp before"
    and "\<And>y. y \<in> set ys \<Longrightarrow> before x y \<or> before y x"
  shows "sorted_wrt before (insert_by before x ys)"
  using assms
proof (induction ys)
  case Nil
  then show ?case by simp
next
  case (Cons y ys)
  then show ?case by (auto dest: transpD)
qed

lemma sorted_order_by:
  assumes "transp before"
    and "distinct xs"
    and "\<And>x y. x \<in> set xs \<Longrightarrow> y \<in> set xs \<Longrightarrow> x \<noteq> y \<Longrightarrow> before x y \<or> before y x"
  shows "sorted_wrt before (order_by before xs)"
  using assms(2,3)
proof (induction xs)
  case Nil
  then show ?case by simp
next
  case (Cons x xs)
  have "sorted_wrt before (order_by before xs)"
    using Cons by simp
  moreover have "before x y \<or> before y x" if "y \<in> set (order_by before xs)" for y
    using Cons.prems that by (metis distinct.simps(2) list.set_intros set_order_by)
  ultimately show ?case
    unfolding order_by_simps using assms(1) by (intro sorted_insert_by)
qed

lemma sorted_insert_by_weak:
  assumes "sorted_wrt before\<^sup>=\<^sup>= ys" and "transp before"
    and "\<And>y. x \<noteq> y \<Longrightarrow> before x y \<or> before y x"
  shows "sorted_wrt before\<^sup>=\<^sup>= (insert_by before x ys)"
  using assms
proof (induction ys)
  case Nil
  then show ?case by simp
next
  case (Cons y ys)
  then show ?case by (auto dest: transpD)
qed

lemma sorted_order_by_weak:
  assumes "transp before" and "\<And>x y. x \<noteq> y \<Longrightarrow> before x y \<or> before y x"
  shows "sorted_wrt before\<^sup>=\<^sup>= (order_by before xs)"
proof (induction xs)
  case (Cons x xs)
  then show ?case
    unfolding order_by_simps by (intro sorted_insert_by_weak assms)
qed simp

lemma sorted_remdups_adj:
  assumes "sorted_wrt before\<^sup>=\<^sup>= xs" and "transp before"
  shows "sorted_wrt before (remdups_adj xs)"
  using assms(1)
proof (induction xs rule: remdups_adj.induct)
  case (3 x y xs)
  then show ?case using assms(2) by (auto dest: transpD)
qed auto

lemma sorted_key_set_unique:
  fixes k :: "'a \<Rightarrow> 'b :: linorder"
  assumes "sorted_wrt (<) (map k xs)" and "sorted_wrt (<) (map k ys)" and "set xs = set ys"
  shows "xs = ys"
proof (rule map_sorted_distinct_set_unique [of k])
  show "inj_on k (set xs \<union> set ys)"
    using assms by (simp add: strict_sorted_iff distinct_map)
qed (use assms in \<open>simp_all add: strict_sorted_iff\<close>)

section \<open>Transition systems with an invariant\<close>

locale transition_system =
  fixes step :: "'s \<Rightarrow> 's \<Rightarrow> bool"
    and inv :: "'s \<Rightarrow> bool"
  assumes inv_step: "step s t \<Longrightarrow> inv s \<Longrightarrow> inv t"
begin

lemma inv_steps: "step\<^sup>*\<^sup>* s t \<Longrightarrow> inv s \<Longrightarrow> inv t"
  by (induction rule: rtranclp_induct) (auto intro: inv_step)

text \<open>What one step keeps in every state of the invariant is kept for good.\<close>

lemma stable:
  assumes "\<And>s t. step s t \<Longrightarrow> inv s \<Longrightarrow> P s \<Longrightarrow> P t"
    and "step\<^sup>*\<^sup>* s t" and "inv s" and "P s"
  shows "P t"
  using assms(2-4)
proof (induction rule: rtranclp_induct)
  case (step y z)
  moreover have "inv y" using step inv_steps by blast
  ultimately show ?case using assms(1) by blast
qed simp

end

end
