(* ===== verification/Domain.thy ===== *)
theory Domain
  imports Prelude "HOL-Library.Word"
begin

text \<open>
  Model of \<^verbatim>\<open>src/src/domain.rs\<close>: the persisted enumerations with their text
  form, the admission declaration \<open>MaxParallelRuns\<close>, the precedence of a time limit over a
  cancellation, the anchor of the kill grace, and the cooperative-yield contract.

  The macro \<open>str_enum!\<close> generates \<open>as_str\<close> and \<open>from_str\<close> for an enumeration. Its
  contract is the locale \<open>str_enum\<close>, interpreted for the four enumerations the macro is used
  on. The error of a failed parse is the rejected text (the code wraps it in a message).
\<close>

section \<open>Admission declaration\<close>

typedef max_parallel_runs = "{w :: 32 word. w \<noteq> 0}"
  by (rule exI [of _ 1]) simp

definition max_parallel_runs_get :: "max_parallel_runs \<Rightarrow> 32 word" where
  "max_parallel_runs_get m = Rep_max_parallel_runs m"

definition max_parallel_runs_one :: max_parallel_runs where
  "max_parallel_runs_one = Abs_max_parallel_runs 1"

definition max_parallel_runs_new :: "32 word \<Rightarrow> max_parallel_runs option" where
  "max_parallel_runs_new w = (if w = 0 then None else Some (Abs_max_parallel_runs w))"

section \<open>States\<close>

datatype job_state =
    J_Held
  | J_Queued
  | J_Starting
  | J_Running
  | J_Succeeded
  | J_Failed
  | J_Cancelled
  | J_Lost
  | J_Skipped
  | J_NeedsAttention

datatype attempt_state =
    A_Prepared
  | A_Authorized
  | A_Running
  | A_Orphaned
  | A_Quarantined
  | A_Succeeded
  | A_Failed
  | A_Cancelled
  | A_Lost
  | A_Yielded

datatype dependency_condition = Dep_Succeeded | Dep_Terminal

datatype dependency_resolution = Dep_Satisfied | Dep_Violated

fun job_state_as_str :: "job_state \<Rightarrow> string" where
  "job_state_as_str J_Held = ''held''"
| "job_state_as_str J_Queued = ''queued''"
| "job_state_as_str J_Starting = ''starting''"
| "job_state_as_str J_Running = ''running''"
| "job_state_as_str J_Succeeded = ''succeeded''"
| "job_state_as_str J_Failed = ''failed''"
| "job_state_as_str J_Cancelled = ''cancelled''"
| "job_state_as_str J_Lost = ''lost''"
| "job_state_as_str J_Skipped = ''skipped''"
| "job_state_as_str J_NeedsAttention = ''needs_attention''"

definition job_state_from_str :: "string \<Rightarrow> string + job_state" where
  "job_state_from_str s =
     (if s = ''held'' then Inr J_Held
      else if s = ''queued'' then Inr J_Queued
      else if s = ''starting'' then Inr J_Starting
      else if s = ''running'' then Inr J_Running
      else if s = ''succeeded'' then Inr J_Succeeded
      else if s = ''failed'' then Inr J_Failed
      else if s = ''cancelled'' then Inr J_Cancelled
      else if s = ''lost'' then Inr J_Lost
      else if s = ''skipped'' then Inr J_Skipped
      else if s = ''needs_attention'' then Inr J_NeedsAttention
      else Inl s)"

fun attempt_state_as_str :: "attempt_state \<Rightarrow> string" where
  "attempt_state_as_str A_Prepared = ''prepared''"
| "attempt_state_as_str A_Authorized = ''authorized''"
| "attempt_state_as_str A_Running = ''running''"
| "attempt_state_as_str A_Orphaned = ''orphaned''"
| "attempt_state_as_str A_Quarantined = ''quarantined''"
| "attempt_state_as_str A_Succeeded = ''succeeded''"
| "attempt_state_as_str A_Failed = ''failed''"
| "attempt_state_as_str A_Cancelled = ''cancelled''"
| "attempt_state_as_str A_Lost = ''lost''"
| "attempt_state_as_str A_Yielded = ''yielded''"

definition attempt_state_from_str :: "string \<Rightarrow> string + attempt_state" where
  "attempt_state_from_str s =
     (if s = ''prepared'' then Inr A_Prepared
      else if s = ''authorized'' then Inr A_Authorized
      else if s = ''running'' then Inr A_Running
      else if s = ''orphaned'' then Inr A_Orphaned
      else if s = ''quarantined'' then Inr A_Quarantined
      else if s = ''succeeded'' then Inr A_Succeeded
      else if s = ''failed'' then Inr A_Failed
      else if s = ''cancelled'' then Inr A_Cancelled
      else if s = ''lost'' then Inr A_Lost
      else if s = ''yielded'' then Inr A_Yielded
      else Inl s)"

fun dependency_condition_as_str :: "dependency_condition \<Rightarrow> string" where
  "dependency_condition_as_str Dep_Succeeded = ''succeeded''"
| "dependency_condition_as_str Dep_Terminal = ''terminal''"

definition dependency_condition_from_str :: "string \<Rightarrow> string + dependency_condition" where
  "dependency_condition_from_str s =
     (if s = ''succeeded'' then Inr Dep_Succeeded
      else if s = ''terminal'' then Inr Dep_Terminal
      else Inl s)"

fun dependency_resolution_as_str :: "dependency_resolution \<Rightarrow> string" where
  "dependency_resolution_as_str Dep_Satisfied = ''satisfied''"
| "dependency_resolution_as_str Dep_Violated = ''violated''"

definition dependency_resolution_from_str :: "string \<Rightarrow> string + dependency_resolution" where
  "dependency_resolution_from_str s =
     (if s = ''satisfied'' then Inr Dep_Satisfied
      else if s = ''violated'' then Inr Dep_Violated
      else Inl s)"

definition job_state_is_terminal :: "job_state \<Rightarrow> bool" where
  "job_state_is_terminal s =
     (case s of
        J_Succeeded \<Rightarrow> True | J_Failed \<Rightarrow> True | J_Cancelled \<Rightarrow> True
      | J_Lost \<Rightarrow> True | J_Skipped \<Rightarrow> True | _ \<Rightarrow> False)"

definition job_state_is_retryable :: "job_state \<Rightarrow> bool" where
  "job_state_is_retryable s = (case s of J_Failed \<Rightarrow> True | J_Lost \<Rightarrow> True | _ \<Rightarrow> False)"

definition attempt_state_is_terminal :: "attempt_state \<Rightarrow> bool" where
  "attempt_state_is_terminal s =
     (case s of
        A_Succeeded \<Rightarrow> True | A_Failed \<Rightarrow> True | A_Cancelled \<Rightarrow> True
      | A_Lost \<Rightarrow> True | A_Yielded \<Rightarrow> True | _ \<Rightarrow> False)"

section \<open>Time limits against cancellation\<close>

definition timeout_wins_over_cancel :: "millis \<Rightarrow> millis \<Rightarrow> millis option \<Rightarrow> bool" where
  "timeout_wins_over_cancel cancelled_at deadline limit_set_at \<longleftrightarrow>
     deadline < cancelled_at \<and>
     (case limit_set_at of None \<Rightarrow> True | Some set_at \<Rightarrow> set_at < cancelled_at)"

definition timeout_kill_anchor :: "millis \<Rightarrow> millis option \<Rightarrow> millis option \<Rightarrow> millis" where
  "timeout_kill_anchor deadline limit_set_at observed_at =
     (case observed_at of
        Some t \<Rightarrow> t
      | None \<Rightarrow>
          (case limit_set_at of
             Some set_at \<Rightarrow> if deadline < set_at then set_at else deadline
           | None \<Rightarrow> deadline))"

section \<open>Cooperative yield\<close>

datatype yield_signal = Usr1 | Usr2

definition yield_signal_all :: "yield_signal list" where
  "yield_signal_all = [Usr1, Usr2]"

fun yield_signal_as_str :: "yield_signal \<Rightarrow> string" where
  "yield_signal_as_str Usr1 = ''SIGUSR1''"
| "yield_signal_as_str Usr2 = ''SIGUSR2''"

text \<open>\<open>libc::SIGUSR1\<close> and \<open>libc::SIGUSR2\<close> on Linux.\<close>

fun yield_signal_number :: "yield_signal \<Rightarrow> int" where
  "yield_signal_number Usr1 = 10"
| "yield_signal_number Usr2 = 12"

definition to_ascii_uppercase :: "string \<Rightarrow> string" where
  "to_ascii_uppercase =
     map (\<lambda>c. if 97 \<le> (of_char c :: nat) \<and> (of_char c :: nat) \<le> 122
              then char_of ((of_char c :: nat) - 32) else c)"

definition strip_prefix :: "string \<Rightarrow> string \<Rightarrow> string option" where
  "strip_prefix p s = (if take (length p) s = p then Some (drop (length p) s) else None)"

definition yield_signal_from_str :: "string \<Rightarrow> string + yield_signal" where
  "yield_signal_from_str s =
     (let upper = to_ascii_uppercase s;
          name = (case strip_prefix ''SIG'' upper of None \<Rightarrow> upper | Some n \<Rightarrow> n)
      in ok_or s (List.find (\<lambda>sig. drop 3 (yield_signal_as_str sig) = name) yield_signal_all))"

definition DEFAULT_YIELD_EXIT_CODE :: nat where
  "DEFAULT_YIELD_EXIT_CODE = 75"

definition in_YIELD_EXIT_CODES :: "nat \<Rightarrow> bool" where
  "in_YIELD_EXIT_CODES c \<longleftrightarrow> 3 \<le> c \<and> c \<le> 125"

record yield_policy =
  yp_signal :: yield_signal
  yp_exit_code :: nat

definition SCHEDULER_SEMANTICS_VERSION :: int where
  "SCHEDULER_SEMANTICS_VERSION = 4"

section \<open>Contract of the generated enumerations\<close>

locale str_enum =
  fixes as_str :: "'e \<Rightarrow> string"
    and from_str :: "string \<Rightarrow> string + 'e"
  assumes parse_printed: "from_str (as_str x) = Inr x"
    and printed_parse: "from_str s = Inr x \<Longrightarrow> as_str x = s"
    and rejected: "from_str s = Inl e \<Longrightarrow> e = s"
begin

lemma as_str_eq_iff: "as_str x = as_str y \<longleftrightarrow> x = y"
  by (metis parse_printed sum.inject(2))

lemma from_str_iff: "from_str s = Inr x \<longleftrightarrow> s = as_str x"
  by (metis parse_printed printed_parse)

lemma accepted_iff: "(\<exists>x. from_str s = Inr x) \<longleftrightarrow> s \<in> range as_str"
  by (auto simp: from_str_iff)

lemma rejected_iff: "from_str s = Inl s \<longleftrightarrow> s \<notin> range as_str"
  by (metis accepted_iff rejected sum.exhaust sum.simps(4))

end

interpretation job_state_text: str_enum job_state_as_str job_state_from_str
proof
  show "job_state_from_str (job_state_as_str x) = Inr x" for x
    by (cases x) (simp_all add: job_state_from_str_def)
qed (auto simp: job_state_from_str_def split: if_splits)

interpretation attempt_state_text: str_enum attempt_state_as_str attempt_state_from_str
proof
  show "attempt_state_from_str (attempt_state_as_str x) = Inr x" for x
    by (cases x) (simp_all add: attempt_state_from_str_def)
qed (auto simp: attempt_state_from_str_def split: if_splits)

interpretation dependency_condition_text:
  str_enum dependency_condition_as_str dependency_condition_from_str
proof
  show "dependency_condition_from_str (dependency_condition_as_str x) = Inr x" for x
    by (cases x) (simp_all add: dependency_condition_from_str_def)
qed (auto simp: dependency_condition_from_str_def split: if_splits)

interpretation dependency_resolution_text:
  str_enum dependency_resolution_as_str dependency_resolution_from_str
proof
  show "dependency_resolution_from_str (dependency_resolution_as_str x) = Inr x" for x
    by (cases x) (simp_all add: dependency_resolution_from_str_def)
qed (auto simp: dependency_resolution_from_str_def split: if_splits)

section \<open>Lemmas\<close>

lemma job_state_is_terminal_simps [simp]:
  "job_state_is_terminal J_Succeeded" "job_state_is_terminal J_Failed"
  "job_state_is_terminal J_Cancelled" "job_state_is_terminal J_Lost"
  "job_state_is_terminal J_Skipped"
  "\<not> job_state_is_terminal J_Held" "\<not> job_state_is_terminal J_Queued"
  "\<not> job_state_is_terminal J_Starting" "\<not> job_state_is_terminal J_Running"
  "\<not> job_state_is_terminal J_NeedsAttention"
  by (simp_all add: job_state_is_terminal_def)

lemma attempt_state_is_terminal_simps [simp]:
  "attempt_state_is_terminal A_Succeeded" "attempt_state_is_terminal A_Failed"
  "attempt_state_is_terminal A_Cancelled" "attempt_state_is_terminal A_Lost"
  "attempt_state_is_terminal A_Yielded"
  "\<not> attempt_state_is_terminal A_Prepared" "\<not> attempt_state_is_terminal A_Authorized"
  "\<not> attempt_state_is_terminal A_Running" "\<not> attempt_state_is_terminal A_Orphaned"
  "\<not> attempt_state_is_terminal A_Quarantined"
  by (simp_all add: attempt_state_is_terminal_def)

lemma job_state_is_retryable_iff: "job_state_is_retryable s \<longleftrightarrow> s = J_Failed \<or> s = J_Lost"
  by (cases s) (simp_all add: job_state_is_retryable_def)

lemma max_parallel_runs_new_get:
  "max_parallel_runs_new w = Some m \<longleftrightarrow> w \<noteq> 0 \<and> max_parallel_runs_get m = w"
  by (auto simp: max_parallel_runs_new_def max_parallel_runs_get_def
      Abs_max_parallel_runs_inverse Rep_max_parallel_runs_inverse
      dest: arg_cong [of _ _ Abs_max_parallel_runs])

text \<open>
  The text form of the four persisted enumerations round-trips, and nothing else parses:
  a stored text is read back as exactly the state that was written, and any text that is not
  the form of a state is rejected.
\<close>

theorem state_text_round_trips:
  "(job_state_from_str s = Inr j \<longleftrightarrow> s = job_state_as_str j) \<and>
   (attempt_state_from_str s = Inr a \<longleftrightarrow> s = attempt_state_as_str a) \<and>
   (dependency_condition_from_str s = Inr c \<longleftrightarrow> s = dependency_condition_as_str c) \<and>
   (dependency_resolution_from_str s = Inr r \<longleftrightarrow> s = dependency_resolution_as_str r)"
  by (simp only: job_state_text.from_str_iff attempt_state_text.from_str_iff
      dependency_condition_text.from_str_iff dependency_resolution_text.from_str_iff)

end
