(* ===== verification/Scheduler.thy ===== *)
theory Scheduler
  imports Domain
begin

text \<open>
  Model of \<^verbatim>\<open>src/src/scheduler.rs\<close>: the admission formula and one greedy
  scheduling pass over a snapshot of the queue. The \<open>loop\<close> of \<open>plan_pass\<close> is the
  recursion \<open>pass_loop\<close> over the single iteration \<open>pass_step\<close>; its \<open>continue\<close>,
  \<open>break\<close> and panics (\<open>expect\<close>, \<open>unreachable!\<close>) are values of \<open>pass_ctl\<close>.
  A \<open>Vec\<close> never holds more than \<open>isize::MAX\<close> elements, so the \<open>u64\<close> addition of
  \<open>can_admit\<close> is exact and is written on \<^typ>\<open>nat\<close>. A \<open>BTreeSet\<close> is a set. The
  \<open>debug_assert!\<close> on the order of the candidates is the predicate \<open>pass_sorted\<close>, a
  hypothesis of the theorems that need it.
\<close>

section \<open>Data\<close>

record active_lease =
  lease_job :: job_id
  lease_limit :: nat

record candidate =
  cand_job :: job_id
  cand_ready_seq :: int
  cand_limit :: nat
  cand_priority :: int

record reservation_snapshot =
  snap_job :: job_id
  snap_cutoff_seq :: "int option"
  snap_consumed :: "job_id set"

record start =
  start_job :: job_id
  start_bypasses :: "job_id option"

record new_reservation =
  nr_job :: job_id
  nr_initial_consumed :: "job_id set"

record pass_outcome =
  po_starts :: "start list"
  po_satisfy_reservation :: bool
  po_invalidate_reservation :: "string option"
  po_create_reservation :: "new_reservation option"

definition consumes_bypass :: "start \<Rightarrow> bool" where
  "consumes_bypass s \<longleftrightarrow> start_bypasses s \<noteq> None"

definition can_admit :: "nat list \<Rightarrow> nat \<Rightarrow> bool" where
  "can_admit active_limits candidate_limit \<longleftrightarrow>
     (let resulting = length active_limits + 1
      in resulting \<le> candidate_limit \<and> list_all (\<lambda>l. resulting \<le> l) active_limits)"

section \<open>The pass\<close>

text \<open>The local \<open>struct Res\<close> and the local variables of \<open>plan_pass\<close>.\<close>

record pass_res =
  res_job :: job_id
  res_cutoff_seq :: "int option"
  res_consumed :: "job_id set"
  res_existing :: bool

record pass_state =
  ps_outcome :: pass_outcome
  ps_shadow_limits :: "nat list"
  ps_shadow_jobs :: "job_id set"
  ps_started :: "job_id set"
  ps_res :: "pass_res option"

datatype pass_ctl = Break | Continue pass_state | Panic string

text \<open>
  The four updates every admission performs: the start is pushed, the job is marked started,
  and it joins the shadow set with its limit.
\<close>

definition push_start :: "candidate \<Rightarrow> job_id option \<Rightarrow> pass_state \<Rightarrow> pass_state" where
  "push_start c bypasses st =
     st\<lparr>ps_outcome := (ps_outcome st)\<lparr>po_starts :=
          po_starts (ps_outcome st) @ [\<lparr>start_job = cand_job c, start_bypasses = bypasses\<rparr>]\<rparr>,
        ps_started := insert (cand_job c) (ps_started st),
        ps_shadow_limits := ps_shadow_limits st @ [cand_limit c],
        ps_shadow_jobs := insert (cand_job c) (ps_shadow_jobs st)\<rparr>"

text \<open>Step 3 of the loop: the backfill frontier of reservation \<open>r\<close>.\<close>

definition backfill_ok :: "pass_res \<Rightarrow> candidate \<Rightarrow> pass_state \<Rightarrow> candidate \<Rightarrow> bool" where
  "backfill_ok r protected st c \<longleftrightarrow>
     (case res_cutoff_seq r of None \<Rightarrow> True | Some cutoff \<Rightarrow> cand_ready_seq c \<le> cutoff) \<and>
     cand_job c \<noteq> res_job r \<and>
     cand_priority c = cand_priority protected \<and>
     cand_job c \<notin> res_consumed r \<and>
     cand_job c \<notin> ps_started st \<and>
     can_admit (ps_shadow_limits st) (cand_limit c)"

definition pass_step_reserved :: "candidate list \<Rightarrow> pass_res \<Rightarrow> pass_state \<Rightarrow> pass_ctl" where
  "pass_step_reserved eligible r st =
     (case List.find (\<lambda>c. cand_job c = res_job r) eligible of
        None \<Rightarrow> Panic ''protected job verified eligible''
      | Some protected \<Rightarrow>
          if can_admit (ps_shadow_limits st) (cand_limit protected) then
            (if res_existing r then
               Continue ((push_start protected None st)
                 \<lparr>ps_outcome := (ps_outcome (push_start protected None st))
                    \<lparr>po_satisfy_reservation := True\<rparr>,
                  ps_res := None\<rparr>)
             else Panic ''reservation created and satisfied in one pass'')
          else
            (case List.find (backfill_ok r protected st) eligible of
               Some c \<Rightarrow>
                 Continue ((push_start c (Some (res_job r)) st)
                   \<lparr>ps_res := Some (r\<lparr>res_consumed := insert (cand_job c) (res_consumed r)\<rparr>)\<rparr>)
             | None \<Rightarrow> Break))"

definition pass_step_free :: "candidate list \<Rightarrow> pass_state \<Rightarrow> pass_ctl" where
  "pass_step_free eligible st =
     (case List.find (\<lambda>c. cand_job c \<notin> ps_started st) eligible of
        None \<Rightarrow> Break
      | Some head \<Rightarrow>
          if can_admit (ps_shadow_limits st) (cand_limit head) then
            Continue (push_start head None st)
          else
            Continue (st
              \<lparr>ps_outcome := (ps_outcome st)\<lparr>po_create_reservation :=
                 Some \<lparr>nr_job = cand_job head, nr_initial_consumed = ps_shadow_jobs st\<rparr>\<rparr>,
               ps_res := Some \<lparr>res_job = cand_job head, res_cutoff_seq = None,
                 res_consumed = ps_shadow_jobs st, res_existing = False\<rparr>\<rparr>))"

definition pass_step :: "candidate list \<Rightarrow> pass_state \<Rightarrow> pass_ctl" where
  "pass_step eligible st =
     (case ps_res st of
        Some r \<Rightarrow> pass_step_reserved eligible r st
      | None \<Rightarrow> pass_step_free eligible st)"

text \<open>
  Why the loop ends: an iteration that continues satisfies the persisted reservation (which
  happens once), or starts a job that was not started before, or creates a reservation (after
  which only the second kind is possible).
\<close>

definition existing_left :: "pass_state \<Rightarrow> nat" where
  "existing_left st =
     (case ps_res st of Some r \<Rightarrow> if res_existing r then 1 else 0 | None \<Rightarrow> 0)"

definition unstarted :: "candidate list \<Rightarrow> pass_state \<Rightarrow> nat" where
  "unstarted eligible st = length (filter (\<lambda>c. cand_job c \<notin> ps_started st) eligible)"

definition free_left :: "pass_state \<Rightarrow> nat" where
  "free_left st = (case ps_res st of None \<Rightarrow> 1 | Some r \<Rightarrow> 0)"

lemma push_start_simps [simp]:
  "ps_started (push_start c b st) = insert (cand_job c) (ps_started st)"
  "ps_shadow_limits (push_start c b st) = ps_shadow_limits st @ [cand_limit c]"
  "ps_shadow_jobs (push_start c b st) = insert (cand_job c) (ps_shadow_jobs st)"
  "ps_res (push_start c b st) = ps_res st"
  "po_starts (ps_outcome (push_start c b st)) =
     po_starts (ps_outcome st) @ [\<lparr>start_job = cand_job c, start_bypasses = b\<rparr>]"
  "po_satisfy_reservation (ps_outcome (push_start c b st)) =
     po_satisfy_reservation (ps_outcome st)"
  "po_invalidate_reservation (ps_outcome (push_start c b st)) =
     po_invalidate_reservation (ps_outcome st)"
  "po_create_reservation (ps_outcome (push_start c b st)) =
     po_create_reservation (ps_outcome st)"
  by (simp_all add: push_start_def)

lemma unstarted_push:
  assumes "c \<in> set eligible" and "cand_job c \<notin> ps_started st"
    and "ps_started st' = insert (cand_job c) (ps_started st)"
  shows "unstarted eligible st' < unstarted eligible st"
  unfolding unstarted_def
  by (rule filter_length_less [of _ _ _ c]) (use assms in auto)

text \<open>What one iteration that continues did, in the order of the code's branches.\<close>

lemma pass_step_cases [consumes 1, case_names satisfy backfill admit create]:
  assumes "pass_step eligible st = Continue st'"
  obtains r p where "ps_res st = Some r" and "res_existing r"
      and "List.find (\<lambda>c. cand_job c = res_job r) eligible = Some p"
      and "can_admit (ps_shadow_limits st) (cand_limit p)"
      and "st' = (push_start p None st)\<lparr>ps_outcome := (ps_outcome (push_start p None st))
             \<lparr>po_satisfy_reservation := True\<rparr>, ps_res := None\<rparr>"
    | r p c where "ps_res st = Some r"
      and "List.find (\<lambda>c. cand_job c = res_job r) eligible = Some p"
      and "\<not> can_admit (ps_shadow_limits st) (cand_limit p)"
      and "c \<in> set eligible" and "backfill_ok r p st c"
      and "st' = (push_start c (Some (res_job r)) st)
             \<lparr>ps_res := Some (r\<lparr>res_consumed := insert (cand_job c) (res_consumed r)\<rparr>)\<rparr>"
    | h where "ps_res st = None"
      and "List.find (\<lambda>c. cand_job c \<notin> ps_started st) eligible = Some h"
      and "can_admit (ps_shadow_limits st) (cand_limit h)"
      and "st' = push_start h None st"
    | h where "ps_res st = None"
      and "List.find (\<lambda>c. cand_job c \<notin> ps_started st) eligible = Some h"
      and "\<not> can_admit (ps_shadow_limits st) (cand_limit h)"
      and "st' = st\<lparr>ps_outcome := (ps_outcome st)\<lparr>po_create_reservation :=
               Some \<lparr>nr_job = cand_job h, nr_initial_consumed = ps_shadow_jobs st\<rparr>\<rparr>,
             ps_res := Some \<lparr>res_job = cand_job h, res_cutoff_seq = None,
               res_consumed = ps_shadow_jobs st, res_existing = False\<rparr>\<rparr>"
  using assms
  unfolding pass_step_def pass_step_reserved_def pass_step_free_def
  by (auto split: option.splits if_splits dest: find_Some_mem)

lemma pass_step_decreases:
  assumes "pass_step eligible st = Continue st'"
  shows "(st', st) \<in> measures [existing_left, unstarted eligible, free_left]"
  using assms
proof (cases rule: pass_step_cases)
  case (satisfy r p)
  then show ?thesis by (simp add: existing_left_def)
next
  case (backfill r p c)
  then have "unstarted eligible st' < unstarted eligible st"
    by (intro unstarted_push [of c]) (auto simp: backfill_ok_def)
  with backfill show ?thesis by (simp add: existing_left_def)
next
  case (admit h)
  then have "unstarted eligible st' < unstarted eligible st"
    by (intro unstarted_push [of h]) (auto dest: find_Some_mem)
  with admit show ?thesis by (simp add: existing_left_def)
next
  case (create h)
  then show ?thesis by (simp add: existing_left_def unstarted_def free_left_def)
qed

function pass_loop :: "candidate list \<Rightarrow> pass_state \<Rightarrow> string + pass_state" where
  "pass_loop eligible st =
     (case pass_step eligible st of
        Break \<Rightarrow> Inr st
      | Continue st' \<Rightarrow> pass_loop eligible st'
      | Panic m \<Rightarrow> Inl m)"
  by pat_completeness auto

termination
proof (relation "measures [\<lambda>(eligible, st). existing_left st,
    \<lambda>(eligible, st). unstarted eligible st, \<lambda>(eligible, st). free_left st]")
  show "((eligible, st'), (eligible, st)) \<in> measures [\<lambda>(eligible, st). existing_left st,
      \<lambda>(eligible, st). unstarted eligible st, \<lambda>(eligible, st). free_left st]"
    if "pass_step eligible st = Continue st'" for eligible st st'
    using pass_step_decreases [OF that] by simp
qed simp

declare pass_loop.simps [simp del]

definition pass_init :: "active_lease list \<Rightarrow> reservation_snapshot option \<Rightarrow> pass_state" where
  "pass_init active reservation =
     \<lparr>ps_outcome = \<lparr>po_starts = [], po_satisfy_reservation = False,
        po_invalidate_reservation = None, po_create_reservation = None\<rparr>,
      ps_shadow_limits = map lease_limit active,
      ps_shadow_jobs = set (map lease_job active),
      ps_started = {},
      ps_res = map_option (\<lambda>r. \<lparr>res_job = snap_job r, res_cutoff_seq = snap_cutoff_seq r,
        res_consumed = snap_consumed r, res_existing = True\<rparr>) reservation\<rparr>"

definition invalidate_with :: "string \<Rightarrow> pass_state \<Rightarrow> pass_state" where
  "invalidate_with reason st =
     st\<lparr>ps_outcome := (ps_outcome st)\<lparr>po_invalidate_reservation := Some reason\<rparr>,
        ps_res := None\<rparr>"

text \<open>
  The two checks before the loop: a reservation whose job is no longer eligible, and one that a
  higher-priority head supersedes.
\<close>

definition drop_ineligible :: "candidate list \<Rightarrow> pass_state \<Rightarrow> pass_state" where
  "drop_ineligible eligible st =
     (case ps_res st of
        Some r \<Rightarrow>
          if \<not> list_ex (\<lambda>c. cand_job c = res_job r) eligible
          then invalidate_with ''protected job is no longer eligible'' st
          else st
      | None \<Rightarrow> st)"

definition drop_superseded :: "candidate list \<Rightarrow> pass_state \<Rightarrow> string + pass_state" where
  "drop_superseded eligible st =
     (case ps_res st of
        Some r \<Rightarrow>
          (case List.find (\<lambda>c. cand_job c = res_job r) eligible of
             None \<Rightarrow> Inl ''protected job verified eligible''
           | Some protected \<Rightarrow>
               (case eligible of
                  [] \<Rightarrow> Inr st
                | head # _ \<Rightarrow>
                    if cand_priority protected < cand_priority head
                    then Inr (invalidate_with ''higher-priority job superseded protected job'' st)
                    else Inr st))
      | None \<Rightarrow> Inr st)"

definition plan_pass ::
  "active_lease list \<Rightarrow> candidate list \<Rightarrow> reservation_snapshot option \<Rightarrow> string + pass_outcome"
where
  "plan_pass active eligible reservation =
     bindE (drop_superseded eligible (drop_ineligible eligible (pass_init active reservation)))
       (\<lambda>st. bindE (pass_loop eligible st) (\<lambda>st'. Inr (ps_outcome st')))"

text \<open>The \<open>debug_assert!\<close> at the head of \<open>plan_pass\<close>: strict queue rank.\<close>

definition ranks_before :: "candidate \<Rightarrow> candidate \<Rightarrow> bool" where
  "ranks_before a b \<longleftrightarrow>
     cand_priority b < cand_priority a \<or>
     (cand_priority a = cand_priority b \<and> cand_ready_seq a < cand_ready_seq b)"

fun pass_sorted :: "candidate list \<Rightarrow> bool" where
  "pass_sorted (a # b # rest) \<longleftrightarrow> ranks_before a b \<and> pass_sorted (b # rest)"
| "pass_sorted _ \<longleftrightarrow> True"

lemma transp_ranks_before: "transp ranks_before"
  by (auto simp: transp_def ranks_before_def)

lemma pass_sorted_wrt: "pass_sorted eligible \<longleftrightarrow> sorted_wrt ranks_before eligible"
  by (induction eligible rule: pass_sorted.induct)
    (simp_all add: sorted_wrt2 [OF transp_ranks_before] sorted_wrt1 del: sorted_wrt.simps(2))

section \<open>The admission formula\<close>

text \<open>
  A set of limits is compatible when every member tolerates the size of the set. The formula
  admits a candidate exactly when the enlarged set is compatible.
\<close>

definition compatible :: "nat list \<Rightarrow> bool" where
  "compatible limits \<longleftrightarrow> (\<forall>l\<in>set limits. length limits \<le> l)"

lemma can_admit_compatible: "can_admit limits l \<longleftrightarrow> compatible (limits @ [l])"
  by (auto simp: can_admit_def compatible_def Let_def list_all_iff)

lemma compatible_prefix: "compatible (xs @ ys) \<Longrightarrow> compatible xs"
  by (auto simp: compatible_def intro: order_trans [of _ "length xs + length ys"])

lemma can_admit_mono: "can_admit (limits @ extra) l \<Longrightarrow> can_admit limits l"
  by (auto simp: can_admit_def Let_def list_all_iff
      intro: order_trans [of _ "Suc (length limits + length extra)"])

section \<open>Invariants of the loop\<close>

text \<open>
  A property of the state that every continuing iteration keeps holds when the loop breaks, and
  there the next iteration would break again.
\<close>

lemma pass_loop_inv:
  assumes "pass_loop eligible st = Inr st'"
    and "P st"
    and "\<And>s t. P s \<Longrightarrow> pass_step eligible s = Continue t \<Longrightarrow> P t"
  shows "P st' \<and> pass_step eligible st' = Break"
  using assms
proof (induction eligible st rule: pass_loop.induct)
  case (1 eligible st)
  then show ?case
    by (cases "pass_step eligible st") (auto simp: pass_loop.simps [of eligible st])
qed

lemma pass_loop_no_panic:
  assumes "P st"
    and "\<And>s t. P s \<Longrightarrow> pass_step eligible s = Continue t \<Longrightarrow> P t"
    and "\<And>s m. P s \<Longrightarrow> pass_step eligible s \<noteq> Panic m"
  shows "\<exists>st'. pass_loop eligible st = Inr st'"
  using assms
proof (induction eligible st rule: pass_loop.induct)
  case (1 eligible st)
  then show ?case
    by (cases "pass_step eligible st") (auto simp: pass_loop.simps [of eligible st])
qed

text \<open>
  The reservation the loop works on names an eligible job; one created in this pass names a job
  that does not fit the shadow set, and never will, because the shadow set only grows.
\<close>

definition res_inv :: "candidate list \<Rightarrow> pass_state \<Rightarrow> bool" where
  "res_inv eligible st \<longleftrightarrow>
     (case ps_res st of
        None \<Rightarrow> True
      | Some r \<Rightarrow>
          (\<exists>p. List.find (\<lambda>c. cand_job c = res_job r) eligible = Some p \<and>
             (\<not> res_existing r \<longrightarrow> \<not> can_admit (ps_shadow_limits st) (cand_limit p))))"

lemma find_first_of_key:
  assumes "List.find (\<lambda>c. k c \<notin> S) xs = Some x"
  shows "List.find (\<lambda>c. k c = k x) xs = Some x"
  using assms by (induction xs) (auto split: if_splits dest: find_Some_mem)

lemma res_inv_step:
  assumes "res_inv eligible st" and "pass_step eligible st = Continue st'"
  shows "res_inv eligible st'"
  using assms(2)
proof (cases rule: pass_step_cases)
  case (backfill r p c)
  with assms(1) show ?thesis
    by (auto simp: res_inv_def dest: can_admit_mono)
next
  case (create h)
  then show ?thesis
    by (auto simp: res_inv_def find_first_of_key)
qed (use assms(1) in \<open>auto simp: res_inv_def\<close>)

lemma res_inv_no_panic: "res_inv eligible st \<Longrightarrow> pass_step eligible st \<noteq> Panic m"
  by (auto simp: res_inv_def pass_step_def pass_step_reserved_def pass_step_free_def
      split: option.splits)

lemma drop_ineligible_eligible:
  assumes "ps_res (drop_ineligible eligible st) = Some r"
  shows "drop_ineligible eligible st = st \<and>
    (\<exists>p. List.find (\<lambda>c. cand_job c = res_job r) eligible = Some p)"
proof -
  from assms have "drop_ineligible eligible st = st \<and>
      list_ex (\<lambda>c. cand_job c = res_job r) eligible"
    by (auto simp: drop_ineligible_def invalidate_with_def split: option.splits if_splits)
  moreover then have "List.find (\<lambda>c. cand_job c = res_job r) eligible \<noteq> None"
    by (auto simp: find_None_all list_ex_iff)
  ultimately show ?thesis by auto
qed

lemma pass_entry:
  obtains st where
    "drop_superseded eligible (drop_ineligible eligible (pass_init active reservation)) = Inr st"
    and "plan_pass active eligible reservation =
      bindE (pass_loop eligible st) (\<lambda>st'. Inr (ps_outcome st'))"
    and "res_inv eligible st"
proof (cases "ps_res (drop_ineligible eligible (pass_init active reservation))")
  case None
  then show ?thesis
    by (intro that [of "drop_ineligible eligible (pass_init active reservation)"])
      (simp_all add: drop_superseded_def plan_pass_def res_inv_def)
next
  case (Some r)
  let ?st = "pass_init active reservation"
  from drop_ineligible_eligible [OF Some] obtain p
    where eq: "drop_ineligible eligible ?st = ?st"
      and p: "List.find (\<lambda>c. cand_job c = res_job r) eligible = Some p" by blast
  from Some eq have r: "ps_res ?st = Some r" by simp
  then have ex: "res_existing r" by (auto simp: pass_init_def)
  from p obtain h t where el: "eligible = h # t" by (cases eligible) auto
  define st where "st = (if cand_priority p < cand_priority h
    then invalidate_with ''higher-priority job superseded protected job'' ?st else ?st)"
  have "drop_superseded eligible ?st = Inr st"
    using r p el by (auto simp: drop_superseded_def st_def)
  moreover have "res_inv eligible st"
    using r p ex by (auto simp: st_def res_inv_def invalidate_with_def)
  ultimately show ?thesis
    using eq by (intro that [of st]) (simp_all add: plan_pass_def)
qed

text \<open>The start list, the started set and the shadow set describe the same admissions.\<close>

definition limit_of :: "candidate list \<Rightarrow> job_id \<Rightarrow> nat" where
  "limit_of eligible j =
     (case List.find (\<lambda>c. cand_job c = j) eligible of None \<Rightarrow> 0 | Some c \<Rightarrow> cand_limit c)"

definition start_limits :: "candidate list \<Rightarrow> start list \<Rightarrow> nat list" where
  "start_limits eligible starts = map (\<lambda>s. limit_of eligible (start_job s)) starts"

definition shadow_inv :: "active_lease list \<Rightarrow> candidate list \<Rightarrow> pass_state \<Rightarrow> bool" where
  "shadow_inv active eligible st \<longleftrightarrow>
     (let starts = po_starts (ps_outcome st) in
      distinct (map start_job starts) \<and>
      ps_started st = set (map start_job starts) \<and>
      ps_started st \<subseteq> cand_job ` set eligible \<and>
      ps_shadow_jobs st = lease_job ` set active \<union> ps_started st \<and>
      ps_shadow_limits st = map lease_limit active @ start_limits eligible starts \<and>
      (starts = [] \<or> compatible (ps_shadow_limits st)) \<and>
      (\<forall>r. ps_res st = Some r \<longrightarrow> res_job r \<notin> ps_started st))"

lemma limit_of_unique:
  assumes "distinct (map cand_job eligible)" and "c \<in> set eligible"
  shows "limit_of eligible (cand_job c) = cand_limit c"
  using find_key_unique [OF assms refl] by (simp add: limit_of_def)

lemma shadow_inv_push:
  assumes "shadow_inv active eligible st" and "distinct (map cand_job eligible)"
    and "c \<in> set eligible" and "cand_job c \<notin> ps_started st"
    and "can_admit (ps_shadow_limits st) (cand_limit c)"
    and "\<forall>r. ps_res st' = Some r \<longrightarrow> res_job r \<notin> insert (cand_job c) (ps_started st)"
    and "ps_started st' = insert (cand_job c) (ps_started st)"
    and "ps_shadow_limits st' = ps_shadow_limits st @ [cand_limit c]"
    and "ps_shadow_jobs st' = insert (cand_job c) (ps_shadow_jobs st)"
    and "po_starts (ps_outcome st') =
      po_starts (ps_outcome st) @ [\<lparr>start_job = cand_job c, start_bypasses = b\<rparr>]"
  shows "shadow_inv active eligible st'"
  using assms limit_of_unique [OF assms(2,3)]
  by (auto simp: shadow_inv_def Let_def start_limits_def can_admit_compatible)

lemma shadow_inv_step:
  assumes "shadow_inv active eligible st" and "distinct (map cand_job eligible)"
    and "pass_step eligible st = Continue st'"
  shows "shadow_inv active eligible st'"
  using assms(3)
proof (cases rule: pass_step_cases)
  case (satisfy r p)
  then have "p \<in> set eligible" and "cand_job p = res_job r"
    by (auto dest: find_Some_mem)
  with satisfy assms(1) show ?thesis
    by (intro shadow_inv_push [OF assms(1,2), of p _ None]) (auto simp: shadow_inv_def Let_def)
next
  case (backfill r p c)
  with assms(1) show ?thesis
    by (intro shadow_inv_push [OF assms(1,2), of c _ "Some (res_job r)"])
      (auto simp: backfill_ok_def shadow_inv_def Let_def)
next
  case (admit h)
  then show ?thesis
    by (intro shadow_inv_push [OF assms(1,2), of h _ None]) (auto dest: find_Some_mem)
next
  case (create h)
  with assms(1) show ?thesis
    by (auto simp: shadow_inv_def Let_def dest: find_Some_mem)
qed

text \<open>
  Which reservation the loop works on, and what the outcome says about it.
\<close>

definition same_frontier :: "reservation_snapshot \<Rightarrow> pass_res \<Rightarrow> pass_state \<Rightarrow> bool" where
  "same_frontier snap r st \<longleftrightarrow>
     res_job r = snap_job snap \<and> res_cutoff_seq r = snap_cutoff_seq snap \<and>
     res_consumed r = snap_consumed snap \<union> ps_started st"

definition outcome_inv :: "reservation_snapshot option \<Rightarrow> pass_state \<Rightarrow> bool" where
  "outcome_inv reservation st \<longleftrightarrow>
     (let out = ps_outcome st in
      (case ps_res st of
         None \<Rightarrow> po_create_reservation out = None \<and>
           (reservation = None \<or> po_satisfy_reservation out \<or> po_invalidate_reservation out \<noteq> None)
       | Some r \<Rightarrow>
           if res_existing r then
             po_create_reservation out = None \<and> \<not> po_satisfy_reservation out \<and>
             po_invalidate_reservation out = None \<and>
             (\<exists>snap. reservation = Some snap \<and> same_frontier snap r st)
           else
             (reservation = None \<or> po_satisfy_reservation out \<or>
                po_invalidate_reservation out \<noteq> None) \<and>
             res_cutoff_seq r = None \<and>
             (\<exists>nr. po_create_reservation out = Some nr \<and> nr_job nr = res_job r \<and>
                res_consumed r = nr_initial_consumed nr \<union> ps_started st)) \<and>
      (po_satisfy_reservation out \<longrightarrow> po_invalidate_reservation out = None \<and>
         (\<exists>snap. reservation = Some snap \<and> snap_job snap \<in> ps_started st)) \<and>
      (po_invalidate_reservation out \<noteq> None \<longrightarrow> reservation \<noteq> None))"

lemma outcome_inv_step:
  assumes "outcome_inv reservation st" and "shadow_inv active eligible st"
    and "pass_step eligible st = Continue st'"
  shows "outcome_inv reservation st'"
  using assms(3)
proof (cases rule: pass_step_cases)
  case (satisfy r p)
  with assms(1) find_Some_mem [OF satisfy(3)] show ?thesis
    by (auto simp: outcome_inv_def Let_def same_frontier_def)
next
  case (backfill r p c)
  with assms(1) show ?thesis
    by (cases "res_existing r") (auto simp: outcome_inv_def Let_def same_frontier_def)
next
  case (admit h)
  with assms(1) show ?thesis by (auto simp: outcome_inv_def Let_def)
next
  case (create h)
  with assms(1,2) show ?thesis
    by (auto simp: outcome_inv_def shadow_inv_def Let_def)
qed

text \<open>What a bypass is allowed to be.\<close>

definition legal_bypass ::
  "candidate list \<Rightarrow> reservation_snapshot option \<Rightarrow> pass_outcome \<Rightarrow> candidate \<Rightarrow> job_id \<Rightarrow> bool"
where
  "legal_bypass eligible reservation out c protected \<longleftrightarrow>
     cand_job c \<noteq> protected \<and>
     (\<exists>p\<in>set eligible. cand_job p = protected \<and> cand_priority c = cand_priority p) \<and>
     ((\<exists>snap. reservation = Some snap \<and> snap_job snap = protected \<and>
         po_invalidate_reservation out = None \<and>
         cand_job c \<notin> snap_consumed snap \<and>
         (\<forall>cutoff. snap_cutoff_seq snap = Some cutoff \<longrightarrow> cand_ready_seq c \<le> cutoff)) \<or>
      (\<exists>nr. po_create_reservation out = Some nr \<and> nr_job nr = protected \<and>
         cand_job c \<notin> nr_initial_consumed nr))"

definition bypass_inv ::
  "candidate list \<Rightarrow> reservation_snapshot option \<Rightarrow> pass_state \<Rightarrow> bool"
where
  "bypass_inv eligible reservation st \<longleftrightarrow>
     (\<forall>s\<in>set (po_starts (ps_outcome st)). \<forall>protected. start_bypasses s = Some protected \<longrightarrow>
        (\<exists>c\<in>set eligible. cand_job c = start_job s \<and>
           legal_bypass eligible reservation (ps_outcome st) c protected))"

lemma legal_bypass_mono:
  assumes "legal_bypass eligible reservation out c protected"
    and "po_invalidate_reservation out' = po_invalidate_reservation out"
    and "po_create_reservation out = None \<or> po_create_reservation out' = po_create_reservation out"
  shows "legal_bypass eligible reservation out' c protected"
  using assms by (auto simp: legal_bypass_def)

lemma bypass_inv_push:
  assumes "bypass_inv eligible reservation st"
    and "po_invalidate_reservation (ps_outcome st') = po_invalidate_reservation (ps_outcome st)"
    and "po_create_reservation (ps_outcome st) = None \<or>
      po_create_reservation (ps_outcome st') = po_create_reservation (ps_outcome st)"
    and "po_starts (ps_outcome st') = po_starts (ps_outcome st) @ new"
    and "\<forall>s\<in>set new. \<forall>protected. start_bypasses s = Some protected \<longrightarrow>
      (\<exists>c\<in>set eligible. cand_job c = start_job s \<and>
         legal_bypass eligible reservation (ps_outcome st') c protected)"
  shows "bypass_inv eligible reservation st'"
  unfolding bypass_inv_def
proof (intro ballI allI impI)
  fix s protected
  assume s: "s \<in> set (po_starts (ps_outcome st'))" and b: "start_bypasses s = Some protected"
  show "\<exists>c\<in>set eligible. cand_job c = start_job s \<and>
      legal_bypass eligible reservation (ps_outcome st') c protected"
  proof (cases "s \<in> set new")
    case True
    with assms(5) b show ?thesis by blast
  next
    case False
    with s assms(4) have "s \<in> set (po_starts (ps_outcome st))" by simp
    with assms(1) b obtain c where "c \<in> set eligible" and "cand_job c = start_job s"
      and "legal_bypass eligible reservation (ps_outcome st) c protected"
      unfolding bypass_inv_def by blast
    then show ?thesis
      using legal_bypass_mono [OF _ assms(2,3)] by blast
  qed
qed

lemma bypass_inv_step:
  assumes "bypass_inv eligible reservation st" and "outcome_inv reservation st"
    and "pass_step eligible st = Continue st'"
  shows "bypass_inv eligible reservation st'"
  using assms(3)
proof (cases rule: pass_step_cases)
  case (satisfy r p)
  then show ?thesis by (intro bypass_inv_push [OF assms(1)]) auto
next
  case (backfill r p c)
  have "legal_bypass eligible reservation (ps_outcome st') c (res_job r)"
    using backfill assms(2) find_Some_mem [OF backfill(2)]
    by (cases "res_existing r")
      (auto simp: legal_bypass_def backfill_ok_def outcome_inv_def Let_def same_frontier_def)
  with backfill show ?thesis
    by (intro bypass_inv_push [OF assms(1)]) auto
next
  case (admit h)
  then show ?thesis by (intro bypass_inv_push [OF assms(1)]) auto
next
  case (create h)
  with assms(2) show ?thesis
    by (intro bypass_inv_push [OF assms(1)]) (auto simp: outcome_inv_def Let_def)
qed

text \<open>
  Queue rank is respected: whatever outranks a started job by priority has started, and nothing
  outranks the protected job without having started.
\<close>

definition priority_inv :: "candidate list \<Rightarrow> pass_state \<Rightarrow> bool" where
  "priority_inv eligible st \<longleftrightarrow>
     (\<forall>c\<in>set eligible. \<forall>d\<in>set eligible. cand_priority c < cand_priority d \<longrightarrow>
        (cand_job c \<in> ps_started st \<or> (\<exists>r. ps_res st = Some r \<and> res_job r = cand_job c)) \<longrightarrow>
        cand_job d \<in> ps_started st)"

lemma priority_inv_cong:
  assumes "priority_inv eligible st" and "distinct (map cand_job eligible)"
    and "\<And>c. c \<in> set eligible \<Longrightarrow>
      cand_job c \<in> ps_started st' \<or> (\<exists>r. ps_res st' = Some r \<and> res_job r = cand_job c) \<Longrightarrow>
      (\<exists>b\<in>set eligible. cand_priority b \<le> cand_priority c \<and>
        (cand_job b \<in> ps_started st \<or> (\<exists>r. ps_res st = Some r \<and> res_job r = cand_job b)))
      \<or> (\<forall>d\<in>set eligible. cand_priority c < cand_priority d \<longrightarrow> cand_job d \<in> ps_started st)"
    and "ps_started st \<subseteq> ps_started st'"
  shows "priority_inv eligible st'"
  unfolding priority_inv_def
proof (intro ballI impI)
  fix c d
  assume c: "c \<in> set eligible" and d: "d \<in> set eligible"
    and less: "cand_priority c < cand_priority d"
    and h: "cand_job c \<in> ps_started st' \<or> (\<exists>r. ps_res st' = Some r \<and> res_job r = cand_job c)"
  have "cand_job d \<in> ps_started st"
    using assms(3) [OF c h] assms(1) d less unfolding priority_inv_def
    by (metis order_le_less_trans)
  with assms(4) show "cand_job d \<in> ps_started st'" by blast
qed

lemma sorted_head_outranked:
  assumes "pass_sorted eligible"
    and "List.find (\<lambda>c. cand_job c \<notin> S) eligible = Some h"
    and "d \<in> set eligible" and "cand_priority h < cand_priority d"
  shows "cand_job d \<in> S"
  using assms
proof (induction eligible)
  case Nil
  then show ?case by simp
next
  case (Cons x xs)
  then show ?case
    by (auto simp: pass_sorted_wrt ranks_before_def split: if_splits)
qed

lemma job_inj:
  assumes "distinct (map cand_job eligible)" and "a \<in> set eligible" and "b \<in> set eligible"
    and "cand_job a = cand_job b"
  shows "a = b"
  using assms by (metis distinct_map inj_onD)

lemma priority_inv_step:
  assumes "priority_inv eligible st" and "distinct (map cand_job eligible)"
    and "pass_sorted eligible" and "pass_step eligible st = Continue st'"
  shows "priority_inv eligible st'"
  using assms(4)
proof (cases rule: pass_step_cases)
  case (satisfy r p)
  with find_Some_mem [OF satisfy(3)] show ?thesis
    by (intro priority_inv_cong [OF assms(1,2)]) auto
next
  case (backfill r p c)
  note p = find_Some_mem [OF backfill(2)]
  show ?thesis
  proof (rule priority_inv_cong [OF assms(1,2)])
    fix x
    assume x: "x \<in> set eligible" and
      "cand_job x \<in> ps_started st' \<or> (\<exists>r. ps_res st' = Some r \<and> res_job r = cand_job x)"
    with backfill consider "cand_job x = cand_job c" | "cand_job x \<in> ps_started st"
      | "res_job r = cand_job x" by auto
    then show "(\<exists>b\<in>set eligible. cand_priority b \<le> cand_priority x \<and>
        (cand_job b \<in> ps_started st \<or> (\<exists>r. ps_res st = Some r \<and> res_job r = cand_job b)))
      \<or> (\<forall>d\<in>set eligible. cand_priority x < cand_priority d \<longrightarrow> cand_job d \<in> ps_started st)"
    proof cases
      case 1
      with x backfill have "x = c" using job_inj [OF assms(2)] by blast
      with backfill p show ?thesis by (auto simp: backfill_ok_def)
    qed (use x backfill in auto)
  qed (use backfill in auto)
next
  case (admit h)
  note h = find_Some_mem [OF admit(2)]
  show ?thesis
    by (rule priority_inv_cong [OF assms(1,2)])
      (use admit h job_inj [OF assms(2)] sorted_head_outranked [OF assms(3) admit(2)] in \<open>auto\<close>)
next
  case (create h)
  note h = find_Some_mem [OF create(2)]
  show ?thesis
    by (rule priority_inv_cong [OF assms(1,2)])
      (use create h job_inj [OF assms(2)] sorted_head_outranked [OF assms(3) create(2)] in \<open>auto\<close>)
qed

section \<open>The state the loop starts from\<close>

lemma pass_entry_forms:
  assumes "drop_superseded eligible (drop_ineligible eligible (pass_init active reservation)) = Inr st"
  shows "st = pass_init active reservation \<and>
      (\<forall>snap. reservation = Some snap \<longrightarrow>
         (\<exists>p. List.find (\<lambda>c. cand_job c = snap_job snap) eligible = Some p \<and>
            \<not> cand_priority p < cand_priority (hd eligible)))
    \<or> (\<exists>reason. reservation \<noteq> None \<and> st = invalidate_with reason (pass_init active reservation))"
proof (cases reservation)
  case None
  with assms show ?thesis
    by (auto simp: pass_init_def drop_superseded_def drop_ineligible_def)
next
  case (Some snap)
  show ?thesis
  proof (cases "list_ex (\<lambda>c. cand_job c = snap_job snap) eligible")
    case True
    with Some have "drop_ineligible eligible (pass_init active reservation) =
        pass_init active reservation"
      by (simp add: drop_ineligible_def pass_init_def)
    with assms Some show ?thesis
      by (auto simp: drop_superseded_def pass_init_def split: option.splits list.splits if_splits)
  next
    case False
    with assms Some show ?thesis
      by (auto simp: drop_ineligible_def drop_superseded_def pass_init_def invalidate_with_def)
  qed
qed

lemma pass_entry_invs:
  assumes "drop_superseded eligible (drop_ineligible eligible (pass_init active reservation)) = Inr st"
  shows "shadow_inv active eligible st" and "outcome_inv reservation st"
    and "bypass_inv eligible reservation st"
  using pass_entry_forms [OF assms]
  by (auto simp: shadow_inv_def outcome_inv_def bypass_inv_def same_frontier_def Let_def
      pass_init_def invalidate_with_def start_limits_def split: option.splits)

lemma pass_entry_priority:
  assumes "drop_superseded eligible (drop_ineligible eligible (pass_init active reservation)) = Inr st"
    and "distinct (map cand_job eligible)" and "pass_sorted eligible"
  shows "priority_inv eligible st"
proof -
  have hd_max: "cand_priority d \<le> cand_priority (hd eligible)" if "d \<in> set eligible" for d
    using assms(3) that by (cases eligible) (auto simp: pass_sorted_wrt ranks_before_def)
  show ?thesis
    unfolding priority_inv_def
  proof (intro ballI impI)
    fix c d
    assume c: "c \<in> set eligible" and d: "d \<in> set eligible"
      and less: "cand_priority c < cand_priority d"
      and "cand_job c \<in> ps_started st \<or> (\<exists>r. ps_res st = Some r \<and> res_job r = cand_job c)"
    with pass_entry_forms [OF assms(1)] obtain snap p where "reservation = Some snap"
      and "snap_job snap = cand_job c"
      and p: "List.find (\<lambda>x. cand_job x = snap_job snap) eligible = Some p"
      and "\<not> cand_priority p < cand_priority (hd eligible)"
      by (auto simp: pass_init_def invalidate_with_def)
    moreover from this c have "p = c"
      using job_inj [OF assms(2)] find_Some_mem [OF p] by auto
    ultimately show "cand_job d \<in> ps_started st"
      using less hd_max [OF d] by auto
  qed
qed

lemma plan_pass_run:
  assumes "plan_pass active eligible reservation = Inr out"
    and "distinct (map cand_job eligible)"
  obtains st where "out = ps_outcome st" and "pass_step eligible st = Break"
    and "shadow_inv active eligible st" and "outcome_inv reservation st"
    and "bypass_inv eligible reservation st" and "res_inv eligible st"
    and "pass_sorted eligible \<longrightarrow> priority_inv eligible st"
proof -
  obtain st0 where
    e: "drop_superseded eligible (drop_ineligible eligible (pass_init active reservation)) = Inr st0"
    and eq: "plan_pass active eligible reservation =
      bindE (pass_loop eligible st0) (\<lambda>st'. Inr (ps_outcome st'))"
    and r0: "res_inv eligible st0"
    by (rule pass_entry)
  from assms(1) eq obtain st where run: "pass_loop eligible st0 = Inr st"
    and out: "out = ps_outcome st" by (auto simp: bindE_eq_Inr)
  let ?P = "\<lambda>st. shadow_inv active eligible st \<and> outcome_inv reservation st \<and>
    bypass_inv eligible reservation st \<and> res_inv eligible st \<and>
    (pass_sorted eligible \<longrightarrow> priority_inv eligible st)"
  have "?P st0"
    using pass_entry_invs [OF e] r0 pass_entry_priority [OF e assms(2)] by blast
  then have "?P st \<and> pass_step eligible st = Break"
    by (rule pass_loop_inv [OF run])
      (blast intro: shadow_inv_step outcome_inv_step bypass_inv_step res_inv_step
        priority_inv_step assms(2))
  with out show thesis by (intro that) auto
qed

section \<open>The contract of an admission policy\<close>

text \<open>
  What the coordinator relies on when it commits the outcome of a pass: a pass returns; what it
  starts are distinct candidates that together fit; a reservation is satisfied only with its job
  started, survives only with its job waiting, and is created only for a waiting candidate that
  does not fit, never beside a surviving one; a bypass names the reservation it passes.
\<close>

definition outcome_consistent ::
  "active_lease list \<Rightarrow> candidate list \<Rightarrow> reservation_snapshot option \<Rightarrow> pass_outcome \<Rightarrow> bool"
where
  "outcome_consistent active eligible reservation out \<longleftrightarrow>
    distinct (map start_job (po_starts out)) \<and>
    start_job ` set (po_starts out) \<subseteq> cand_job ` set eligible \<and>
    (\<forall>nr. po_create_reservation out = Some nr \<longrightarrow>
       nr_job nr \<in> cand_job ` set eligible \<and> nr_job nr \<notin> start_job ` set (po_starts out) \<and>
       \<not> can_admit (map lease_limit active @ start_limits eligible (po_starts out))
           (limit_of eligible (nr_job nr)) \<and>
       (reservation = None \<or> po_satisfy_reservation out \<or> po_invalidate_reservation out \<noteq> None)) \<and>
    (po_satisfy_reservation out \<longrightarrow> po_invalidate_reservation out = None \<and>
       (\<exists>snap. reservation = Some snap \<and> snap_job snap \<in> start_job ` set (po_starts out))) \<and>
    (\<forall>snap. reservation = Some snap \<longrightarrow> \<not> po_satisfy_reservation out \<longrightarrow>
       po_invalidate_reservation out = None \<longrightarrow> snap_job snap \<notin> start_job ` set (po_starts out)) \<and>
    (po_invalidate_reservation out \<noteq> None \<longrightarrow> reservation \<noteq> None)"

lemma plan_pass_consistent:
  assumes "plan_pass active eligible reservation = Inr out"
    and "distinct (map cand_job eligible)"
  shows "outcome_consistent active eligible reservation out"
proof -
  from assms obtain st where st: "out = ps_outcome st" "shadow_inv active eligible st"
    "outcome_inv reservation st" "res_inv eligible st"
    by (rule plan_pass_run)
  have created: "nr_job nr \<in> cand_job ` set eligible \<and> nr_job nr \<notin> start_job ` set (po_starts out) \<and>
      \<not> can_admit (map lease_limit active @ start_limits eligible (po_starts out))
          (limit_of eligible (nr_job nr)) \<and>
      (reservation = None \<or> po_satisfy_reservation out \<or> po_invalidate_reservation out \<noteq> None)"
    if nr: "po_create_reservation out = Some nr" for nr
  proof -
    from nr st(1,3) obtain r where r: "ps_res st = Some r" "\<not> res_existing r"
      "res_job r = nr_job nr"
      and g: "reservation = None \<or> po_satisfy_reservation out \<or> po_invalidate_reservation out \<noteq> None"
      by (auto simp: outcome_inv_def Let_def split: option.splits if_splits)
    from r st(4) obtain p where p: "List.find (\<lambda>c. cand_job c = nr_job nr) eligible = Some p"
      and "\<not> can_admit (ps_shadow_limits st) (cand_limit p)"
      by (auto simp: res_inv_def)
    moreover from find_Some_mem [OF p] have "nr_job nr \<in> cand_job ` set eligible"
      by (metis image_eqI)
    ultimately show ?thesis
      using r g st(1,2) by (auto simp: shadow_inv_def Let_def limit_of_def)
  qed
  have "snap_job snap \<notin> start_job ` set (po_starts out)"
    if "reservation = Some snap" "\<not> po_satisfy_reservation out"
      "po_invalidate_reservation out = None" for snap
    using st that
    by (auto simp: outcome_inv_def shadow_inv_def Let_def same_frontier_def
        split: option.splits if_splits)
  with created st show ?thesis
    by (auto simp: outcome_consistent_def outcome_inv_def shadow_inv_def Let_def)
qed

locale admission_policy =
  fixes plan :: "active_lease list \<Rightarrow> candidate list \<Rightarrow> reservation_snapshot option \<Rightarrow>
    string + pass_outcome"
  assumes total: "\<exists>out. plan active eligible reservation = Inr out"
    and consistent: "plan active eligible reservation = Inr out \<Longrightarrow>
      distinct (map cand_job eligible) \<Longrightarrow> outcome_consistent active eligible reservation out"
    and fits: "plan active eligible reservation = Inr out \<Longrightarrow>
      distinct (map cand_job eligible) \<Longrightarrow> po_starts out \<noteq> [] \<Longrightarrow>
      compatible (map lease_limit active @ start_limits eligible (po_starts out))"
    and legal: "plan active eligible reservation = Inr out \<Longrightarrow>
      distinct (map cand_job eligible) \<Longrightarrow> s \<in> set (po_starts out) \<Longrightarrow>
      start_bypasses s = Some protected \<Longrightarrow>
      \<exists>c\<in>set eligible. cand_job c = start_job s \<and>
        legal_bypass eligible reservation out c protected"
begin

text \<open>A start that bypasses names a reservation that the outcome keeps, satisfies or creates.\<close>

lemma bypass_attributed:
  assumes "plan active eligible reservation = Inr out" "distinct (map cand_job eligible)"
    and "s \<in> set (po_starts out)" "start_bypasses s = Some protected"
  shows "(\<exists>snap. reservation = Some snap \<and> snap_job snap = protected) \<or>
    (\<exists>nr. po_create_reservation out = Some nr \<and> nr_job nr = protected)"
  using legal [OF assms] by (auto simp: legal_bypass_def)

lemma starts_eligible:
  assumes "plan active eligible reservation = Inr out" "distinct (map cand_job eligible)"
    and "s \<in> set (po_starts out)"
  shows "\<exists>c\<in>set eligible. cand_job c = start_job s"
proof -
  have "start_job s \<in> cand_job ` set eligible"
    using consistent [OF assms(1,2)] assms(3) by (auto simp: outcome_consistent_def)
  then show ?thesis by (metis imageE)
qed

end

interpretation pass_policy: admission_policy plan_pass
proof
  show "\<exists>out. plan_pass active eligible reservation = Inr out" for active eligible reservation
  proof -
    obtain st0 where eq: "plan_pass active eligible reservation =
        bindE (pass_loop eligible st0) (\<lambda>st'. Inr (ps_outcome st'))"
      and r0: "res_inv eligible st0"
      by (rule pass_entry)
    have "\<exists>st. pass_loop eligible st0 = Inr st"
      by (rule pass_loop_no_panic [of "res_inv eligible"])
        (auto intro: r0 res_inv_step dest: res_inv_no_panic)
    with eq show ?thesis by auto
  qed
  show "compatible (map lease_limit active @ start_limits eligible (po_starts out))"
    if "plan_pass active eligible reservation = Inr out" "distinct (map cand_job eligible)"
      "po_starts out \<noteq> []" for active eligible reservation out
    using that by (elim plan_pass_run) (auto simp: shadow_inv_def Let_def)
  show "\<exists>c\<in>set eligible. cand_job c = start_job s \<and> legal_bypass eligible reservation out c protected"
    if "plan_pass active eligible reservation = Inr out" "distinct (map cand_job eligible)"
      "s \<in> set (po_starts out)" "start_bypasses s = Some protected"
    for active eligible reservation out s protected
    using that by (elim plan_pass_run) (auto simp: bypass_inv_def)
qed (rule plan_pass_consistent)

section \<open>What a pass guarantees\<close>

text \<open>
  C12: a scheduling pass always returns an outcome. The loop ends, and neither of its panics can
  be reached: the protected job is always found among the candidates, and a reservation created
  in a pass is never satisfied in the same pass.
\<close>

theorem plan_pass_total: "\<exists>out. plan_pass active eligible reservation = Inr out"
  by (rule pass_policy.total)

text \<open>
  C13: admission never violates a declared limit. If the pass starts anything, then every job
  that holds a lease afterwards, old or new, tolerates the total number of leases.
\<close>

theorem plan_pass_admission_safe:
  assumes "plan_pass active eligible reservation = Inr out"
    and "distinct (map cand_job eligible)"
    and "po_starts out \<noteq> []"
  shows "compatible (map lease_limit active @ start_limits eligible (po_starts out))"
  using assms by (rule pass_policy.fits)

text \<open>
  The outcome is consistent. Starts are distinct candidates; a job for which a reservation
  is created, or whose reservation survives the pass, has not started and does not fit the
  resulting set; a satisfied reservation is not also invalidated and its job has started; a
  second reservation is never created beside a surviving one.
\<close>

theorem plan_pass_outcome_consistent:
  assumes "plan_pass active eligible reservation = Inr out"
    and "distinct (map cand_job eligible)"
  shows "distinct (map start_job (po_starts out)) \<and>
    start_job ` set (po_starts out) \<subseteq> cand_job ` set eligible \<and>
    (\<forall>nr. po_create_reservation out = Some nr \<longrightarrow>
       nr_job nr \<in> cand_job ` set eligible \<and> nr_job nr \<notin> start_job ` set (po_starts out) \<and>
       \<not> can_admit (map lease_limit active @ start_limits eligible (po_starts out))
           (limit_of eligible (nr_job nr)) \<and>
       (reservation = None \<or> po_satisfy_reservation out \<or> po_invalidate_reservation out \<noteq> None)) \<and>
    (po_satisfy_reservation out \<longrightarrow> po_invalidate_reservation out = None \<and>
       (\<exists>snap. reservation = Some snap \<and> snap_job snap \<in> start_job ` set (po_starts out))) \<and>
    (\<forall>snap. reservation = Some snap \<longrightarrow> \<not> po_satisfy_reservation out \<longrightarrow>
       po_invalidate_reservation out = None \<longrightarrow> snap_job snap \<notin> start_job ` set (po_starts out)) \<and>
    (po_invalidate_reservation out \<noteq> None \<longrightarrow> reservation \<noteq> None)"
  using plan_pass_consistent [OF assms] unfolding outcome_consistent_def .

text \<open>
  C21: backfilling is bounded. A start that bypasses a protected job has the priority of that
  job; it passes either the surviving persisted reservation, whose consumed set does not hold it
  and whose frozen cutoff it does not exceed, or the reservation created in this pass, which did
  not count it among its blockers.
\<close>

theorem plan_pass_bypass_legal:
  assumes "plan_pass active eligible reservation = Inr out"
    and "distinct (map cand_job eligible)"
    and "s \<in> set (po_starts out)" and "start_bypasses s = Some protected"
  shows "\<exists>c\<in>set eligible. cand_job c = start_job s \<and>
    legal_bypass eligible reservation out c protected"
  using assms by (rule pass_policy.legal)

text \<open>
  C22: no priority inversion. When a job starts, every eligible job of strictly higher priority
  starts in the same pass.
\<close>

theorem plan_pass_no_priority_inversion:
  assumes "plan_pass active eligible reservation = Inr out"
    and "distinct (map cand_job eligible)" and "pass_sorted eligible"
    and "c \<in> set eligible" and "d \<in> set eligible"
    and "cand_priority c < cand_priority d"
    and "cand_job c \<in> start_job ` set (po_starts out)"
  shows "cand_job d \<in> start_job ` set (po_starts out)"
  using assms(1,2)
proof (rule plan_pass_run)
  fix st
  assume "out = ps_outcome st" and "shadow_inv active eligible st"
    and "pass_sorted eligible \<longrightarrow> priority_inv eligible st"
  with assms(3-) show ?thesis
    by (auto simp: priority_inv_def shadow_inv_def Let_def)
qed

text \<open>
  C23: the pass is maximal. A candidate left waiting waits for a reason: some protected job is
  still blocked at the end, and the candidate is that job itself, or has another priority, or
  has used its bypass, or became ready after the frozen cutoff, or does not fit beside the jobs
  that hold leases after the pass.
\<close>

theorem plan_pass_maximal:
  assumes "plan_pass active eligible reservation = Inr out"
    and "distinct (map cand_job eligible)"
    and "c \<in> set eligible" and "cand_job c \<notin> start_job ` set (po_starts out)"
  shows "\<exists>p\<in>set eligible.
    (let limits = map lease_limit active @ start_limits eligible (po_starts out) in
     \<not> can_admit limits (cand_limit p) \<and>
     ((\<exists>snap. reservation = Some snap \<and> snap_job snap = cand_job p \<and>
         (c = p \<or> cand_priority c \<noteq> cand_priority p \<or> cand_job c \<in> snap_consumed snap \<or>
          (\<exists>cutoff. snap_cutoff_seq snap = Some cutoff \<and> cutoff < cand_ready_seq c) \<or>
          \<not> can_admit limits (cand_limit c))) \<or>
      (\<exists>nr. po_create_reservation out = Some nr \<and> nr_job nr = cand_job p \<and>
         (c = p \<or> cand_priority c \<noteq> cand_priority p \<or> cand_job c \<in> nr_initial_consumed nr \<or>
          \<not> can_admit limits (cand_limit c)))))"
proof -
  from assms(1,2) obtain st where st: "out = ps_outcome st" "pass_step eligible st = Break"
    "shadow_inv active eligible st" "outcome_inv reservation st"
    by (rule plan_pass_run)
  have waiting: "cand_job c \<notin> ps_started st"
    using assms(4) st(1,3) by (auto simp: shadow_inv_def Let_def)
  have limits: "ps_shadow_limits st = map lease_limit active @ start_limits eligible (po_starts out)"
    using st(1,3) by (auto simp: shadow_inv_def Let_def)
  from st(2) waiting assms(3) obtain r p where r: "ps_res st = Some r"
    and p: "List.find (\<lambda>c. cand_job c = res_job r) eligible = Some p"
    and blocked: "\<not> can_admit (ps_shadow_limits st) (cand_limit p)"
    and none: "\<forall>x\<in>set eligible. \<not> backfill_ok r p st x"
    by (auto simp: pass_step_def pass_step_free_def pass_step_reserved_def find_None_all
        split: option.splits if_splits)
  note pm = find_Some_mem [OF p]
  have same: "c = p" if "cand_job c = res_job r"
    using that job_inj [OF assms(2,3)] pm by auto
  have "\<not> backfill_ok r p st c" using none assms(3) by blast
  then have reason: "c = p \<or> cand_priority c \<noteq> cand_priority p \<or> cand_job c \<in> res_consumed r \<or>
      (\<exists>cutoff. res_cutoff_seq r = Some cutoff \<and> cutoff < cand_ready_seq c) \<or>
      \<not> can_admit (ps_shadow_limits st) (cand_limit c)"
    using waiting same by (auto simp: backfill_ok_def split: option.splits)
  show ?thesis
  proof (cases "res_existing r")
    case True
    with st(1,4) r obtain snap where "reservation = Some snap" "same_frontier snap r st"
      by (auto simp: outcome_inv_def Let_def)
    then show ?thesis
      using pm blocked reason waiting
      by (intro bexI [of _ p]) (auto simp: Let_def limits [symmetric] same_frontier_def)
  next
    case False
    with st(1,4) r obtain nr where "po_create_reservation out = Some nr" "nr_job nr = res_job r"
      "res_cutoff_seq r = None" "res_consumed r = nr_initial_consumed nr \<union> ps_started st"
      by (auto simp: outcome_inv_def Let_def)
    then show ?thesis
      using pm blocked reason waiting
      by (intro bexI [of _ p]) (auto simp: Let_def limits [symmetric])
  qed
qed

section \<open>Reference definition without a reservation\<close>

text \<open>
  Without a persisted reservation the pass admits the longest prefix of the queue in which every
  job fits beside the ones before it, protects the next job, and only then backfills.
\<close>

fun fifo_prefix :: "nat list \<Rightarrow> candidate list \<Rightarrow> candidate list" where
  "fifo_prefix limits [] = []"
| "fifo_prefix limits (c # cs) =
     (if can_admit limits (cand_limit c) then c # fifo_prefix (limits @ [cand_limit c]) cs else [])"

definition plain_start :: "candidate \<Rightarrow> start" where
  "plain_start c = \<lparr>start_job = cand_job c, start_bypasses = None\<rparr>"

definition fifo_outcome :: "active_lease list \<Rightarrow> candidate list \<Rightarrow> pass_outcome \<Rightarrow> bool" where
  "fifo_outcome active eligible out \<longleftrightarrow>
     (let pre = fifo_prefix (map lease_limit active) eligible in
      \<exists>backfills. po_starts out = map plain_start pre @ backfills \<and>
       (case drop (length pre) eligible of
          [] \<Rightarrow> backfills = [] \<and> po_create_reservation out = None
        | head # _ \<Rightarrow>
            (\<forall>s\<in>set backfills. start_bypasses s = Some (cand_job head)) \<and>
            po_create_reservation out = Some \<lparr>nr_job = cand_job head,
              nr_initial_consumed = lease_job ` set active \<union> cand_job ` set pre\<rparr>))"

definition fifo_inv :: "active_lease list \<Rightarrow> candidate list \<Rightarrow> pass_state \<Rightarrow> bool" where
  "fifo_inv active eligible st \<longleftrightarrow>
     (case ps_res st of
        None \<Rightarrow> (\<exists>pre rest. eligible = pre @ rest \<and>
          po_starts (ps_outcome st) = map plain_start pre \<and>
          fifo_prefix (map lease_limit active) eligible =
            pre @ fifo_prefix (ps_shadow_limits st) rest)
      | Some r \<Rightarrow> \<not> res_existing r \<and> (\<exists>pre head rest backfills. eligible = pre @ head # rest \<and>
          res_job r = cand_job head \<and>
          po_starts (ps_outcome st) = map plain_start pre @ backfills \<and>
          (\<forall>s\<in>set backfills. start_bypasses s = Some (cand_job head)) \<and>
          po_create_reservation (ps_outcome st) = Some \<lparr>nr_job = cand_job head,
              nr_initial_consumed = lease_job ` set active \<union> cand_job ` set pre\<rparr> \<and>
          fifo_prefix (map lease_limit active) eligible = pre))"

lemma plain_start_job [simp]: "start_job (plain_start c) = cand_job c"
  by (simp add: plain_start_def)

lemma find_unstarted_split:
  assumes "distinct (map cand_job (pre @ rest))"
  shows "List.find (\<lambda>c. cand_job c \<notin> cand_job ` set pre) (pre @ rest) =
    (case rest of [] \<Rightarrow> None | h # _ \<Rightarrow> Some h)"
proof -
  have "List.find (\<lambda>c. cand_job c \<notin> cand_job ` set pre) (pre @ rest) =
      List.find (\<lambda>c. cand_job c \<notin> cand_job ` set pre) rest"
    by (rule find_append_skip) auto
  with assms show ?thesis by (auto split: list.splits)
qed

lemma fifo_inv_free:
  assumes "fifo_inv active eligible st" and "shadow_inv active eligible st" and "ps_res st = None"
  obtains pre rest where "eligible = pre @ rest"
    and "po_starts (ps_outcome st) = map plain_start pre"
    and "fifo_prefix (map lease_limit active) eligible =
      pre @ fifo_prefix (ps_shadow_limits st) rest"
    and "ps_started st = cand_job ` set pre"
    and "ps_shadow_jobs st = lease_job ` set active \<union> cand_job ` set pre"
proof -
  from assms(1,3) obtain pre rest where pr: "eligible = pre @ rest"
    "po_starts (ps_outcome st) = map plain_start pre"
    "fifo_prefix (map lease_limit active) eligible =
      pre @ fifo_prefix (ps_shadow_limits st) rest"
    unfolding fifo_inv_def by auto
  with assms(2) show thesis
    by (intro that [of pre rest]) (auto simp: shadow_inv_def Let_def image_image)
qed

lemma fifo_inv_step:
  assumes "fifo_inv active eligible st" and "distinct (map cand_job eligible)"
    and "shadow_inv active eligible st" and "pass_step eligible st = Continue st'"
  shows "fifo_inv active eligible st'"
  using assms(4)
proof (cases rule: pass_step_cases)
  case (satisfy r p)
  with assms(1) show ?thesis by (simp add: fifo_inv_def)
next
  case (backfill r p c)
  with assms(1) show ?thesis by (fastforce simp: fifo_inv_def)
next
  case (admit h)
  obtain pre rest where el: "eligible = pre @ rest"
    and starts: "po_starts (ps_outcome st) = map plain_start pre"
    and fp: "fifo_prefix (map lease_limit active) eligible =
      pre @ fifo_prefix (ps_shadow_limits st) rest"
    and started: "ps_started st = cand_job ` set pre"
    by (rule fifo_inv_free [OF assms(1,3) admit(1)])
  from admit(2) started el assms(2) obtain rest' where "rest = h # rest'"
    using find_unstarted_split [of pre rest] by (auto split: list.splits)
  with admit el starts fp have "eligible = (pre @ [h]) @ rest' \<and>
      po_starts (ps_outcome st') = map plain_start (pre @ [h]) \<and>
      fifo_prefix (map lease_limit active) eligible =
        (pre @ [h]) @ fifo_prefix (ps_shadow_limits st') rest'"
    by (simp add: plain_start_def)
  moreover from admit have "ps_res st' = None" by simp
  ultimately show ?thesis
    unfolding fifo_inv_def by (simp only: option.case) blast
next
  case (create h)
  obtain pre rest where el: "eligible = pre @ rest"
    and starts: "po_starts (ps_outcome st) = map plain_start pre"
    and fp: "fifo_prefix (map lease_limit active) eligible =
      pre @ fifo_prefix (ps_shadow_limits st) rest"
    and started: "ps_started st = cand_job ` set pre"
    and jobs: "ps_shadow_jobs st = lease_job ` set active \<union> cand_job ` set pre"
    by (rule fifo_inv_free [OF assms(1,3) create(1)])
  from create(2) started el assms(2) obtain rest' where "rest = h # rest'"
    using find_unstarted_split [of pre rest] by (auto split: list.splits)
  with create el starts fp jobs show ?thesis
    by (simp add: fifo_inv_def) (rule exI [of _ pre], rule exI [of _ h], simp)
qed


text \<open>
  The protected job goes first. When the protected job of the persisted reservation is
  eligible, is not outranked by the head of the queue, and fits, it is the first start of the
  pass, it starts without a bypass, and the reservation is satisfied.
\<close>

theorem plan_pass_protected_first:
  assumes "List.find (\<lambda>c. cand_job c = snap_job snap) eligible = Some p"
    and "\<not> cand_priority p < cand_priority (hd eligible)"
    and "can_admit (map lease_limit active) (cand_limit p)"
    and "plan_pass active eligible (Some snap) = Inr out"
  shows "po_satisfy_reservation out \<and> po_starts out \<noteq> [] \<and> hd (po_starts out) = plain_start p"
proof -
  let ?st = "pass_init active (Some snap)"
  from assms(1) have "eligible \<noteq> []" by auto
  from assms(1) have "list_ex (\<lambda>c. cand_job c = snap_job snap) eligible"
    by (auto simp: list_ex_iff dest: find_Some_mem)
  then have "drop_superseded eligible (drop_ineligible eligible ?st) = Inr ?st"
    using assms(1,2) \<open>eligible \<noteq> []\<close>
    by (auto simp: drop_ineligible_def drop_superseded_def pass_init_def neq_Nil_conv
        split: list.splits)
  with assms(4) obtain st where run: "pass_loop eligible ?st = Inr st" and out: "out = ps_outcome st"
    by (auto simp: plan_pass_def bindE_eq_Inr)
  let ?P = "\<lambda>st. po_satisfy_reservation (ps_outcome st) \<and> po_starts (ps_outcome st) \<noteq> [] \<and>
    hd (po_starts (ps_outcome st)) = plain_start p \<and>
    (\<forall>r. ps_res st = Some r \<longrightarrow> \<not> res_existing r)"
  obtain st1 where step: "pass_step eligible ?st = Continue st1" and "?P st1"
    using assms(1,3) by (simp add: pass_step_def pass_step_reserved_def pass_init_def plain_start_def)
  from step run have "pass_loop eligible st1 = Inr st"
    by (simp add: pass_loop.simps [of eligible ?st])
  then have "?P st \<and> pass_step eligible st = Break"
    using \<open>?P st1\<close> by (rule pass_loop_inv) (auto elim!: pass_step_cases)
  with out show ?thesis by simp
qed

section \<open>Worked instances\<close>

text \<open>
  The motivating example of the unit tests: two jobs of width three run, an exclusive job is
  first in line, and jobs of width three wait behind it.
\<close>

definition demo_active :: "active_lease list" where
  "demo_active = [\<lparr>lease_job = 100, lease_limit = 3\<rparr>, \<lparr>lease_job = 101, lease_limit = 3\<rparr>]"

definition demo_cand :: "job_id \<Rightarrow> nat \<Rightarrow> int \<Rightarrow> candidate" where
  "demo_cand j l prio = \<lparr>cand_job = j, cand_ready_seq = j, cand_limit = l, cand_priority = prio\<rparr>"

definition demo_eligible :: "candidate list" where
  "demo_eligible = [demo_cand 1 1 0, demo_cand 2 3 0, demo_cand 3 3 0]"

definition demo_snapshot :: "int option \<Rightarrow> reservation_snapshot" where
  "demo_snapshot cutoff =
     \<lparr>snap_job = 1, snap_cutoff_seq = cutoff, snap_consumed = {100, 101, 2}\<rparr>"

lemmas demo_defs = demo_active_def demo_eligible_def demo_cand_def demo_snapshot_def

lemmas pass_eval = plan_pass_def drop_superseded_def drop_ineligible_def pass_init_def
  invalidate_with_def pass_loop.simps pass_step_def pass_step_free_def pass_step_reserved_def
  push_start_def backfill_ok_def can_admit_def Let_def

lemma demo_pass_free:
  "plan_pass demo_active demo_eligible None = Inr \<lparr>
     po_starts = [\<lparr>start_job = 2, start_bypasses = Some 1\<rparr>],
     po_satisfy_reservation = False, po_invalidate_reservation = None,
     po_create_reservation = Some \<lparr>nr_job = 1, nr_initial_consumed = {100, 101}\<rparr>\<rparr>"
  by (simp add: demo_defs pass_eval insert_commute)

lemma demo_pass_frozen:
  "plan_pass demo_active demo_eligible (Some (demo_snapshot (Some 6))) = Inr \<lparr>
     po_starts = [\<lparr>start_job = 3, start_bypasses = Some 1\<rparr>],
     po_satisfy_reservation = False, po_invalidate_reservation = None,
     po_create_reservation = None\<rparr>"
  by (simp add: demo_defs pass_eval)

lemma demo_distinct: "distinct (map cand_job demo_eligible)"
  by (simp add: demo_defs)

theorem plan_pass_admission_safe_witness:
  "compatible (map lease_limit demo_active @
     start_limits demo_eligible [\<lparr>start_job = 2, start_bypasses = Some 1\<rparr>])"
  using plan_pass_admission_safe [OF demo_pass_free demo_distinct] by simp

theorem plan_pass_outcome_consistent_witness:
  "(1 :: int) \<notin> {2} \<and>
   \<not> can_admit (map lease_limit demo_active @
       start_limits demo_eligible [\<lparr>start_job = 2, start_bypasses = Some 1\<rparr>])
     (limit_of demo_eligible 1)"
  using plan_pass_outcome_consistent [OF demo_pass_free demo_distinct] by simp

theorem plan_pass_bypass_legal_witness:
  "\<exists>c\<in>set demo_eligible. cand_job c = 3 \<and> cand_ready_seq c \<le> 6 \<and>
     cand_job c \<notin> snap_consumed (demo_snapshot (Some 6))"
  using plan_pass_bypass_legal [OF demo_pass_frozen demo_distinct,
      of "\<lparr>start_job = 3, start_bypasses = Some 1\<rparr>" 1]
  by (auto simp: legal_bypass_def demo_snapshot_def)

definition demo_ranked :: "candidate list" where
  "demo_ranked = [demo_cand 3 4 1, demo_cand 1 4 0]"

lemma demo_pass_ranked:
  "plan_pass [] demo_ranked None = Inr \<lparr>
     po_starts = [\<lparr>start_job = 3, start_bypasses = None\<rparr>, \<lparr>start_job = 1, start_bypasses = None\<rparr>],
     po_satisfy_reservation = False, po_invalidate_reservation = None,
     po_create_reservation = None\<rparr>"
  by (simp add: demo_ranked_def demo_cand_def pass_eval)

theorem plan_pass_no_priority_inversion_witness:
  "cand_job (demo_cand 3 4 1) \<in> start_job `
     {\<lparr>start_job = 3, start_bypasses = None\<rparr>, \<lparr>start_job = 1, start_bypasses = None\<rparr>}"
  using plan_pass_no_priority_inversion [OF demo_pass_ranked,
      of "demo_cand 1 4 0" "demo_cand 3 4 1"]
  by (simp add: demo_ranked_def demo_cand_def ranks_before_def)

theorem plan_pass_maximal_witness:
  "\<exists>p\<in>set demo_eligible.
     \<not> can_admit (map lease_limit demo_active @
         start_limits demo_eligible [\<lparr>start_job = 2, start_bypasses = Some 1\<rparr>]) (cand_limit p)"
  using plan_pass_maximal [OF demo_pass_free demo_distinct, of "demo_cand 3 3 0"]
  by (auto simp: demo_eligible_def demo_cand_def Let_def)


lemma demo_pass_drained:
  "plan_pass [] demo_eligible (Some (demo_snapshot (Some 6))) = Inr \<lparr>
     po_starts = [\<lparr>start_job = 1, start_bypasses = None\<rparr>],
     po_satisfy_reservation = True, po_invalidate_reservation = None,
     po_create_reservation = Some \<lparr>nr_job = 2, nr_initial_consumed = {1}\<rparr>\<rparr>"
  by (simp add: demo_defs pass_eval)

theorem plan_pass_protected_first_witness:
  "hd [\<lparr>start_job = 1, start_bypasses = None\<rparr>] = plain_start (demo_cand 1 1 0)"
  using plan_pass_protected_first [OF _ _ _ demo_pass_drained, of "demo_cand 1 1 0"]
  by (simp add: demo_defs can_admit_def)

end
