(* ===== verification/Protocol.thy ===== *)
theory Protocol
  imports Domain
begin

text \<open>
  Model of \<^verbatim>\<open>src/src/protocol.rs\<close>: the operations and views of the socket
  protocol, the canonical form behind the idempotency hash, and the length-prefixed framing.

  \<open>serde_json\<close> and SHA-256 are not part of this repository: \<open>request_hash\<close> takes the
  composition \<open>hex(sha256(to_vec(op)))\<close> as the parameter \<open>digest\<close>, and the canonical form
  it is applied to is computed here. A \<open>BTreeMap\<close> is the association list of its entries in
  key order. Strings are UTF-8 byte sequences; \<open>chars()\<close> splits them at the bytes that are
  not continuation bytes.
\<close>

unbundle bit_operations_syntax

section \<open>Ordered maps\<close>

fun btree_insert :: "('k \<Rightarrow> 'k \<Rightarrow> bool) \<Rightarrow> 'k \<Rightarrow> 'v \<Rightarrow> ('k \<times> 'v) list \<Rightarrow> ('k \<times> 'v) list" where
  "btree_insert before k v [] = [(k, v)]"
| "btree_insert before k v ((k', v') # m) =
     (if k = k' then (k, v) # m
      else if before k k' then (k, v) # (k', v') # m
      else (k', v') # btree_insert before k v m)"

lemma map_of_btree_insert: "map_of (btree_insert before k v m) = (map_of m)(k \<mapsto> v)"
proof (induction m)
  case (Cons kv m)
  then show ?case by (cases kv) (auto simp: fun_eq_iff)
qed (auto simp: fun_eq_iff)

lemma set_fst_btree_insert:
  "fst ` set (btree_insert before k v m) = insert k (fst ` set m)"
proof (induction m)
  case (Cons kv m)
  then show ?case by (cases kv) (simp add: insert_commute)
qed simp

lemma sorted_btree_insert:
  assumes "sorted_wrt (<) (map fst m)"
  shows "sorted_wrt (<) (map fst (btree_insert (<) (k :: int) v m))"
  using assms
proof (induction m)
  case Nil
  then show ?case by simp
next
  case (Cons kv m)
  obtain k' v' where [simp]: "kv = (k', v')" by (cases kv)
  have "\<forall>x\<in>fst ` set (btree_insert (<) k v m). k' < x" if "k' < k"
    using Cons.prems that by (auto simp: set_fst_btree_insert)
  with Cons show ?case by auto
qed

text \<open>Byte order of strings, the order of \<open>BTreeMap<String, _>\<close>.\<close>

fun str_less :: "string \<Rightarrow> string \<Rightarrow> bool" where
  "str_less [] ys \<longleftrightarrow> ys \<noteq> []"
| "str_less (x # xs) [] \<longleftrightarrow> False"
| "str_less (x # xs) (y # ys) \<longleftrightarrow>
     (of_char x :: nat) < of_char y \<or> (x = y \<and> str_less xs ys)"

section \<open>Characters of UTF-8 text\<close>

definition continuation_byte :: "char \<Rightarrow> bool" where
  "continuation_byte c \<longleftrightarrow> 128 \<le> (of_char c :: nat) \<and> (of_char c :: nat) < 192"

fun utf8_chars :: "string \<Rightarrow> string list" where
  "utf8_chars [] = []"
| "utf8_chars (c # cs) =
     (case utf8_chars cs of
        [] \<Rightarrow> [[c]]
      | ch # chs \<Rightarrow> if continuation_byte (hd ch) then (c # ch) # chs else [c] # ch # chs)"

lemma utf8_chars_nonempty: "ch \<in> set (utf8_chars s) \<Longrightarrow> ch \<noteq> []"
  by (induction s arbitrary: ch) (auto split: list.splits if_splits)

lemma concat_utf8_chars [simp]: "concat (utf8_chars s) = s"
  by (induction s) (auto split: list.splits)

definition char_count :: "string \<Rightarrow> nat" where
  "char_count s = length (utf8_chars s)"

definition chars_take :: "nat \<Rightarrow> string \<Rightarrow> string" where
  "chars_take n s = concat (take n (utf8_chars s))"

text \<open>The white space of \<open>str::trim\<close> (Unicode \<open>White_Space\<close>), as UTF-8.\<close>

definition white_space :: "string list" where
  "white_space =
     [[CHR 0x09], [CHR 0x0A], [CHR 0x0B], [CHR 0x0C], [CHR 0x0D], [CHR 0x20],
      [CHR 0xC2, CHR 0x85], [CHR 0xC2, CHR 0xA0], [CHR 0xE1, CHR 0x9A, CHR 0x80],
      [CHR 0xE2, CHR 0x80, CHR 0x80], [CHR 0xE2, CHR 0x80, CHR 0x81],
      [CHR 0xE2, CHR 0x80, CHR 0x82], [CHR 0xE2, CHR 0x80, CHR 0x83],
      [CHR 0xE2, CHR 0x80, CHR 0x84], [CHR 0xE2, CHR 0x80, CHR 0x85],
      [CHR 0xE2, CHR 0x80, CHR 0x86], [CHR 0xE2, CHR 0x80, CHR 0x87],
      [CHR 0xE2, CHR 0x80, CHR 0x88], [CHR 0xE2, CHR 0x80, CHR 0x89],
      [CHR 0xE2, CHR 0x80, CHR 0x8A], [CHR 0xE2, CHR 0x80, CHR 0xA8],
      [CHR 0xE2, CHR 0x80, CHR 0xA9], [CHR 0xE2, CHR 0x80, CHR 0xAF],
      [CHR 0xE2, CHR 0x81, CHR 0x9F], [CHR 0xE3, CHR 0x80, CHR 0x80]]"

definition is_white :: "string \<Rightarrow> bool" where
  "is_white ch \<longleftrightarrow> ch \<in> set white_space"

definition trim :: "string \<Rightarrow> string" where
  "trim s = concat (rev (dropWhile is_white (rev (dropWhile is_white (utf8_chars s)))))"

definition NUL :: char where
  "NUL = CHR 0x00"

section \<open>Requests\<close>

definition PROTOCOL_VERSION :: nat where
  "PROTOCOL_VERSION = 8"

definition DEFAULT_MAX_FRAME_BYTES :: "32 word" where
  "DEFAULT_MAX_FRAME_BYTES = 1048576"

datatype error_code =
    UNSUPPORTED_PROTOCOL
  | MALFORMED_REQUEST
  | MISSING_IDEMPOTENCY_KEY
  | IDEMPOTENCY_CONFLICT
  | NOT_FOUND
  | INVALID_STATE
  | INVALID_ARGUMENT
  | UNSAFE_RESOLUTION
  | ADMISSION_BLOCKED
  | TOO_MANY_SUBSCRIPTIONS
  | INTERNAL

record dependency_spec =
  ds_job :: job_id
  ds_condition :: dependency_condition

record submit_params =
  sp_name :: string
  sp_cwd :: string
  sp_args :: "string list"
  sp_env :: "(string \<times> string) list"
  sp_max_parallel_runs :: nat
  sp_priority :: int
  sp_max_attempts :: nat
  sp_retry_delay_ms :: nat
  sp_time_limit_ms :: "nat option"
  sp_dependencies :: "dependency_spec list"
  sp_yield_policy :: "yield_policy option"

datatype resolve_as = R_Lost | R_Cancelled

datatype op =
    Submit submit_params
  | Status
  | Subscribe
  | SubscribeJob job_id "int option"
  | FollowTtsSnapshot
  | Events int nat
  | Show job_id
  | See "job_id option"
  | Logs job_id "int option"
  | Cancel job_id bool
  | Yield job_id string bool bool
  | Hold job_id
  | Release job_id
  | Pause
  | Unpause
  | Retry job_id
  | SetMaxParallelRuns job_id nat
  | SetPriority job_id int
  | SetTimeLimit job_id "nat option"
  | DaemonStatus
  | RecoverList
  | RecoverResolve job_id int resolve_as

record request =
  rq_protocol_version :: nat
  rq_request_id :: string
  rq_idempotency_key :: "string option"
  rq_op :: op

fun is_mutation :: "op \<Rightarrow> bool" where
  "is_mutation (Submit _) = True"
| "is_mutation (Cancel _ _) = True"
| "is_mutation (Yield _ _ _ _) = True"
| "is_mutation (Hold _) = True"
| "is_mutation (Release _) = True"
| "is_mutation Pause = True"
| "is_mutation Unpause = True"
| "is_mutation (Retry _) = True"
| "is_mutation (SetMaxParallelRuns _ _) = True"
| "is_mutation (SetPriority _ _) = True"
| "is_mutation (SetTimeLimit _ _) = True"
| "is_mutation (RecoverResolve _ _ _) = True"
| "is_mutation _ = False"

fun op_kind :: "op \<Rightarrow> string" where
  "op_kind (Submit _) = ''submit''"
| "op_kind Status = ''status''"
| "op_kind Subscribe = ''subscribe''"
| "op_kind (SubscribeJob _ _) = ''subscribe_job''"
| "op_kind FollowTtsSnapshot = ''follow_tts_snapshot''"
| "op_kind (Events _ _) = ''events''"
| "op_kind (Show _) = ''show''"
| "op_kind (See _) = ''see''"
| "op_kind (Logs _ _) = ''logs''"
| "op_kind (Cancel _ _) = ''cancel''"
| "op_kind (Yield _ _ _ _) = ''yield''"
| "op_kind (Hold _) = ''hold''"
| "op_kind (Release _) = ''release''"
| "op_kind Pause = ''pause''"
| "op_kind Unpause = ''unpause''"
| "op_kind (Retry _) = ''retry''"
| "op_kind (SetMaxParallelRuns _ _) = ''set_max_parallel_runs''"
| "op_kind (SetPriority _ _) = ''set_priority''"
| "op_kind (SetTimeLimit _ _) = ''set_time_limit''"
| "op_kind DaemonStatus = ''daemon_status''"
| "op_kind RecoverList = ''recover_list''"
| "op_kind (RecoverResolve _ _ _) = ''recover_resolve''"

section \<open>The idempotency hash\<close>

text \<open>
  Sorting by (job, condition) with a stable sort, removal of consecutive duplicates
  (\<open>Vec::dedup\<close>), then removal of the weaker declaration of a job that also has the stronger.
\<close>

definition condition_rank :: "dependency_condition \<Rightarrow> int" where
  "condition_rank c = (case c of Dep_Succeeded \<Rightarrow> 0 | Dep_Terminal \<Rightarrow> 1)"

definition spec_before :: "dependency_spec \<Rightarrow> dependency_spec \<Rightarrow> bool" where
  "spec_before a b \<longleftrightarrow>
     ds_job a < ds_job b \<or>
     (ds_job a = ds_job b \<and> condition_rank (ds_condition a) < condition_rank (ds_condition b))"

definition canonical_dependencies :: "dependency_spec list \<Rightarrow> dependency_spec list" where
  "canonical_dependencies deps =
     (let sorted = remdups_adj (order_by spec_before deps);
          succeeded = ds_job ` set (filter (\<lambda>d. ds_condition d = Dep_Succeeded) sorted)
      in filter (\<lambda>d. ds_condition d = Dep_Succeeded \<or> ds_job d \<notin> succeeded) sorted)"

definition canonical_op :: "op \<Rightarrow> op" where
  "canonical_op o' =
     (case o' of
        Submit params \<Rightarrow>
          Submit (params\<lparr>sp_dependencies := canonical_dependencies (sp_dependencies params)\<rparr>)
      | _ \<Rightarrow> o')"

definition request_hash :: "(op \<Rightarrow> string) \<Rightarrow> op \<Rightarrow> string" where
  "request_hash digest o' = digest (canonical_op o')"

record legacy_v5_submit_params =
  lp_name :: string
  lp_cwd :: string
  lp_args :: "string list"
  lp_env :: "(string \<times> string) list"
  lp_max_parallel_runs :: nat
  lp_priority :: int
  lp_max_attempts :: nat
  lp_retry_delay_ms :: nat
  lp_after_success :: "job_id list"
  lp_after_completion :: "job_id list"

definition legacy_v5_request_hash ::
  "(legacy_v5_submit_params \<Rightarrow> string) \<Rightarrow> op \<Rightarrow> string option" where
  "legacy_v5_request_hash legacy_digest o' =
     (case o' of
        Submit params \<Rightarrow>
          if sp_time_limit_ms params \<noteq> None \<or> sp_yield_policy params \<noteq> None then None
          else Some (legacy_digest
            \<lparr>lp_name = sp_name params, lp_cwd = sp_cwd params, lp_args = sp_args params,
             lp_env = sp_env params, lp_max_parallel_runs = sp_max_parallel_runs params,
             lp_priority = sp_priority params, lp_max_attempts = sp_max_attempts params,
             lp_retry_delay_ms = sp_retry_delay_ms params,
             lp_after_success = map ds_job
               (filter (\<lambda>d. ds_condition d = Dep_Succeeded) (sp_dependencies params)),
             lp_after_completion = map ds_job
               (filter (\<lambda>d. ds_condition d = Dep_Terminal) (sp_dependencies params))\<rparr>)
      | _ \<Rightarrow> None)"

section \<open>Replies\<close>

text \<open>
  The context of a job is declared in \<^verbatim>\<open>src/src/job_context.rs\<close>; counts and limits
  that the code narrows with \<open>as u32\<close> are kept at the value of the narrowed type.
\<close>

record job_context =
  ctx_repository :: string
  ctx_worktree :: string
  ctx_subdirectory :: string

record yield_request_view =
  yv_reason :: string
  yv_requested_at :: millis
  yv_hold :: bool
  yv_delivered :: bool

record dependency_view =
  dv_parent :: job_id
  dv_condition :: dependency_condition
  dv_parent_state :: string
  dv_resolution :: "dependency_resolution option"
  dv_parent_outcome :: "string option"
  dv_resolved_at :: "millis option"

record attempt_view =
  av_id :: attempt_id
  av_job_id :: job_id
  av_number :: int
  av_state :: string
  av_max_parallel_runs :: nat
  av_exit_code :: "int option"
  av_term_signal :: "int option"
  av_message :: "string option"
  av_created_at :: millis
  av_finished_at :: "millis option"
  av_yield_requested_at :: "millis option"
  av_yield_reason :: "string option"
  av_log_dir :: string

record job_view =
  jv_id :: job_id
  jv_name :: string
  jv_state :: string
  jv_eligibility :: "string option"
  jv_state_reason :: "string option"
  jv_max_parallel_runs :: nat
  jv_priority :: int
  jv_cwd :: string
  jv_context :: "job_context option"
  jv_args :: "string list"
  jv_max_attempts :: nat
  jv_retry_delay_ms :: nat
  jv_time_limit_ms :: "nat option"
  jv_retry_not_before :: "millis option"
  jv_ready_sequence :: "int option"
  jv_attempt_count :: int
  jv_created_at :: millis
  jv_updated_at :: millis
  jv_finished_at :: "millis option"
  jv_dependencies :: "dependency_view list"
  jv_attempts :: "attempt_view list"
  jv_cancel_requested :: "bool option"
  jv_yield_policy :: "yield_policy option"
  jv_yield_count :: int
  jv_yield_request :: "yield_request_view option"

record event_view =
  ev_id :: int
  ev_timestamp :: millis
  ev_job :: "job_id option"
  ev_job_name :: "string option"
  ev_attempt :: "attempt_id option"
  ev_attempt_number :: "int option"
  ev_event_type :: string

record job_update_view =
  ju_job :: job_view
  ju_cursor :: int
  ju_events :: "event_view list"
  ju_has_more :: bool

record log_paths_view =
  lv_job :: job_id
  lv_attempt :: attempt_id
  lv_attempt_number :: int
  lv_attempt_state :: string
  lv_exit_code :: "int option"
  lv_term_signal :: "int option"
  lv_message :: "string option"
  lv_stdout :: string
  lv_stderr :: string

record reservation_view =
  rv_protected_job :: job_id
  rv_backfill_window_open :: bool
  rv_backfill_cutoff :: "int option"
  rv_created_at :: millis
  rv_blocking_attempts :: "attempt_id list"
  rv_consumed_bypasses :: "job_id list"

record status_view =
  sv_jobs :: "job_view list"
  sv_active_leases :: nat
  sv_effective_limit :: "nat option"
  sv_reservation :: "reservation_view option"
  sv_admission_blocked :: bool
  sv_paused :: bool

record follow_tts_job_view =
  fj_id :: job_id
  fj_name :: string

record follow_tts_snapshot_view =
  fv_running_jobs :: "follow_tts_job_view list"
  fv_additional_running_jobs :: nat
  fv_latest_event_id :: int

record daemon_status_view =
  dsv_pid :: nat
  dsv_version :: string
  dsv_protocol_version :: nat
  dsv_scheduler_semantics_version :: int
  dsv_started_at :: millis
  dsv_db_path :: string
  dsv_socket_path :: string
  dsv_active_leases :: nat
  dsv_queued_jobs :: nat
  dsv_admission_blocked :: bool
  dsv_paused :: bool

datatype reply =
    R_Submitted job_view
  | R_Job job_view
  | R_Status status_view
  | R_FollowTtsSnapshot follow_tts_snapshot_view
  | R_JobUpdate job_update_view
  | R_Events "event_view list"
  | R_LogPaths log_paths_view
  | R_DaemonStatus daemon_status_view
  | R_RecoverList "attempt_view list"
  | R_Paused bool

record error_body =
  eb_code :: error_code
  eb_message :: string

record response =
  rs_request_id :: string
  rs_reply :: "reply option"
  rs_error :: "error_body option"

text \<open>\<open>deserialize_dependency_condition\<close>: the two spellings of the stored views.\<close>

definition deserialize_dependency_condition :: "string \<Rightarrow> string + dependency_condition" where
  "deserialize_dependency_condition s =
     (if s = ''succeeded'' \<or> s = ''success'' then Inr Dep_Succeeded
      else if s = ''terminal'' \<or> s = ''completion'' then Inr Dep_Terminal
      else Inl s)"

section \<open>Framing\<close>

text \<open>
  Sockets are byte sequences: a reader is the list of the bytes still to come before the end of
  the stream, a writer the list of the bytes written. The asynchronous and the synchronous pair
  of functions have the same bodies, one model each serves both. Errors of the stream itself
  other than its end are not modelled.
\<close>

datatype io_error = InvalidInput string | InvalidData string | UnexpectedEof

definition u32_max :: nat where
  "u32_max = 4294967295"

definition frame_len :: "nat \<Rightarrow> 32 word \<Rightarrow> io_error + 32 word" where
  "frame_len bytes_len mx =
     (if bytes_len > u32_max then Inl (InvalidInput ''frame too large'')
      else let len = word_of_nat bytes_len in
        if len > mx then
          Inl (InvalidInput (''frame of '' @ show_nat (unat len) @ '' bytes exceeds limit '' @
            show_nat (unat mx)))
        else Inr len)"

definition to_be_bytes :: "32 word \<Rightarrow> 8 word list" where
  "to_be_bytes w = [ucast (drop_bit 24 w), ucast (drop_bit 16 w), ucast (drop_bit 8 w), ucast w]"

definition from_be_bytes :: "8 word list \<Rightarrow> 32 word" where
  "from_be_bytes bs = foldl (\<lambda>acc b. push_bit 8 acc OR ucast b) 0 bs"

text \<open>\<open>read_exact\<close>: \<open>None\<close> when the stream ends first (its bytes are consumed).\<close>

definition read_exact :: "nat \<Rightarrow> 8 word list \<Rightarrow> (8 word list \<times> 8 word list) option" where
  "read_exact n inp = (if n \<le> length inp then Some (take n inp, drop n inp) else None)"

definition read_frame ::
  "8 word list \<Rightarrow> 32 word \<Rightarrow> io_error + (8 word list option \<times> 8 word list)" where
  "read_frame inp mx =
     (case read_exact 4 inp of
        None \<Rightarrow> Inr (None, [])
      | Some (len_buf, inp') \<Rightarrow>
          let len = from_be_bytes len_buf in
          if len > mx then
            Inl (InvalidData (''frame of '' @ show_nat (unat len) @ '' bytes exceeds limit '' @
              show_nat (unat mx)))
          else
            (case read_exact (unat len) inp' of
               None \<Rightarrow> Inl UnexpectedEof
             | Some (buf, inp'') \<Rightarrow> Inr (Some buf, inp'')))"

definition write_frame :: "8 word list \<Rightarrow> 8 word list \<Rightarrow> 32 word \<Rightarrow> io_error + 8 word list" where
  "write_frame out bytes mx =
     bindE (frame_len (length bytes) mx) (\<lambda>len. Inr (out @ to_be_bytes len @ bytes))"

section \<open>Lemmas and properties\<close>

lemma canonical_dependencies_set:
  "d \<in> set (canonical_dependencies deps) \<longleftrightarrow>
     d \<in> set deps \<and>
     (ds_condition d = Dep_Succeeded \<or>
      \<lparr>ds_job = ds_job d, ds_condition = Dep_Succeeded\<rparr> \<notin> set deps)"
proof -
  have "ds_job d \<in> ds_job ` {e \<in> set deps. ds_condition e = Dep_Succeeded} \<longleftrightarrow>
      \<lparr>ds_job = ds_job d, ds_condition = Dep_Succeeded\<rparr> \<in> set deps"
  proof
    assume "ds_job d \<in> ds_job ` {e \<in> set deps. ds_condition e = Dep_Succeeded}"
    then obtain e where "e \<in> set deps" and e: "ds_condition e = Dep_Succeeded" "ds_job e = ds_job d"
      by auto
    moreover from e have "e = \<lparr>ds_job = ds_job d, ds_condition = Dep_Succeeded\<rparr>"
      by (cases e) simp
    ultimately show "\<lparr>ds_job = ds_job d, ds_condition = Dep_Succeeded\<rparr> \<in> set deps"
      by simp
  next
    assume "\<lparr>ds_job = ds_job d, ds_condition = Dep_Succeeded\<rparr> \<in> set deps"
    then show "ds_job d \<in> ds_job ` {e \<in> set deps. ds_condition e = Dep_Succeeded}"
      by (intro image_eqI [of _ _ "\<lparr>ds_job = ds_job d, ds_condition = Dep_Succeeded\<rparr>"]) simp_all
  qed
  then show ?thesis
    by (auto simp: canonical_dependencies_def Let_def)
qed

lemma transp_spec_before: "transp spec_before"
  by (rule transpI) (auto simp: spec_before_def)

lemma spec_before_total: "x \<noteq> y \<Longrightarrow> spec_before x y \<or> spec_before y x"
  by (cases x; cases y)
    (auto simp: spec_before_def condition_rank_def split: dependency_condition.splits)

lemma canonical_dependencies_sorted:
  "sorted_wrt (<) (map ds_job (canonical_dependencies deps))"
proof -
  define xs where "xs = remdups_adj (order_by spec_before deps)"
  let ?succ = "ds_job ` set (filter (\<lambda>d. ds_condition d = Dep_Succeeded) xs)"
  let ?keep = "\<lambda>d. ds_condition d = Dep_Succeeded \<or> ds_job d \<notin> ?succ"
  have "sorted_wrt spec_before (filter ?keep xs)"
    unfolding xs_def
    by (intro sorted_wrt_filter sorted_remdups_adj sorted_order_by_weak transp_spec_before
        spec_before_total)
  then have "sorted_wrt (\<lambda>a b. ds_job a < ds_job b) (filter ?keep xs)"
  proof (rule sorted_wrt_mono_rel [rotated])
    fix a b assume "a \<in> set (filter ?keep xs)" "b \<in> set (filter ?keep xs)" "spec_before a b"
    then show "ds_job a < ds_job b"
      by (auto simp: spec_before_def condition_rank_def image_iff
          split: dependency_condition.splits)
  qed
  then show ?thesis
    by (simp add: canonical_dependencies_def Let_def xs_def sorted_wrt_map)
qed

lemma from_to_be_bytes [simp]: "from_be_bytes (to_be_bytes w) = w"
proof (rule bit_word_eqI)
  fix n assume "n < LENGTH(32)"
  then consider "n < 8" | "8 \<le> n" "n < 16" | "16 \<le> n" "n < 24" | "24 \<le> n" "n < 32"
    by fastforce
  then show "bit (from_be_bytes (to_be_bytes w)) n \<longleftrightarrow> bit w n"
    by cases (auto simp: from_be_bytes_def to_be_bytes_def bit_simps)
qed

lemma length_to_be_bytes [simp]: "length (to_be_bytes w) = 4"
  by (simp add: to_be_bytes_def)

lemma unat32_less: "unat (w :: 32 word) < 4294967296"
proof -
  have "unat w < 2 ^ LENGTH(32)" by (rule unsigned_less)
  then show ?thesis by simp
qed

lemma unat32_of_nat: "n < 4294967296 \<Longrightarrow> unat (word_of_nat n :: 32 word) = n"
  by (simp add: unat_of_nat)

lemma frame_len_ok: "frame_len n mx = Inr len \<longleftrightarrow> n \<le> unat mx \<and> len = word_of_nat n"
proof (cases "n > u32_max")
  case True
  have "unat mx \<le> u32_max"
    using unat32_less [of mx] by (simp add: u32_max_def)
  with True show ?thesis by (auto simp: frame_len_def)
next
  case False
  then have "unat (word_of_nat n :: 32 word) = n"
    by (simp add: u32_max_def unat32_of_nat)
  with False show ?thesis
    by (auto simp: frame_len_def Let_def word_less_nat_alt not_less)
qed

lemma unat_frame_len: "frame_len n mx = Inr len \<Longrightarrow> unat len = n"
  using unat32_less [of mx] by (auto simp: frame_len_ok intro!: unat32_of_nat)

lemma read_written_frame:
  assumes "frame_len (length bytes) mx = Inr len"
  shows "read_frame (to_be_bytes len @ bytes @ rest) mx = Inr (Some bytes, rest)"
proof -
  have "\<not> mx < len"
    using assms unat_frame_len [OF assms] by (simp add: frame_len_ok word_less_nat_alt)
  then show ?thesis
    using unat_frame_len [OF assms] by (simp add: read_frame_def read_exact_def Let_def)
qed

lemma read_frame_consumes:
  "read_frame inp mx = Inr (Some buf, inp') \<Longrightarrow> length inp' < length inp"
  by (auto simp: read_frame_def read_exact_def Let_def split: if_splits option.splits)

text \<open>Reading a stream frame by frame up to its end, the loop of a connection.\<close>

function read_all :: "8 word list \<Rightarrow> 32 word \<Rightarrow> io_error + 8 word list list" where
  "read_all inp mx =
     (case read_frame inp mx of
        Inl e \<Rightarrow> Inl e
      | Inr (None, _) \<Rightarrow> Inr []
      | Inr (Some buf, inp') \<Rightarrow> bindE (read_all inp' mx) (\<lambda>fs. Inr (buf # fs)))"
  by pat_completeness auto
termination
  by (relation "measure (\<lambda>(inp, _). length inp)") (auto dest: read_frame_consumes)

declare read_all.simps [simp del]

lemma read_all_frames:
  assumes "foldE (\<lambda>b out. write_frame out b mx) frames out = Inr out'"
  shows "\<exists>tail. out' = out @ tail \<and> read_all tail mx = Inr frames"
  using assms
proof (induction frames arbitrary: out)
  case Nil
  then show ?case by (simp add: read_all.simps read_frame_def read_exact_def)
next
  case (Cons b frames)
  from Cons.prems obtain len where len: "frame_len (length b) mx = Inr len"
    and rest: "foldE (\<lambda>b out. write_frame out b mx) frames (out @ to_be_bytes len @ b) = Inr out'"
    by (auto simp: write_frame_def bindE_eq_Inr)
  from Cons.IH [OF rest] obtain tail
    where "out' = (out @ to_be_bytes len @ b) @ tail" and "read_all tail mx = Inr frames" by blast
  then show ?case
    using read_written_frame [OF len, of tail]
    by (intro exI [of _ "to_be_bytes len @ b @ tail"]) (simp add: read_all.simps [of "to_be_bytes len @ b @ tail"])
qed


end
