(* ===== verification/Tables.thy ===== *)
theory Tables
  imports Protocol
begin

text \<open>
  The rows and tables of \<^verbatim>\<open>src/src/db.rs\<close>, as migrations v1 to v9 leave
  them, and the access pattern every query uses. A table with a rowid key is a list of rows in
  rowid order: keys come from an \<open>AUTOINCREMENT\<close> counter and rows are only appended, so
  \<open>ORDER BY id\<close> is list order. \<open>SELECT ... WHERE id = ?\<close> is a lookup and
  \<open>UPDATE ... WHERE id = ?\<close> maps over the rows. The laws of that pattern are the locale
  \<open>row_table\<close>, interpreted for the job and the attempt table.

  Text columns that hold an enumeration hold the enumeration here (\<open>Domain\<close> shows that its
  text form round-trips); columns that hold JSON hold the value. The context column is
  doubly optional: \<open>None\<close> is SQL null (not yet discovered), \<open>Some None\<close> the stored JSON
  null of a directory outside a repository.
\<close>

section \<open>Rows\<close>

record job_record =
  j_id :: job_id
  j_name :: string
  j_state :: job_state
  j_cwd :: string
  j_context :: "job_context option option"
  j_args :: "string list"
  j_env :: "(string \<times> string) list"
  j_max_parallel_runs :: nat
  j_priority :: int
  j_max_attempts :: int
  j_retry_delay_ms :: int
  j_time_limit_ms :: "int option"
  j_time_limit_set_at :: "millis option"
  j_retry_not_before :: "millis option"
  j_ready_seq :: "int option"
  j_attempt_count :: int
  j_yield_policy :: "yield_policy option"
  j_state_reason :: "string option"
  j_created_at :: millis
  j_updated_at :: millis
  j_finished_at :: "millis option"

record dependency_row =
  d_parent :: job_id
  d_child :: job_id
  d_condition :: dependency_condition
  d_resolution :: "dependency_resolution option"
  d_parent_outcome :: "job_state option"
  d_resolved_at :: "millis option"

record attempt_record =
  a_id :: attempt_id
  a_job :: job_id
  a_number :: int
  a_state :: attempt_state
  a_launch_token :: string
  a_max_parallel_runs :: nat
  a_runner_pid :: "int option"
  a_runner_start_time :: "int option"
  a_runner_boot_id :: "string option"
  a_cmd_pid :: "int option"
  a_cmd_pgid :: "int option"
  a_cmd_start_time :: "int option"
  a_command_started_at :: "millis option"
  a_exit_code :: "int option"
  a_term_signal :: "int option"
  a_cancel_requested :: bool
  a_cancel_force :: bool
  a_cancel_requested_at :: "millis option"
  a_message :: "string option"
  a_created_at :: millis
  a_authorized_at :: "millis option"
  a_running_at :: "millis option"
  a_finished_at :: "millis option"
  a_timed_out_at :: "millis option"
  a_yield_requested_at :: "millis option"
  a_yield_hold :: bool
  a_yield_reason :: "string option"
  a_yield_delivered_at :: "millis option"

record run_lease =
  l_attempt :: attempt_id
  l_job :: job_id
  l_max_parallel_runs :: nat
  l_acquired_at :: millis
  l_released_at :: "millis option"

datatype reservation_status = Res_Active | Res_Satisfied | Res_Invalidated

record reservation_row =
  r_id :: int
  r_job :: job_id
  r_cutoff_seq :: int
  r_semantics_version :: int
  r_status :: reservation_status
  r_reason :: "string option"
  r_initial_blockers :: "attempt_id list"
  r_created_at :: millis
  r_resolved_at :: "millis option"

record backfill_row =
  b_reservation :: int
  b_job :: job_id
  b_reason :: string
  b_attempt :: "attempt_id option"
  b_created_at :: millis

record operation_row =
  o_key :: string
  o_type :: string
  o_request_hash :: string
  o_response :: string
  o_created_at :: millis

record event_row =
  e_id :: int
  e_ts :: millis
  e_job :: "job_id option"
  e_attempt :: "attempt_id option"
  e_type :: string
  e_actor :: string
  e_details :: "json option"

section \<open>The database\<close>

text \<open>
  The counters are the \<open>sqlite_sequence\<close> entries of the tables with \<open>AUTOINCREMENT\<close>
  and the singleton row of \<open>scheduler_ready_sequence\<close>; \<open>db_paused\<close> is the singleton row
  of \<open>scheduler_pause\<close>.
\<close>

record database =
  jobs :: "job_record list"
  dependencies :: "dependency_row list"
  attempts :: "attempt_record list"
  run_leases :: "run_lease list"
  reservations :: "reservation_row list"
  backfills :: "backfill_row list"
  operations :: "operation_row list"
  events :: "event_row list"
  job_seq :: int
  attempt_seq :: int
  reservation_seq :: int
  event_seq :: int
  ready_sequence :: int
  db_paused :: bool
  db_paused_at :: millis

text \<open>A freshly migrated database.\<close>

definition empty_db :: database where
  "empty_db = \<lparr>jobs = [], dependencies = [], attempts = [], run_leases = [], reservations = [],
     backfills = [], operations = [], events = [], job_seq = 0, attempt_seq = 0,
     reservation_seq = 0, event_seq = 0, ready_sequence = 0, db_paused = False,
     db_paused_at = 0\<rparr>"

definition update_where :: "('r \<Rightarrow> bool) \<Rightarrow> ('r \<Rightarrow> 'r) \<Rightarrow> 'r list \<Rightarrow> 'r list" where
  "update_where P f rows = map (\<lambda>r. if P r then f r else r) rows"

definition job_row :: "database \<Rightarrow> job_id \<Rightarrow> job_record option" where
  "job_row db i = List.find (\<lambda>j. j_id j = i) (jobs db)"

definition update_job :: "job_id \<Rightarrow> (job_record \<Rightarrow> job_record) \<Rightarrow> database \<Rightarrow> database" where
  "update_job i f db = db\<lparr>jobs := update_where (\<lambda>j. j_id j = i) f (jobs db)\<rparr>"

definition attempt_row :: "database \<Rightarrow> attempt_id \<Rightarrow> attempt_record option" where
  "attempt_row db i = List.find (\<lambda>a. a_id a = i) (attempts db)"

definition update_attempt ::
  "attempt_id \<Rightarrow> (attempt_record \<Rightarrow> attempt_record) \<Rightarrow> database \<Rightarrow> database" where
  "update_attempt i f db = db\<lparr>attempts := update_where (\<lambda>a. a_id a = i) f (attempts db)\<rparr>"

definition update_lease ::
  "attempt_id \<Rightarrow> (run_lease \<Rightarrow> run_lease) \<Rightarrow> database \<Rightarrow> database" where
  "update_lease i f db = db\<lparr>run_leases :=
     update_where (\<lambda>l. l_attempt l = i \<and> l_released_at l = None) f (run_leases db)\<rparr>"

lemma map_update_where:
  "(\<And>r. g (f r) = g r) \<Longrightarrow> map g (update_where P f rows) = map g rows"
  by (simp add: update_where_def)

lemma update_where_mem:
  "r \<in> set (update_where P f rows) \<Longrightarrow> \<exists>s\<in>set rows. r = s \<and> \<not> P s \<or> r = f s \<and> P s"
  by (auto simp: update_where_def)

section \<open>Laws of a table with a key\<close>

locale row_table =
  fixes rows :: "'d \<Rightarrow> 'r list"
    and key :: "'r \<Rightarrow> 'k"
    and lookup :: "'d \<Rightarrow> 'k \<Rightarrow> 'r option"
    and update :: "'k \<Rightarrow> ('r \<Rightarrow> 'r) \<Rightarrow> 'd \<Rightarrow> 'd"
  assumes lookup_rows: "lookup d k = List.find (\<lambda>r. key r = k) (rows d)"
    and rows_update: "rows (update k f d) = map (\<lambda>r. if key r = k then f r else r) (rows d)"
begin

lemma lookup_Some: "lookup d k = Some r \<Longrightarrow> r \<in> set (rows d) \<and> key r = k"
  by (auto simp: lookup_rows dest: find_Some_mem)

lemma lookup_None: "lookup d k = None \<longleftrightarrow> k \<notin> key ` set (rows d)"
  by (auto simp: lookup_rows find_None_all)

lemma lookup_ex: "k \<in> key ` set (rows d) \<Longrightarrow> \<exists>r. lookup d k = Some r"
  using lookup_None [of d k] by (cases "lookup d k") auto

lemma lookup_unique:
  "distinct (map key (rows d)) \<Longrightarrow> r \<in> set (rows d) \<Longrightarrow> lookup d (key r) = Some r"
  by (simp add: lookup_rows find_key_unique)

lemma lookup_unique_iff:
  "distinct (map key (rows d)) \<Longrightarrow> lookup d k = Some r \<longleftrightarrow> r \<in> set (rows d) \<and> key r = k"
  using lookup_Some lookup_unique by metis

lemma keys_update: "(\<And>r. key (f r) = key r) \<Longrightarrow> map key (rows (update k f d)) = map key (rows d)"
  by (simp add: rows_update)

lemma lookup_update:
  assumes "\<And>r. key (f r) = key r"
  shows "lookup (update k f d) k' =
    (if k' = k then map_option f (lookup d k) else lookup d k')"
proof -
  have "lookup (update k f d) k' =
      map_option (\<lambda>r. if key r = k then f r else r) (lookup d k')"
    unfolding lookup_rows rows_update by (rule find_map_key) (simp add: assms)
  then show ?thesis
    using lookup_Some [of d k'] by (cases "lookup d k'") auto
qed

lemma mem_update:
  "r \<in> set (rows (update k f d)) \<longleftrightarrow>
     (\<exists>s\<in>set (rows d). r = (if key s = k then f s else s))"
  by (simp only: rows_update set_map image_iff)

end

interpretation job_table: row_table jobs j_id job_row update_job
  by unfold_locales (simp_all add: job_row_def update_job_def update_where_def)

interpretation attempt_table: row_table attempts a_id attempt_row update_attempt
  by unfold_locales (simp_all add: attempt_row_def update_attempt_def update_where_def)

lemma update_job_frame [simp]:
  "dependencies (update_job i f db) = dependencies db"
  "attempts (update_job i f db) = attempts db"
  "run_leases (update_job i f db) = run_leases db"
  "reservations (update_job i f db) = reservations db"
  "backfills (update_job i f db) = backfills db"
  "operations (update_job i f db) = operations db"
  "events (update_job i f db) = events db"
  "job_seq (update_job i f db) = job_seq db"
  "attempt_seq (update_job i f db) = attempt_seq db"
  "reservation_seq (update_job i f db) = reservation_seq db"
  "event_seq (update_job i f db) = event_seq db"
  "ready_sequence (update_job i f db) = ready_sequence db"
  "db_paused (update_job i f db) = db_paused db"
  by (simp_all add: update_job_def)

lemma update_attempt_frame [simp]:
  "jobs (update_attempt i g db) = jobs db"
  "dependencies (update_attempt i g db) = dependencies db"
  "run_leases (update_attempt i g db) = run_leases db"
  "reservations (update_attempt i g db) = reservations db"
  "backfills (update_attempt i g db) = backfills db"
  "operations (update_attempt i g db) = operations db"
  "events (update_attempt i g db) = events db"
  "job_seq (update_attempt i g db) = job_seq db"
  "attempt_seq (update_attempt i g db) = attempt_seq db"
  "reservation_seq (update_attempt i g db) = reservation_seq db"
  "event_seq (update_attempt i g db) = event_seq db"
  "ready_sequence (update_attempt i g db) = ready_sequence db"
  "db_paused (update_attempt i g db) = db_paused db"
  by (simp_all add: update_attempt_def)

lemma update_lease_frame [simp]:
  "jobs (update_lease i h db) = jobs db"
  "dependencies (update_lease i h db) = dependencies db"
  "attempts (update_lease i h db) = attempts db"
  "reservations (update_lease i h db) = reservations db"
  "backfills (update_lease i h db) = backfills db"
  "operations (update_lease i h db) = operations db"
  "events (update_lease i h db) = events db"
  "job_seq (update_lease i h db) = job_seq db"
  "attempt_seq (update_lease i h db) = attempt_seq db"
  "reservation_seq (update_lease i h db) = reservation_seq db"
  "event_seq (update_lease i h db) = event_seq db"
  "ready_sequence (update_lease i h db) = ready_sequence db"
  "db_paused (update_lease i h db) = db_paused db"
  by (simp_all add: update_lease_def)

lemma job_row_cong: "jobs db = jobs db' \<Longrightarrow> job_row db i = job_row db' i"
  by (simp add: job_row_def)

lemma attempt_row_cong: "attempts db = attempts db' \<Longrightarrow> attempt_row db i = attempt_row db' i"
  by (simp add: attempt_row_def)

end
