(* ===== verification/Database.thy ===== *)
theory Database
  imports Scheduler Tables
begin

text \<open>
  Model of the queries and updates of \<^verbatim>\<open>src/src/db.rs\<close>. Each function of the
  file is one definition on the \<open>database\<close> record; a function that can be refused (an
  \<open>ensure!\<close>, a conversion, or a constraint of the schema that the caller does not rule out)
  returns \<open>string + 'a\<close>. The unique index on \<open>ready_seq\<close> and the foreign keys of rows that
  are derived from existing rows are not branches: the invariant of \<open>Queue\<close> shows that they
  hold.

  Failures of SQLite itself (I/O, busy) are not modelled, and counters are unbounded integers.
  A transaction reads the clock once: \<open>append_event\<close> stamps the reading that its caller
  passes to the other updates of the same transaction.
\<close>

section \<open>Events\<close>

definition append_event ::
  "millis \<Rightarrow> job_id option \<Rightarrow> attempt_id option \<Rightarrow> string \<Rightarrow> string \<Rightarrow> json option \<Rightarrow> database \<Rightarrow> database"
  where
  "append_event now job attempt event_type actor details db =
     db\<lparr>events := events db @
          [\<lparr>e_id = event_seq db + 1, e_ts = now, e_job = job, e_attempt = attempt,
            e_type = event_type, e_actor = actor, e_details = details\<rparr>],
        event_seq := event_seq db + 1\<rparr>"

definition latest_event_id :: "database \<Rightarrow> int" where
  "latest_event_id db = (if events db = [] then 0 else Max (e_id ` set (events db)))"

record event_info =
  ei_id :: int
  ei_timestamp :: millis
  ei_job_id :: "job_id option"
  ei_job_name :: "string option"
  ei_attempt_id :: "attempt_id option"
  ei_attempt_number :: "int option"
  ei_event_type :: string

definition event_from_row :: "database \<Rightarrow> event_row \<Rightarrow> event_info" where
  "event_from_row db e =
     \<lparr>ei_id = e_id e, ei_timestamp = e_ts e, ei_job_id = e_job e,
      ei_job_name = map_option (\<lambda>j. chars_take 80 (j_name j)) (Option.bind (e_job e) (job_row db)),
      ei_attempt_id = e_attempt e,
      ei_attempt_number = map_option a_number (Option.bind (e_attempt e) (attempt_row db)),
      ei_event_type = e_type e\<rparr>"

definition events_after :: "database \<Rightarrow> int \<Rightarrow> nat \<Rightarrow> event_info list" where
  "events_after db aft limit =
     map (event_from_row db) (take limit (filter (\<lambda>e. e_id e > aft) (events db)))"

definition job_events_after :: "database \<Rightarrow> job_id \<Rightarrow> int \<Rightarrow> nat \<Rightarrow> event_info list" where
  "job_events_after db job aft limit =
     map (event_from_row db)
       (take limit (filter (\<lambda>e. e_job e = Some job \<and> e_id e > aft) (events db)))"

section \<open>Jobs\<close>

text \<open>The derived column of \<open>JOB_COLUMNS\<close>.\<close>

definition yield_count :: "database \<Rightarrow> job_id \<Rightarrow> int" where
  "yield_count db i =
     int (length (filter (\<lambda>a. a_job a = i \<and> a_state a = A_Yielded) (attempts db)))"

definition set_job_context :: "job_id \<Rightarrow> job_context option \<Rightarrow> database \<Rightarrow> database" where
  "set_job_context i context = update_job i (\<lambda>j. j\<lparr>j_context := Some context\<rparr>)"

text \<open>\<open>discover\<close> reads the file system and is the parameter of the backfill.\<close>

definition backfill_job_context ::
  "(string \<Rightarrow> job_context option) \<Rightarrow> database \<Rightarrow> database" where
  "backfill_job_context discover db =
     fold (\<lambda>cwd db. db\<lparr>jobs := update_where (\<lambda>j. j_cwd j = cwd \<and> j_context j = None)
                          (\<lambda>j. j\<lparr>j_context := Some (discover cwd)\<rparr>) (jobs db)\<rparr>)
       (remdups (map j_cwd (filter (\<lambda>j. j_context j = None) (jobs db)))) db"

definition latest_job_id :: "database \<Rightarrow> job_id option" where
  "latest_job_id db = (if jobs db = [] then None else Some (Max (j_id ` set (jobs db))))"

definition finished_later :: "job_record \<Rightarrow> job_record \<Rightarrow> bool" where
  "finished_later a b \<longleftrightarrow>
     (case (j_finished_at a, j_finished_at b) of
        (Some x, Some y) \<Rightarrow> x > y \<or> (x = y \<and> j_id a > j_id b)
      | _ \<Rightarrow> False)"

definition status_jobs :: "database \<Rightarrow> nat \<Rightarrow> job_record list" where
  "status_jobs db recent_terminal =
     (let recent = take recent_terminal
            (order_by finished_later (filter (\<lambda>j. j_finished_at j \<noteq> None) (jobs db)))
      in filter (\<lambda>j. j_finished_at j = None \<or> j_id j \<in> j_id ` set recent) (jobs db))"

definition update_job_state ::
  "job_id \<Rightarrow> job_state \<Rightarrow> string option \<Rightarrow> millis \<Rightarrow> database \<Rightarrow> database" where
  "update_job_state i state reason now =
     update_job i (\<lambda>j. j\<lparr>j_state := state, j_state_reason := reason, j_updated_at := now,
       j_finished_at := (if job_state_is_terminal state then Some now else None)\<rparr>)"

definition set_job_retry_not_before ::
  "job_id \<Rightarrow> millis option \<Rightarrow> millis \<Rightarrow> database \<Rightarrow> database" where
  "set_job_retry_not_before i at now =
     update_job i (\<lambda>j. j\<lparr>j_retry_not_before := at, j_updated_at := now\<rparr>)"

definition clear_job_readiness :: "job_id \<Rightarrow> millis \<Rightarrow> database \<Rightarrow> database" where
  "clear_job_readiness i now = update_job i (\<lambda>j. j\<lparr>j_ready_seq := None, j_updated_at := now\<rparr>)"

definition set_job_max_parallel_runs ::
  "job_id \<Rightarrow> nat \<Rightarrow> millis \<Rightarrow> database \<Rightarrow> string + database" where
  "set_job_max_parallel_runs i v now db =
     bindE (ensure (v \<ge> 1) ''CHECK constraint failed: max_parallel_runs >= 1'') (\<lambda>_.
       Inr (update_job i (\<lambda>j. j\<lparr>j_max_parallel_runs := v, j_updated_at := now\<rparr>) db))"

definition set_job_priority :: "job_id \<Rightarrow> int \<Rightarrow> millis \<Rightarrow> database \<Rightarrow> database" where
  "set_job_priority i v now = update_job i (\<lambda>j. j\<lparr>j_priority := v, j_updated_at := now\<rparr>)"

definition set_job_time_limit ::
  "job_id \<Rightarrow> int option \<Rightarrow> millis \<Rightarrow> database \<Rightarrow> string + database" where
  "set_job_time_limit i v now db =
     bindE (ensure (case v of None \<Rightarrow> True | Some l \<Rightarrow> l > 0)
              ''timeLimitMs must be a positive integer'') (\<lambda>_.
       Inr (update_job i (\<lambda>j. j\<lparr>j_time_limit_ms := v, j_time_limit_set_at := Some now,
              j_updated_at := now\<rparr>) db))"

definition attempt_live :: "attempt_state \<Rightarrow> bool" where
  "attempt_live s \<longleftrightarrow>
     s \<in> {A_Prepared, A_Authorized, A_Running, A_Orphaned, A_Quarantined}"

definition set_active_attempt_max_parallel_runs ::
  "attempt_id \<Rightarrow> nat \<Rightarrow> database \<Rightarrow> string + database" where
  "set_active_attempt_max_parallel_runs a v db =
     bindE (ensure (v > 0) ''maxParallelRuns must be positive'') (\<lambda>_.
     bindE (ensure
         ((\<exists>r\<in>set (attempts db). a_id r = a \<and> attempt_live (a_state r)) \<and>
          (\<exists>l\<in>set (run_leases db). l_attempt l = a \<and> l_released_at l = None))
         (''attempt '' @ show_int a @ '' is not live with an active run lease'')) (\<lambda>_.
       Inr (update_lease a (\<lambda>l. l\<lparr>l_max_parallel_runs := v\<rparr>)
         (db\<lparr>attempts := update_where (\<lambda>r. a_id r = a \<and> attempt_live (a_state r))
            (\<lambda>r. r\<lparr>a_max_parallel_runs := v\<rparr>) (attempts db)\<rparr>))))"

definition max_job_seq :: "database \<Rightarrow> int" where
  "max_job_seq db = job_seq db"

definition max_ready_seq :: "database \<Rightarrow> int" where
  "max_ready_seq db = ready_sequence db"

definition assign_next_ready_seq :: "job_id \<Rightarrow> millis \<Rightarrow> database \<Rightarrow> int \<times> database" where
  "assign_next_ready_seq i now db =
     (let db1 = db\<lparr>ready_sequence := ready_sequence db + 1\<rparr>;
          seq = max_ready_seq db1
      in (seq, update_job i (\<lambda>j. if j_ready_seq j = None
                then j\<lparr>j_ready_seq := Some seq, j_updated_at := now\<rparr> else j) db1))"

definition count_jobs_in_state :: "database \<Rightarrow> job_state \<Rightarrow> nat" where
  "count_jobs_in_state db s = length (filter (\<lambda>j. j_state j = s) (jobs db))"

definition bounded_job_names_in_state ::
  "database \<Rightarrow> job_state \<Rightarrow> nat \<Rightarrow> nat \<Rightarrow> (job_id \<times> string) list" where
  "bounded_job_names_in_state db s name_chars limit =
     map (\<lambda>j. (j_id j, chars_take name_chars (j_name j)))
       (take limit (filter (\<lambda>j. j_state j = s) (jobs db)))"

text \<open>Submission: the job row, then one row per prerequisite after collapsing duplicates.\<close>

definition collapse_step ::
  "dependency_spec \<Rightarrow> (job_id \<times> dependency_condition) list \<Rightarrow> (job_id \<times> dependency_condition) list"
  where
  "collapse_step d m =
     (case map_of m (ds_job d) of
        None \<Rightarrow> btree_insert (<) (ds_job d) (ds_condition d) m
      | Some c \<Rightarrow>
          btree_insert (<) (ds_job d) (if ds_condition d = Dep_Succeeded then Dep_Succeeded else c) m)"

definition collapse_dependencies ::
  "dependency_spec list \<Rightarrow> (job_id \<times> dependency_condition) list" where
  "collapse_dependencies deps = fold collapse_step deps []"

definition insert_dependency ::
  "job_id \<Rightarrow> job_id \<times> dependency_condition \<Rightarrow> database \<Rightarrow> string + database" where
  "insert_dependency child pc db =
     bindE (ensure (fst pc < child) ''CHECK constraint failed: parent_id < child_id'') (\<lambda>_.
     bindE (ensure (job_row db (fst pc) \<noteq> None) ''FOREIGN KEY constraint failed'') (\<lambda>_.
       Inr (db\<lparr>dependencies := dependencies db @
         [\<lparr>d_parent = fst pc, d_child = child, d_condition = snd pc, d_resolution = None,
           d_parent_outcome = None, d_resolved_at = None\<rparr>]\<rparr>)))"

definition new_job_row :: "job_id \<Rightarrow> submit_params \<Rightarrow> int \<Rightarrow> int option \<Rightarrow> millis \<Rightarrow> job_record" where
  "new_job_row i p retry_delay time_limit now =
     \<lparr>j_id = i, j_name = sp_name p, j_state = J_Queued, j_cwd = sp_cwd p, j_context = None,
      j_args = sp_args p, j_env = sp_env p, j_max_parallel_runs = sp_max_parallel_runs p,
      j_priority = sp_priority p, j_max_attempts = int (sp_max_attempts p),
      j_retry_delay_ms = retry_delay, j_time_limit_ms = time_limit, j_time_limit_set_at = None,
      j_retry_not_before = None, j_ready_seq = None, j_attempt_count = 0,
      j_yield_policy = sp_yield_policy p, j_state_reason = None, j_created_at = now,
      j_updated_at = now, j_finished_at = None\<rparr>"

definition out_of_range :: string where
  "out_of_range = ''out of range integral type conversion attempted''"

definition insert_job :: "submit_params \<Rightarrow> millis \<Rightarrow> database \<Rightarrow> string + (job_id \<times> database)" where
  "insert_job p now db =
     bindE (ok_or out_of_range (i64_try_from (sp_retry_delay_ms p))) (\<lambda>retry_delay.
     bindE (case sp_time_limit_ms p of
              None \<Rightarrow> Inr None
            | Some l \<Rightarrow> bindE (ok_or out_of_range (i64_try_from l)) (\<lambda>l. Inr (Some l))) (\<lambda>time_limit.
     bindE (ensure (sp_max_parallel_runs p \<ge> 1)
              ''CHECK constraint failed: max_parallel_runs >= 1'') (\<lambda>_.
     bindE (ensure (case time_limit of None \<Rightarrow> True | Some l \<Rightarrow> l > 0)
              ''CHECK constraint failed: time_limit_ms IS NULL OR time_limit_ms > 0'') (\<lambda>_.
     let i = job_seq db + 1;
         db1 = db\<lparr>jobs := jobs db @ [new_job_row i p retry_delay time_limit now], job_seq := i\<rparr>;
         deps = collapse_dependencies (sp_dependencies p)
     in bindE (foldE (insert_dependency i) deps db1) (\<lambda>db2.
          Inr (i, if deps = [] then snd (assign_next_ready_seq i now db2) else db2))))))"

section \<open>Dependencies and readiness\<close>

record dependency_info =
  di_parent_id :: job_id
  di_child_id :: job_id
  di_condition :: dependency_condition
  di_parent_state :: job_state
  di_resolution :: "dependency_resolution option"
  di_parent_outcome :: "job_state option"
  di_resolved_at :: "millis option"

definition dependencies_of :: "database \<Rightarrow> job_id \<Rightarrow> dependency_info list" where
  "dependencies_of db child =
     List.map_filter (\<lambda>d. map_option (\<lambda>p.
         \<lparr>di_parent_id = d_parent d, di_child_id = d_child d, di_condition = d_condition d,
          di_parent_state = j_state p, di_resolution = d_resolution d,
          di_parent_outcome = d_parent_outcome d, di_resolved_at = d_resolved_at d\<rparr>)
       (job_row db (d_parent d)))
     (order_by (\<lambda>a b. d_parent a < d_parent b) (filter (\<lambda>d. d_child d = child) (dependencies db)))"

definition unresolved_dependency_parents :: "database \<Rightarrow> job_id \<Rightarrow> job_id list" where
  "unresolved_dependency_parents db child =
     order_by (<) (map d_parent
       (filter (\<lambda>d. d_child d = child \<and> d_resolution d = None) (dependencies db)))"

definition pair_before :: "int \<times> int \<Rightarrow> int \<times> int \<Rightarrow> bool" where
  "pair_before a b \<longleftrightarrow> fst a < fst b \<or> (fst a = fst b \<and> snd a < snd b)"

definition job_state_of :: "database \<Rightarrow> job_id \<Rightarrow> job_state option" where
  "job_state_of db i = map_option j_state (job_row db i)"

definition waiting_state :: "job_state \<Rightarrow> bool" where
  "waiting_state s \<longleftrightarrow> s = J_Queued \<or> s = J_Held"

definition unresolved_finished ::
  "database \<Rightarrow> (job_id \<times> job_id \<times> dependency_condition \<times> job_state) list" where
  "unresolved_finished db =
     List.map_filter (\<lambda>d.
         case job_state_of db (d_parent d) of
           None \<Rightarrow> None
         | Some s \<Rightarrow> if job_state_is_terminal s
                     then Some (d_parent d, d_child d, d_condition d, s) else None)
       (order_by (\<lambda>a b. pair_before (d_parent a, d_child a) (d_parent b, d_child b))
          (filter (\<lambda>d. d_resolution d = None) (dependencies db)))"

definition resolution_of :: "dependency_condition \<Rightarrow> job_state \<Rightarrow> dependency_resolution" where
  "resolution_of condition outcome =
     (if condition = Dep_Terminal \<or> outcome = J_Succeeded then Dep_Satisfied else Dep_Violated)"

definition latch_edge ::
  "millis \<Rightarrow> job_id \<times> job_id \<times> dependency_condition \<times> job_state \<Rightarrow> database \<Rightarrow> database" where
  "latch_edge now e db =
     (case e of (parent, child, condition, outcome) \<Rightarrow>
        db\<lparr>dependencies := update_where
             (\<lambda>d. d_parent d = parent \<and> d_child d = child \<and> d_resolution d = None)
             (\<lambda>d. d\<lparr>d_resolution := Some (resolution_of condition outcome),
                    d_parent_outcome := Some outcome, d_resolved_at := Some now\<rparr>)
             (dependencies db)\<rparr>)"

definition violated_waiting :: "database \<Rightarrow> (job_id \<times> job_id) list" where
  "violated_waiting db =
     order_by pair_before (map (\<lambda>d. (d_child d, d_parent d))
       (filter (\<lambda>d. d_resolution d = Some Dep_Violated \<and>
                    (case job_state_of db (d_child d) of None \<Rightarrow> False | Some s \<Rightarrow> waiting_state s))
         (dependencies db)))"

definition group_by_child :: "(job_id \<times> job_id) list \<Rightarrow> (job_id \<times> job_id list) list" where
  "group_by_child pairs =
     fold (\<lambda>(child, parent) m.
         btree_insert (<) child ((case map_of m child of None \<Rightarrow> [] | Some ps \<Rightarrow> ps) @ [parent]) m)
       pairs []"

definition skip_child :: "millis \<Rightarrow> job_id \<times> job_id list \<Rightarrow> database \<Rightarrow> database" where
  "skip_child now cp db =
     (let (child, parents) = cp;
          reason = ''prerequisite jobs '' @ show_int_list parents @
                   '' did not satisfy required outcomes''
      in append_event now (Some child) None ''job_skipped'' ''daemon''
           (Some (JObj [(''failedPrerequisites'', JArr (map JInt parents))]))
           (clear_job_readiness child now (update_job_state child J_Skipped (Some reason) now db)))"

definition latch_outcomes :: "millis \<Rightarrow> database \<Rightarrow> database" where
  "latch_outcomes now db = fold (latch_edge now) (unresolved_finished db) db"

definition skip_violated :: "millis \<Rightarrow> database \<Rightarrow> database" where
  "skip_violated now db = fold (skip_child now) (group_by_child (violated_waiting db)) db"

text \<open>
  Termination of the \<open>loop\<close>: a round that finds a violated prerequisite of a waiting job
  moves that job out of the waiting states, and nothing in the loop moves a job into them.
\<close>

definition job_states :: "database \<Rightarrow> (job_id \<times> job_state) list" where
  "job_states db = map (\<lambda>j. (j_id j, j_state j)) (jobs db)"

definition waiting_count :: "database \<Rightarrow> nat" where
  "waiting_count db = length (filter (\<lambda>(i, s). waiting_state s) (job_states db))"

lemma append_event_frame [simp]:
  "jobs (append_event now ji ai ty ac de db) = jobs db"
  "dependencies (append_event now ji ai ty ac de db) = dependencies db"
  "attempts (append_event now ji ai ty ac de db) = attempts db"
  "run_leases (append_event now ji ai ty ac de db) = run_leases db"
  "reservations (append_event now ji ai ty ac de db) = reservations db"
  "backfills (append_event now ji ai ty ac de db) = backfills db"
  "operations (append_event now ji ai ty ac de db) = operations db"
  "job_seq (append_event now ji ai ty ac de db) = job_seq db"
  "attempt_seq (append_event now ji ai ty ac de db) = attempt_seq db"
  "reservation_seq (append_event now ji ai ty ac de db) = reservation_seq db"
  "ready_sequence (append_event now ji ai ty ac de db) = ready_sequence db"
  "db_paused (append_event now ji ai ty ac de db) = db_paused db"
  by (simp_all add: append_event_def)

lemma jobs_latch_edge [simp]: "jobs (latch_edge now e db) = jobs db"
  by (simp add: latch_edge_def split: prod.splits)

lemma jobs_latch_outcomes [simp]: "jobs (latch_outcomes now db) = jobs db"
proof -
  have "jobs (fold (latch_edge now) es db) = jobs db" for es
    by (induction es arbitrary: db) simp_all
  then show ?thesis by (simp add: latch_outcomes_def)
qed

lemma job_states_skip_child:
  "job_states (skip_child now cp db) =
     map (\<lambda>(i, s). (i, if i = fst cp then J_Skipped else s)) (job_states db)"
  by (simp add: job_states_def skip_child_def clear_job_readiness_def update_job_state_def
      job_table.rows_update split: prod.splits)

lemma job_states_skip_children:
  "job_states (fold (skip_child now) cps db) =
     map (\<lambda>(i, s). (i, if i \<in> fst ` set cps then J_Skipped else s)) (job_states db)"
proof (induction cps arbitrary: db)
  case Nil
  show ?case by (simp add: case_prod_unfold)
next
  case (Cons cp cps)
  show ?case by (auto simp: Cons job_states_skip_child)
qed

lemma keys_group_by_child: "fst ` set (group_by_child pairs) = fst ` set pairs"
proof -
  have "fst ` set (fold (\<lambda>(child, parent) m. btree_insert (<) child
        ((case map_of m child of None \<Rightarrow> [] | Some ps \<Rightarrow> ps) @ [parent]) m) pairs m0) =
      fst ` set m0 \<union> fst ` set pairs" for m0
  proof (induction pairs arbitrary: m0)
    case (Cons cp pairs)
    show ?case by (simp add: Cons set_fst_btree_insert split: prod.splits)
  qed simp
  then show ?thesis by (simp add: group_by_child_def)
qed

lemma violated_waiting_child:
  assumes "(c, p) \<in> set (violated_waiting db)"
  shows "\<exists>s. (c, s) \<in> set (job_states db) \<and> waiting_state s"
  using assms
  by (force simp: violated_waiting_def job_state_of_def job_states_def
      dest: job_table.lookup_Some split: option.splits)

lemma skip_violated_decreases:
  assumes "violated_waiting db \<noteq> []"
  shows "waiting_count (skip_violated now db) < waiting_count db"
proof -
  let ?cs = "fst ` set (violated_waiting db)"
  obtain c p where cp: "(c, p) \<in> set (violated_waiting db)"
    using assms by (metis list.set_intros(1) neq_Nil_conv surj_pair)
  then obtain s where cs: "(c, s) \<in> set (job_states db)" and s: "waiting_state s"
    using violated_waiting_child by blast
  have "waiting_count (skip_violated now db) =
      length (filter (\<lambda>(i, s). waiting_state s \<and> i \<notin> ?cs) (job_states db))"
    by (simp add: waiting_count_def skip_violated_def job_states_skip_children keys_group_by_child
        filter_map o_def case_prod_unfold waiting_state_def)
      (auto intro!: arg_cong [of _ _ length] filter_cong)
  also have "\<dots> < waiting_count db"
    unfolding waiting_count_def using cp cs s
    by (intro filter_length_less [where y = "(c, s)"]) (auto simp: rev_image_eqI)
  finally show ?thesis .
qed

function advance_loop :: "millis \<Rightarrow> database \<Rightarrow> database" where
  "advance_loop now db =
     (let db1 = latch_outcomes now db
      in if violated_waiting db1 = [] then db1
         else advance_loop now (skip_violated now db1))"
  by pat_completeness auto
termination
proof (relation "measure (\<lambda>(now, db). waiting_count db)")
  fix now db db1
  assume "db1 = latch_outcomes now db" and "violated_waiting db1 \<noteq> []"
  then show "((now, skip_violated now db1), now, db) \<in> measure (\<lambda>(now, db). waiting_count db)"
    using skip_violated_decreases [of db1 now]
    by (simp add: waiting_count_def job_states_def)
qed simp

declare advance_loop.simps [simp del]

definition newly_ready :: "millis \<Rightarrow> database \<Rightarrow> job_id list" where
  "newly_ready now db =
     map j_id (filter (\<lambda>j. waiting_state (j_state j) \<and> j_ready_seq j = None \<and>
         (case j_retry_not_before j of None \<Rightarrow> True | Some t \<Rightarrow> t \<le> now) \<and>
         (\<forall>d\<in>set (dependencies db). d_child d = j_id j \<longrightarrow> d_resolution d = Some Dep_Satisfied))
       (jobs db))"

definition make_ready :: "millis \<Rightarrow> job_id \<Rightarrow> database \<Rightarrow> database" where
  "make_ready now i db =
     (let (seq, db1) = assign_next_ready_seq i now db
      in append_event now (Some i) None ''job_ready'' ''daemon''
           (Some (JObj [(''readySequence'', JInt seq)])) db1)"

definition advance_dependency_graph :: "millis \<Rightarrow> database \<Rightarrow> database" where
  "advance_dependency_graph now db =
     (let db1 = advance_loop now db
      in fold (make_ready now) (newly_ready now db1) db1)"

definition candidate_before :: "candidate \<Rightarrow> candidate \<Rightarrow> bool" where
  "candidate_before a b \<longleftrightarrow>
     cand_priority a > cand_priority b \<or>
     (cand_priority a = cand_priority b \<and> cand_ready_seq a < cand_ready_seq b)"

definition eligible_candidates :: "database \<Rightarrow> millis \<Rightarrow> candidate list" where
  "eligible_candidates db now =
     order_by candidate_before
       (List.map_filter (\<lambda>j.
          case j_ready_seq j of
            None \<Rightarrow> None
          | Some seq \<Rightarrow>
              if j_state j = J_Queued \<and>
                 (case j_retry_not_before j of None \<Rightarrow> True | Some t \<Rightarrow> t \<le> now)
              then Some \<lparr>cand_job = j_id j, cand_ready_seq = seq,
                     cand_limit = j_max_parallel_runs j, cand_priority = j_priority j\<rparr>
              else None) (jobs db))"

section \<open>Attempts and leases\<close>

definition create_attempt_with_lease ::
  "job_record \<Rightarrow> string \<Rightarrow> millis \<Rightarrow> database \<Rightarrow> string + (attempt_record \<times> database)" where
  "create_attempt_with_lease job launch_token now db =
     (let number = j_attempt_count job + 1;
          aid = attempt_seq db + 1;
          row = \<lparr>a_id = aid, a_job = j_id job, a_number = number, a_state = A_Prepared,
            a_launch_token = launch_token, a_max_parallel_runs = j_max_parallel_runs job,
            a_runner_pid = None, a_runner_start_time = None, a_runner_boot_id = None,
            a_cmd_pid = None, a_cmd_pgid = None, a_cmd_start_time = None,
            a_command_started_at = None, a_exit_code = None, a_term_signal = None,
            a_cancel_requested = False, a_cancel_force = False, a_cancel_requested_at = None,
            a_message = None, a_created_at = now, a_authorized_at = None, a_running_at = None,
            a_finished_at = None, a_timed_out_at = None, a_yield_requested_at = None,
            a_yield_hold = False, a_yield_reason = None, a_yield_delivered_at = None\<rparr>
      in bindE (ensure (\<not> list_ex (\<lambda>a. a_job a = j_id job \<and> a_number a = number) (attempts db))
                 ''UNIQUE constraint failed: attempts.job_id, attempts.number'') (\<lambda>_.
         Inr (row,
           update_job (j_id job) (\<lambda>j. j\<lparr>j_state := J_Starting, j_attempt_count := number,
               j_updated_at := now, j_state_reason := None\<rparr>)
             (db\<lparr>attempts := attempts db @ [row], attempt_seq := aid,
                 run_leases := run_leases db @
                   [\<lparr>l_attempt = aid, l_job = j_id job,
                     l_max_parallel_runs = j_max_parallel_runs job, l_acquired_at = now,
                     l_released_at = None\<rparr>]\<rparr>))))"

definition attempt_by_number :: "database \<Rightarrow> job_id \<Rightarrow> int \<Rightarrow> attempt_record option" where
  "attempt_by_number db job number =
     List.find (\<lambda>a. a_job a = job \<and> a_number a = number) (attempts db)"

definition attempts_for_job :: "database \<Rightarrow> job_id \<Rightarrow> attempt_record list" where
  "attempts_for_job db job =
     order_by (\<lambda>a b. a_number a < a_number b) (filter (\<lambda>a. a_job a = job) (attempts db))"

definition live_attempt_for_job :: "database \<Rightarrow> job_id \<Rightarrow> attempt_record option" where
  "live_attempt_for_job db job =
     (case order_by (\<lambda>a b. a_number a > a_number b)
             (filter (\<lambda>a. a_job a = job \<and> attempt_live (a_state a)) (attempts db)) of
        [] \<Rightarrow> None
      | a # _ \<Rightarrow> Some a)"

definition non_terminal_attempts :: "database \<Rightarrow> attempt_record list" where
  "non_terminal_attempts db = filter (\<lambda>a. attempt_live (a_state a)) (attempts db)"

text \<open>Lease rows are created with their attempts, so list order is \<open>ORDER BY attempt_id\<close>.\<close>

definition active_leases :: "database \<Rightarrow> (attempt_id \<times> active_lease) list" where
  "active_leases db =
     map (\<lambda>l. (l_attempt l, \<lparr>lease_job = l_job l, lease_limit = l_max_parallel_runs l\<rparr>))
       (filter (\<lambda>l. l_released_at l = None) (run_leases db))"

definition release_lease :: "attempt_id \<Rightarrow> millis \<Rightarrow> database \<Rightarrow> database" where
  "release_lease a now = update_lease a (\<lambda>l. l\<lparr>l_released_at := Some now\<rparr>)"

definition set_attempt_runner_identity ::
  "attempt_id \<Rightarrow> int \<Rightarrow> int \<Rightarrow> string \<Rightarrow> database \<Rightarrow> database" where
  "set_attempt_runner_identity a pid start_time boot_id =
     update_attempt a (\<lambda>r. r\<lparr>a_runner_pid := Some pid, a_runner_start_time := Some start_time,
       a_runner_boot_id := Some boot_id\<rparr>)"

definition set_attempt_authorized :: "attempt_id \<Rightarrow> millis \<Rightarrow> database \<Rightarrow> database" where
  "set_attempt_authorized a now =
     update_attempt a (\<lambda>r. r\<lparr>a_state := A_Authorized, a_authorized_at := Some now\<rparr>)"

definition set_attempt_running ::
  "attempt_id \<Rightarrow> int \<Rightarrow> int \<Rightarrow> int \<Rightarrow> millis \<Rightarrow> millis \<Rightarrow> database \<Rightarrow> database" where
  "set_attempt_running a cmd_pid cmd_pgid cmd_start_time command_started_at now =
     update_attempt a (\<lambda>r. r\<lparr>a_state := A_Running, a_cmd_pid := Some cmd_pid,
       a_cmd_pgid := Some cmd_pgid, a_cmd_start_time := Some cmd_start_time,
       a_command_started_at := Some command_started_at, a_running_at := Some now\<rparr>)"

text \<open>\<open>COALESCE\<close> of two nullable columns.\<close>

definition coalesce :: "'a option \<Rightarrow> 'a option \<Rightarrow> 'a option" where
  "coalesce a b = (case a of None \<Rightarrow> b | Some _ \<Rightarrow> a)"

definition set_attempt_timed_out :: "attempt_id \<Rightarrow> millis \<Rightarrow> database \<Rightarrow> database" where
  "set_attempt_timed_out a deadline =
     update_attempt a (\<lambda>r. r\<lparr>a_timed_out_at := coalesce (a_timed_out_at r) (Some deadline)\<rparr>)"

definition set_attempt_state ::
  "attempt_id \<Rightarrow> attempt_state \<Rightarrow> string option \<Rightarrow> database \<Rightarrow> database" where
  "set_attempt_state a state message =
     update_attempt a (\<lambda>r. r\<lparr>a_state := state, a_message := coalesce message (a_message r)\<rparr>)"

definition finalize_attempt ::
  "attempt_id \<Rightarrow> attempt_state \<Rightarrow> int option \<Rightarrow> int option \<Rightarrow> string option \<Rightarrow> millis \<Rightarrow>
     database \<Rightarrow> database" where
  "finalize_attempt a state exit_code term_signal message now =
     update_attempt a (\<lambda>r. r\<lparr>a_state := state, a_exit_code := exit_code,
       a_term_signal := term_signal, a_message := coalesce message (a_message r),
       a_finished_at := Some now\<rparr>)"

definition set_attempt_yield_requested ::
  "attempt_id \<Rightarrow> string \<Rightarrow> bool \<Rightarrow> millis \<Rightarrow> database \<Rightarrow> database" where
  "set_attempt_yield_requested a reason hold now =
     update_attempt a (\<lambda>r. if a_yield_requested_at r = None
       then r\<lparr>a_yield_requested_at := Some now, a_yield_reason := Some reason, a_yield_hold := hold\<rparr>
       else r)"

definition set_attempt_yield_delivered :: "attempt_id \<Rightarrow> millis \<Rightarrow> database \<Rightarrow> database" where
  "set_attempt_yield_delivered a at =
     update_attempt a (\<lambda>r. r\<lparr>a_yield_delivered_at := coalesce (a_yield_delivered_at r) (Some at)\<rparr>)"

definition set_attempt_cancel_requested ::
  "attempt_id \<Rightarrow> bool \<Rightarrow> millis \<Rightarrow> database \<Rightarrow> database" where
  "set_attempt_cancel_requested a force now =
     update_attempt a (\<lambda>r. r\<lparr>a_cancel_requested := True, a_cancel_force := a_cancel_force r \<or> force,
       a_cancel_requested_at := coalesce (a_cancel_requested_at r) (Some now)\<rparr>)"

section \<open>Reservation\<close>

definition RESERVATION_CUTOFF_UNFROZEN :: int where
  "RESERVATION_CUTOFF_UNFROZEN = 0"

text \<open>The row of \<open>active_reservation\<close> with the bypasses consumed against it.\<close>

record reservation_info =
  ri_id :: int
  ri_job_id :: job_id
  ri_cutoff_seq :: int
  ri_semantics_version :: int
  ri_created_at :: millis
  ri_initial_blockers :: "attempt_id list"
  ri_consumed :: "job_id set"

definition active_reservation :: "database \<Rightarrow> reservation_info option" where
  "active_reservation db =
     map_option (\<lambda>r.
         \<lparr>ri_id = r_id r, ri_job_id = r_job r, ri_cutoff_seq = r_cutoff_seq r,
          ri_semantics_version = r_semantics_version r, ri_created_at = r_created_at r,
          ri_initial_blockers = r_initial_blockers r,
          ri_consumed = set (map b_job (filter (\<lambda>b. b_reservation b = r_id r) (backfills db)))\<rparr>)
       (List.find (\<lambda>r. r_status r = Res_Active) (reservations db))"

definition create_reservation ::
  "job_id \<Rightarrow> int \<Rightarrow> attempt_id list \<Rightarrow> millis \<Rightarrow> database \<Rightarrow> string + (int \<times> database)" where
  "create_reservation job semantics_version initial_blockers now db =
     (let rid = reservation_seq db + 1 in
      bindE (ensure (\<not> list_ex (\<lambda>r. r_status r = Res_Active) (reservations db))
               ''UNIQUE constraint failed: scheduler_reservation.status'') (\<lambda>_.
        Inr (rid, db\<lparr>reservations := reservations db @
          [\<lparr>r_id = rid, r_job = job, r_cutoff_seq = RESERVATION_CUTOFF_UNFROZEN,
            r_semantics_version = semantics_version, r_status = Res_Active, r_reason = None,
            r_initial_blockers = initial_blockers, r_created_at = now, r_resolved_at = None\<rparr>],
          reservation_seq := rid\<rparr>)))"

definition freeze_reservation_cutoff :: "int \<Rightarrow> int \<Rightarrow> database \<Rightarrow> database" where
  "freeze_reservation_cutoff rid cutoff_seq db =
     db\<lparr>reservations := update_where
          (\<lambda>r. r_id r = rid \<and> r_cutoff_seq r = RESERVATION_CUTOFF_UNFROZEN)
          (\<lambda>r. r\<lparr>r_cutoff_seq := cutoff_seq\<rparr>) (reservations db)\<rparr>"

datatype frontier_kind = OpenWindow | FreezePending int | Frozen int | Unsupported int

definition any_blockers_advancing :: "database \<Rightarrow> attempt_id list \<Rightarrow> bool" where
  "any_blockers_advancing db blockers \<longleftrightarrow>
     (if blockers = [] then False
      else list_ex (\<lambda>l. l_released_at l = None \<and> l_attempt l \<in> set blockers \<and>
             (case attempt_row db (l_attempt l) of
                None \<Rightarrow> False
              | Some a \<Rightarrow> a_state a \<in> {A_Prepared, A_Authorized, A_Running})) (run_leases db))"

definition backfill_frontier :: "database \<Rightarrow> reservation_info \<Rightarrow> frontier_kind" where
  "backfill_frontier db res =
     (let version = ri_semantics_version res in
      if version = 1 then Frozen (ri_cutoff_seq res)
      else if version = 2 \<or> version = 3 \<or> version = SCHEDULER_SEMANTICS_VERSION then
        (if ri_cutoff_seq res \<noteq> RESERVATION_CUTOFF_UNFROZEN then Frozen (ri_cutoff_seq res)
         else if any_blockers_advancing db (ri_initial_blockers res) then OpenWindow
         else FreezePending
           (if version = SCHEDULER_SEMANTICS_VERSION then max_ready_seq db else max_job_seq db))
      else Unsupported version)"

definition resolve_reservation ::
  "int \<Rightarrow> reservation_status \<Rightarrow> string \<Rightarrow> millis \<Rightarrow> database \<Rightarrow> database" where
  "resolve_reservation rid status reason now db =
     db\<lparr>reservations := update_where (\<lambda>r. r_id r = rid)
          (\<lambda>r. r\<lparr>r_status := status, r_reason := Some reason, r_resolved_at := Some now\<rparr>)
          (reservations db)\<rparr>"

definition record_backfill ::
  "int \<Rightarrow> job_id \<Rightarrow> string \<Rightarrow> attempt_id option \<Rightarrow> millis \<Rightarrow> database \<Rightarrow> database" where
  "record_backfill reservation job reason attempt now db =
     (if list_ex (\<lambda>b. b_reservation b = reservation \<and> b_job b = job) (backfills db) then db
      else db\<lparr>backfills := backfills db @
        [\<lparr>b_reservation = reservation, b_job = job, b_reason = reason, b_attempt = attempt,
          b_created_at = now\<rparr>]\<rparr>)"

section \<open>Pause and operations\<close>

definition is_paused :: "database \<Rightarrow> bool" where
  "is_paused db = db_paused db"

definition set_paused :: "bool \<Rightarrow> millis \<Rightarrow> database \<Rightarrow> bool \<times> database" where
  "set_paused paused now db =
     (if db_paused db \<noteq> paused then (True, db\<lparr>db_paused := paused, db_paused_at := now\<rparr>)
      else (False, db))"

definition lookup_operation :: "database \<Rightarrow> string \<Rightarrow> (string \<times> string) option" where
  "lookup_operation db key =
     map_option (\<lambda>r. (o_request_hash r, o_response r))
       (List.find (\<lambda>r. o_key r = key) (operations db))"

definition insert_operation ::
  "string \<Rightarrow> string \<Rightarrow> string \<Rightarrow> string \<Rightarrow> millis \<Rightarrow> database \<Rightarrow> string + database" where
  "insert_operation key op_type hash resp now db =
     bindE (ensure (lookup_operation db key = None) ''UNIQUE constraint failed: operations.key'')
       (\<lambda>_. Inr (db\<lparr>operations := operations db @
          [\<lparr>o_key = key, o_type = op_type, o_request_hash = hash, o_response = resp,
            o_created_at = now\<rparr>]\<rparr>))"

section \<open>Schema migrations\<close>

text \<open>
  \<open>migrate\<close>: the version guard and the ordered application of the missing migrations. What
  a migration batch does to the file is SQL text run by SQLite and is a parameter
  (\<open>apply_migration version store\<close>). Each batch is one transaction with the bump of
  \<open>user_version\<close>, so a failure leaves the migrations before it committed.
\<close>

definition MIGRATION_COUNT :: int where
  "MIGRATION_COUNT = 9"

fun apply_missing ::
  "(int \<Rightarrow> 's \<Rightarrow> string + 's) \<Rightarrow> int \<Rightarrow> int list \<Rightarrow> int \<times> 's \<Rightarrow> string option \<times> (int \<times> 's)" where
  "apply_missing apply_migration current [] vs = (None, vs)"
| "apply_missing apply_migration current (version # versions) vs =
     (if version \<le> current then apply_missing apply_migration current versions vs
      else (case apply_migration version (snd vs) of
              Inl _ \<Rightarrow> (Some (''applying migration '' @ show_int version), vs)
            | Inr s \<Rightarrow> apply_missing apply_migration current versions (version, s)))"

definition migrate ::
  "(int \<Rightarrow> 's \<Rightarrow> string + 's) \<Rightarrow> int \<times> 's \<Rightarrow> string option \<times> (int \<times> 's)" where
  "migrate apply_migration vs =
     (if fst vs \<le> MIGRATION_COUNT
      then apply_missing apply_migration (fst vs) [1..MIGRATION_COUNT] vs
      else (Some (''database schema version '' @ show_int (fst vs) @
              '' is newer than this mlqd supports ('' @ show_int MIGRATION_COUNT @
              ''); run the newer mlqd''), vs))"

section \<open>Collapsing of declared prerequisites\<close>

lemma collapse_dependencies_snoc:
  "collapse_dependencies (deps @ [d]) = collapse_step d (collapse_dependencies deps)"
  by (simp add: collapse_dependencies_def)

lemma collapse_dependencies_sorted: "sorted_wrt (<) (map fst (collapse_dependencies deps))"
proof (induction deps rule: rev_induct)
  case Nil
  show ?case by (simp add: collapse_dependencies_def)
next
  case (snoc d deps)
  then show ?case
    by (auto simp: collapse_dependencies_snoc collapse_step_def sorted_btree_insert
        split: option.splits)
qed

lemma map_of_collapse_dependencies:
  "map_of (collapse_dependencies deps) j =
     (if \<lparr>ds_job = j, ds_condition = Dep_Succeeded\<rparr> \<in> set deps then Some Dep_Succeeded
      else if \<lparr>ds_job = j, ds_condition = Dep_Terminal\<rparr> \<in> set deps then Some Dep_Terminal
      else None)"
proof (induction deps rule: rev_induct)
  case Nil
  show ?case by (simp add: collapse_dependencies_def)
next
  case (snoc d deps)
  obtain k c where d: "d = \<lparr>ds_job = k, ds_condition = c\<rparr>" by (cases d) auto
  show ?case
    using snoc collapse_dependencies_sorted [of deps]
    by (cases c) (auto simp: d collapse_dependencies_snoc collapse_step_def map_of_btree_insert
        split: option.splits if_splits)
qed

lemma collapse_dependencies_mem:
  "(j, c) \<in> set (collapse_dependencies deps) \<longleftrightarrow> map_of (collapse_dependencies deps) j = Some c"
proof -
  have "distinct (map fst (collapse_dependencies deps))"
    using collapse_dependencies_sorted strict_sorted_iff by blast
  then show ?thesis by simp
qed

text \<open>
  The canonical form behind the idempotency hash is what the submission stores. Two
  declarations of prerequisites give the same canonical list exactly when they insert the same
  edges: sorting, removing duplicates and dropping the weaker of two conditions computes the
  list of edges of \<open>insert_job\<close>.
\<close>

theorem canonical_dependencies_stored:
  "canonical_dependencies deps =
     map (\<lambda>(j, c). \<lparr>ds_job = j, ds_condition = c\<rparr>) (collapse_dependencies deps)"
proof (rule sorted_key_set_unique [where k = ds_job])
  show "sorted_wrt (<) (map ds_job (map (\<lambda>(j, c). \<lparr>ds_job = j, ds_condition = c\<rparr>)
      (collapse_dependencies deps)))"
    using collapse_dependencies_sorted [of deps] by (simp add: o_def case_prod_unfold sorted_wrt_map)
  have "d \<in> set (canonical_dependencies deps) \<longleftrightarrow>
      (ds_job d, ds_condition d) \<in> set (collapse_dependencies deps)" for d
  proof -
    obtain j c where d: "d = \<lparr>ds_job = j, ds_condition = c\<rparr>" by (cases d) auto
    show ?thesis
      by (cases c) (auto simp: d canonical_dependencies_set collapse_dependencies_mem
          map_of_collapse_dependencies)
  qed
  then show "set (canonical_dependencies deps) =
      set (map (\<lambda>(j, c). \<lparr>ds_job = j, ds_condition = c\<rparr>) (collapse_dependencies deps))"
    by (force simp: image_iff)
qed (rule canonical_dependencies_sorted)

end
