(* ===== verification/Settings.thy ===== *)
theory Settings
  imports Protocol
begin

text \<open>
  Models of \<^verbatim>\<open>src/src/paths.rs\<close> (where the daemon keeps its files) and
  \<^verbatim>\<open>src/src/config.rs\<close> (the validated configuration). The process environment is a
  function from variable names to values; the TOML parser is a parameter. Creating directories
  and tightening their permissions is in \<open>Server\<close>.
\<close>

section \<open>Paths\<close>

text \<open>\<open>Path::join\<close> on Unix: an absolute component replaces the base.\<close>

definition path_join :: "string \<Rightarrow> string \<Rightarrow> string" where
  "path_join base c =
     (if c \<noteq> [] \<and> hd c = CHR ''/'' then c
      else if base = [] then c
      else if last base = CHR ''/'' then base @ c
      else base @ ''/'' @ c)"

text \<open>
  The components of a path and \<open>Path::parent\<close>: repeated separators and \<open>.\<close> behind the first component
  do not count.
\<close>

fun split_slash :: "string \<Rightarrow> string \<Rightarrow> string list" where
  "split_slash acc [] = [acc]"
| "split_slash acc (c # cs) =
     (if c = CHR ''/'' then acc # split_slash [] cs else split_slash (acc @ [c]) cs)"

definition path_components :: "string \<Rightarrow> string list" where
  "path_components path =
     (let parts = split_slash [] path
      in (if hd parts = ''.'' then [''.''] else []) @ filter (\<lambda>part. part \<noteq> [] \<and> part \<noteq> ''.'') parts)"

definition path_parent :: "string \<Rightarrow> string option" where
  "path_parent path =
     (let parts = path_components path;
          root = (if path \<noteq> [] \<and> hd path = CHR ''/'' then ''/'' else [])
      in if parts = [] then None else Some (root @ join_with ''/'' (butlast parts)))"

record paths =
  p_runtime_dir :: string
  p_state_dir :: string
  p_config_file :: string

definition home_error :: string where
  "home_error = ''HOME is not set and no explicit mlqueue directory overrides were given''"

definition resolve_paths :: "(string \<Rightarrow> string option) \<Rightarrow> string + paths" where
  "resolve_paths env =
     (let home = ok_or home_error (env ''HOME'') in
      bindE (case env ''MLQUEUE_STATE_DIR'' of
               Some dir \<Rightarrow> Inr dir
             | None \<Rightarrow>
                 (case env ''XDG_STATE_HOME'' of
                    Some dir \<Rightarrow> if dir \<noteq> [] then Inr (path_join dir ''mlqueue'')
                                else bindE home (\<lambda>h. Inr (path_join h ''.local/state/mlqueue''))
                  | None \<Rightarrow> bindE home (\<lambda>h. Inr (path_join h ''.local/state/mlqueue'')))) (\<lambda>state_dir.
      bindE (Inr (case env ''MLQUEUE_RUNTIME_DIR'' of
               Some dir \<Rightarrow> dir
             | None \<Rightarrow>
                 (case env ''XDG_RUNTIME_DIR'' of
                    Some dir \<Rightarrow> if dir \<noteq> [] then path_join dir ''mlqueue''
                                else path_join state_dir ''runtime''
                  | None \<Rightarrow> path_join state_dir ''runtime''))) (\<lambda>runtime_dir.
      bindE (case env ''MLQUEUE_CONFIG_FILE'' of
               Some f \<Rightarrow> Inr f
             | None \<Rightarrow>
                 (case env ''XDG_CONFIG_HOME'' of
                    Some dir \<Rightarrow> if dir \<noteq> [] then Inr (path_join dir ''mlqueue/config.toml'')
                                else bindE home (\<lambda>h. Inr (path_join h ''.config/mlqueue/config.toml''))
                  | None \<Rightarrow> bindE home (\<lambda>h. Inr (path_join h ''.config/mlqueue/config.toml'')))) (\<lambda>config_file.
        Inr \<lparr>p_runtime_dir = runtime_dir, p_state_dir = state_dir, p_config_file = config_file\<rparr>))))"

definition socket_path :: "paths \<Rightarrow> string" where
  "socket_path p = path_join (p_runtime_dir p) ''mlqd.sock''"

definition db_path :: "paths \<Rightarrow> string" where
  "db_path p = path_join (p_state_dir p) ''mlqueue.db''"

definition daemon_lock_path :: "paths \<Rightarrow> string" where
  "daemon_lock_path p = path_join (p_state_dir p) ''daemon.lock''"

definition follow_tts_lock_path :: "paths \<Rightarrow> string" where
  "follow_tts_lock_path p = path_join (p_state_dir p) ''follow-tts.lock''"

definition attempts_dir :: "paths \<Rightarrow> string" where
  "attempts_dir p = path_join (p_state_dir p) ''attempts''"

definition attempt_dir_path :: "paths \<Rightarrow> attempt_id \<Rightarrow> string" where
  "attempt_dir_path p a = path_join (attempts_dir p) (show_int a)"

section \<open>Configuration\<close>

definition CONFIG_VERSION :: nat where
  "CONFIG_VERSION = 1"

record config =
  cfg_version :: nat
  cfg_cancel_grace_ms :: nat
  cfg_runner_start_wait_ms :: nat
  cfg_runner_identity_grace_ms :: nat
  cfg_runner_poll_ms :: nat
  cfg_tick_interval_ms :: nat
  cfg_max_connections :: nat
  cfg_max_frame_bytes :: nat
  cfg_idle_timeout_ms :: nat
  cfg_allow_noninteractive_yield :: bool

definition default_config :: config where
  "default_config =
     \<lparr>cfg_version = CONFIG_VERSION, cfg_cancel_grace_ms = 30000, cfg_runner_start_wait_ms = 600000,
      cfg_runner_identity_grace_ms = 15000, cfg_runner_poll_ms = 100, cfg_tick_interval_ms = 150,
      cfg_max_connections = 64, cfg_max_frame_bytes = 1048576, cfg_idle_timeout_ms = 60000,
      cfg_allow_noninteractive_yield = False\<rparr>"

datatype config_text = ConfigMissing | ConfigUnreadable string | ConfigText string

definition load_config ::
  "(string \<Rightarrow> string + config) \<Rightarrow> string \<Rightarrow> config_text \<Rightarrow> string + config" where
  "load_config parse path txt =
     bindE (case txt of
              ConfigText t \<Rightarrow> (case parse t of
                  Inl e \<Rightarrow> Inl (''parsing '' @ path @ '': '' @ e) | Inr c \<Rightarrow> Inr c)
            | ConfigMissing \<Rightarrow> Inr default_config
            | ConfigUnreadable e \<Rightarrow> Inl (''reading '' @ path @ '': '' @ e)) (\<lambda>cfg.
     bindE (ensure (cfg_version cfg = CONFIG_VERSION)
              (''unsupported config version '' @ show_nat (cfg_version cfg) @ '' in '' @ path @
               '' (supported: '' @ show_nat CONFIG_VERSION @ '')'')) (\<lambda>_.
     bindE (ensure (cfg_max_connections cfg \<noteq> 0)
              (''max_connections must be positive in '' @ path)) (\<lambda>_.
       Inr cfg)))"

end
