(* ===== verification/Views.thy ===== *)
theory Views
  imports Database Settings
begin

text \<open>
  Model of \<^verbatim>\<open>src/src/daemon/views.rs\<close>: the public views of jobs, attempts and the
  queue, and the derived explanation of why a job is not running. A view is a function of the
  database and one clock reading; it changes nothing. The \<open>unreachable!\<close> of
  \<open>eligibility_reason\<close> is its left value.
\<close>

definition TTS_NAME_LIMIT :: nat where
  "TTS_NAME_LIMIT = 80"

text \<open>The horizontal ellipsis, as UTF-8.\<close>

definition ellipsis :: string where
  "ellipsis = [CHR 0xE2, CHR 0x80, CHR 0xA6]"

definition status_group :: "job_view \<Rightarrow> nat" where
  "status_group v =
     (if jv_finished_at v \<noteq> None then 4
      else if jv_state v = ''running'' then 0
      else if jv_state v = ''starting'' then 1
      else if jv_state v = ''needs_attention'' then 2
      else 3)"

definition status_job_order :: "job_view \<Rightarrow> job_view \<Rightarrow> bool" where
  "status_job_order a b \<longleftrightarrow>
     status_group a < status_group b \<or> (status_group a = status_group b \<and> jv_id a < jv_id b)"

definition tts_name :: "string \<Rightarrow> string" where
  "tts_name name =
     (if char_count name \<le> TTS_NAME_LIMIT then name
      else chars_take (TTS_NAME_LIMIT - 1) name @ ellipsis)"

definition event_view :: "event_info \<Rightarrow> event_view" where
  "event_view e =
     \<lparr>ev_id = ei_id e, ev_timestamp = ei_timestamp e, ev_job = ei_job_id e,
      ev_job_name = map_option tts_name (ei_job_name e), ev_attempt = ei_attempt_id e,
      ev_attempt_number = ei_attempt_number e, ev_event_type = ei_event_type e\<rparr>"

definition attempt_view :: "paths \<Rightarrow> attempt_record \<Rightarrow> attempt_view" where
  "attempt_view p a =
     \<lparr>av_id = a_id a, av_job_id = a_job a, av_number = a_number a,
      av_state = attempt_state_as_str (a_state a), av_max_parallel_runs = a_max_parallel_runs a,
      av_exit_code = a_exit_code a, av_term_signal = a_term_signal a, av_message = a_message a,
      av_created_at = a_created_at a, av_finished_at = a_finished_at a,
      av_yield_requested_at = a_yield_requested_at a, av_yield_reason = a_yield_reason a,
      av_log_dir = attempt_dir_path p (a_id a)\<rparr>"

definition eligibility_reason ::
  "database \<Rightarrow> job_record \<Rightarrow> reservation_info option \<Rightarrow> millis \<Rightarrow> string + string option" where
  "eligibility_reason db job reservation now =
     (case j_state job of
        J_Held \<Rightarrow> Inr (Some ''held'')
      | J_Starting \<Rightarrow> Inr (Some ''launching'')
      | J_NeedsAttention \<Rightarrow> Inr (Some ''needs_recovery'')
      | J_Queued \<Rightarrow>
          (let parents = unresolved_dependency_parents db (j_id job) in
           if (case j_retry_not_before job of None \<Rightarrow> False | Some t \<Rightarrow> t > now) then
             Inr (Some ''waiting_for_retry_delay'')
           else if parents \<noteq> [] then
             Inr (Some (''waiting_for_dependencies: jobs '' @ show_int_list parents))
           else if is_paused db then Inr (Some ''paused'')
           else
             (case reservation of
                None \<Rightarrow> Inr (Some ''waiting_for_slot'')
              | Some res \<Rightarrow>
                  (let frontier = backfill_frontier db res;
                       protected = job_row db (ri_job_id res) in
                   if (case frontier of Unsupported _ \<Rightarrow> True | _ \<Rightarrow> False) then
                     Inr (Some ''admission_blocked'')
                   else if ri_job_id res = j_id job then Inr (Some ''protected_drain'')
                   else if (case protected of None \<Rightarrow> False | Some p \<Rightarrow> j_priority job > j_priority p) then
                     Inr (Some (''supersedes_lower_priority: job '' @ show_int (j_id (the protected)) @
                       '' (pri '' @ show_int (j_priority (the protected)) @ '')''))
                   else if (case protected of None \<Rightarrow> False | Some p \<Rightarrow> j_priority job < j_priority p) then
                     Inr (Some (''waiting_for_higher_priority: job '' @ show_int (j_id (the protected)) @
                       '' (pri '' @ show_int (j_priority (the protected)) @ '')''))
                   else if j_id job \<in> ri_consumed res then
                     Inr (Some (''backfill_bypass_consumed: job '' @ show_int (ri_job_id res)))
                   else
                     (let cut = (\<lambda>cutoff.
                        if (case j_ready_seq job of None \<Rightarrow> True | Some s \<Rightarrow> s > cutoff)
                        then ''behind_backfill_cutoff: job '' @ show_int (ri_job_id res)
                        else ''backfill_eligible: job '' @ show_int (ri_job_id res)) in
                      case frontier of
                        OpenWindow \<Rightarrow> Inr (Some (''backfill_window_open: job '' @ show_int (ri_job_id res)))
                      | Frozen cutoff \<Rightarrow> Inr (Some (cut cutoff))
                      | FreezePending cutoff \<Rightarrow> Inr (Some (cut cutoff))
                      | Unsupported _ \<Rightarrow>
                          Inl ''unsupported reservation handled before priority explanations''))))
      | _ \<Rightarrow> Inr None)"

text \<open>The \<open>as u32\<close> and \<open>as u64\<close> casts of the view.\<close>

definition as_u32 :: "int \<Rightarrow> nat" where
  "as_u32 x = nat (x mod 4294967296)"

definition as_i64 :: "nat \<Rightarrow> int" where
  "as_i64 n = (if n < 2 ^ 63 then int n else int n - 2 ^ 64)"

definition as_u64 :: "int \<Rightarrow> nat" where
  "as_u64 x = nat (x mod 18446744073709551616)"

definition dependency_view :: "dependency_info \<Rightarrow> dependency_view" where
  "dependency_view d =
     \<lparr>dv_parent = di_parent_id d, dv_condition = di_condition d,
      dv_parent_state = job_state_as_str (di_parent_state d), dv_resolution = di_resolution d,
      dv_parent_outcome = map_option job_state_as_str (di_parent_outcome d),
      dv_resolved_at = di_resolved_at d\<rparr>"

definition job_view :: "database \<Rightarrow> paths \<Rightarrow> millis \<Rightarrow> job_record \<Rightarrow> bool \<Rightarrow> string + job_view" where
  "job_view db p now job include_attempts =
     (let reservation = active_reservation db;
          atts = (if include_attempts then map (attempt_view p) (attempts_for_job db (j_id job)) else []);
          live_attempt = live_attempt_for_job db (j_id job);
          cancel_requested = (case live_attempt of
              None \<Rightarrow> None | Some a \<Rightarrow> if a_cancel_requested a then Some True else None);
          yield_request = Option.bind live_attempt (\<lambda>a.
              map_option (\<lambda>requested_at.
                \<lparr>yv_reason = (case a_yield_reason a of None \<Rightarrow> '''' | Some r \<Rightarrow> r),
                 yv_requested_at = requested_at, yv_hold = a_yield_hold a,
                 yv_delivered = (a_yield_delivered_at a \<noteq> None)\<rparr>) (a_yield_requested_at a));
          deps = (if include_attempts then map dependency_view (dependencies_of db (j_id job)) else [])
      in bindE (eligibility_reason db job reservation now) (\<lambda>eligibility.
           Inr \<lparr>jv_id = j_id job, jv_name = j_name job, jv_state = job_state_as_str (j_state job),
             jv_eligibility = eligibility, jv_state_reason = j_state_reason job,
             jv_max_parallel_runs = j_max_parallel_runs job, jv_priority = j_priority job,
             jv_cwd = j_cwd job, jv_context = Option.bind (j_context job) id, jv_args = j_args job,
             jv_max_attempts = as_u32 (j_max_attempts job),
             jv_retry_delay_ms = as_u64 (j_retry_delay_ms job),
             jv_time_limit_ms = map_option as_u64 (j_time_limit_ms job),
             jv_retry_not_before = j_retry_not_before job, jv_ready_sequence = j_ready_seq job,
             jv_attempt_count = j_attempt_count job, jv_created_at = j_created_at job,
             jv_updated_at = j_updated_at job, jv_finished_at = j_finished_at job,
             jv_dependencies = deps, jv_attempts = atts, jv_cancel_requested = cancel_requested,
             jv_yield_policy = j_yield_policy job, jv_yield_count = yield_count db (j_id job),
             jv_yield_request = yield_request\<rparr>))"

fun collectE :: "('e + 'a) list \<Rightarrow> 'e + 'a list" where
  "collectE [] = Inr []"
| "collectE (r # rs) = bindE r (\<lambda>x. bindE (collectE rs) (\<lambda>xs. Inr (x # xs)))"

definition status_view :: "database \<Rightarrow> paths \<Rightarrow> millis \<Rightarrow> bool \<Rightarrow> string + status_view" where
  "status_view db p now admission_blocked =
     (let leases = active_leases db; reservation = active_reservation db in
      bindE (collectE (map (\<lambda>job. job_view db p now job False) (status_jobs db 25))) (\<lambda>js.
        Inr \<lparr>sv_jobs = order_by status_job_order js,
          sv_active_leases = length leases mod 4294967296,
          sv_effective_limit =
            (if leases = [] then None else Some (Min (set (map (lease_limit \<circ> snd) leases)))),
          sv_reservation =
            map_option (\<lambda>res.
                let (window_open, cutoff) =
                      (case backfill_frontier db res of
                         OpenWindow \<Rightarrow> (True, None)
                       | Frozen c \<Rightarrow> (False, Some c)
                       | FreezePending c \<Rightarrow> (False, Some c)
                       | Unsupported _ \<Rightarrow> (False, None))
                in \<lparr>rv_protected_job = ri_job_id res, rv_backfill_window_open = window_open,
                    rv_backfill_cutoff = cutoff, rv_created_at = ri_created_at res,
                    rv_blocking_attempts = map fst leases,
                    rv_consumed_bypasses = sorted_list_of_set (ri_consumed res)\<rparr>) reservation,
          sv_admission_blocked = admission_blocked, sv_paused = is_paused db\<rparr>))"

definition follow_tts_snapshot :: "database \<Rightarrow> follow_tts_snapshot_view" where
  "follow_tts_snapshot db =
     \<lparr>fv_running_jobs = map (\<lambda>(i, name). \<lparr>fj_id = i, fj_name = tts_name name\<rparr>)
        (bounded_job_names_in_state db J_Running TTS_NAME_LIMIT 5),
      fv_additional_running_jobs = count_jobs_in_state db J_Running - 5,
      fv_latest_event_id = latest_event_id db\<rparr>"

end
