(* ===== verification/Identity.thy ===== *)
theory Identity
  imports Protocol
begin

text \<open>
  Model of \<^verbatim>\<open>src/src/process/identity.rs\<close>. What the kernel shows under
  \<open>/proc\<close> is a value of \<open>proc_view\<close>: the boot id file, the readable \<open>stat\<close>
  files, and the listing of the directory (each \<open>None\<close> where reading fails). All questions
  of one handler are answered by one view.
\<close>

section \<open>Parsing\<close>

fun digits_value :: "nat \<Rightarrow> string \<Rightarrow> nat option" where
  "digits_value acc [] = Some acc"
| "digits_value acc (c # cs) =
     (if 48 \<le> (of_char c :: nat) \<and> (of_char c :: nat) \<le> 57
      then digits_value (10 * acc + (of_char c - 48)) cs else None)"

text \<open>\<open>str::parse\<close> at a signed integer type with the given bounds.\<close>

definition parse_int :: "int \<Rightarrow> int \<Rightarrow> string \<Rightarrow> int option" where
  "parse_int lo hi s =
     (let (neg, ds) = (case s of
            c # cs \<Rightarrow> if c = CHR ''-'' then (True, cs) else if c = CHR ''+'' then (False, cs) else (False, s)
          | [] \<Rightarrow> (False, []))
      in if ds = [] then None
         else Option.bind (digits_value 0 ds) (\<lambda>n.
           let v = (if neg then - int n else int n)
           in if lo \<le> v \<and> v \<le> hi then Some v else None))"

definition parse_i32 :: "string \<Rightarrow> int option" where
  "parse_i32 = parse_int (- 2147483648) 2147483647"

definition parse_i64 :: "string \<Rightarrow> int option" where
  "parse_i64 = parse_int i64_min i64_max"

fun split_white :: "string list \<Rightarrow> string \<Rightarrow> string list" where
  "split_white [] acc = (if acc = [] then [] else [acc])"
| "split_white (ch # chs) acc =
     (if is_white ch then (if acc = [] then split_white chs [] else acc # split_white chs [])
      else split_white chs (acc @ ch))"

definition split_whitespace :: "string \<Rightarrow> string list" where
  "split_whitespace s = split_white (utf8_chars s) []"

text \<open>The text after the last closing parenthesis (\<open>rfind\<close> and the slice behind it).\<close>

fun after_last_paren :: "string \<Rightarrow> string option" where
  "after_last_paren [] = None"
| "after_last_paren (c # cs) =
     (case after_last_paren cs of
        Some rest \<Rightarrow> Some rest
      | None \<Rightarrow> if c = CHR '')'' then Some cs else None)"

definition nth_field :: "string list \<Rightarrow> nat \<Rightarrow> string option" where
  "nth_field fs n = (if n < length fs then Some (fs ! n) else None)"

record proc_stat_record =
  pst_pid :: int
  pst_pgrp :: int
  pst_start_time :: int
  pst_zombie :: bool

definition parse_stat :: "int \<Rightarrow> string \<Rightarrow> proc_stat_record option" where
  "parse_stat pid raw =
     Option.bind (after_last_paren raw) (\<lambda>rest.
       let fs = split_whitespace rest in
       Option.bind (nth_field fs 0) (\<lambda>state.
       Option.bind (Option.bind (nth_field fs 2) parse_i32) (\<lambda>pgrp.
       Option.bind (Option.bind (nth_field fs 19) parse_i64) (\<lambda>start_time.
         Some \<lparr>pst_pid = pid, pst_pgrp = pgrp, pst_start_time = start_time,
           pst_zombie = (state = ''Z'' \<or> state = ''X'')\<rparr>))))"

section \<open>Liveness\<close>

record proc_view =
  pv_boot_id :: "string option"
  pv_stat :: "int \<Rightarrow> string option"
  pv_entries :: "string list option"

definition boot_id :: "proc_view \<Rightarrow> string option" where
  "boot_id pv = map_option trim (pv_boot_id pv)"

definition proc_stat :: "proc_view \<Rightarrow> int \<Rightarrow> proc_stat_record option" where
  "proc_stat pv pid = Option.bind (pv_stat pv pid) (parse_stat pid)"

definition identity_alive :: "proc_view \<Rightarrow> int \<Rightarrow> int \<Rightarrow> string \<Rightarrow> bool" where
  "identity_alive pv pid start_time recorded_boot_id \<longleftrightarrow>
     boot_id pv = Some recorded_boot_id \<and>
     (case proc_stat pv pid of
        None \<Rightarrow> False
      | Some stat \<Rightarrow> pst_start_time stat = start_time \<and> \<not> pst_zombie stat)"

definition group_members :: "proc_view \<Rightarrow> int \<Rightarrow> int list" where
  "group_members pv pgid =
     (case pv_entries pv of
        None \<Rightarrow> []
      | Some entries \<Rightarrow>
          map pst_pid (filter (\<lambda>stat. pst_pgrp stat = pgid \<and> \<not> pst_zombie stat)
            (List.map_filter (proc_stat pv) (List.map_filter parse_i32 entries))))"

definition group_empty :: "proc_view \<Rightarrow> int \<Rightarrow> bool" where
  "group_empty pv pgid \<longleftrightarrow> group_members pv pgid = []"

definition group_empty_except :: "proc_view \<Rightarrow> int \<Rightarrow> int \<Rightarrow> bool" where
  "group_empty_except pv pgid excluded_pid \<longleftrightarrow> list_all (\<lambda>pid. pid = excluded_pid) (group_members pv pgid)"

definition group_possibly_alive :: "proc_view \<Rightarrow> int \<Rightarrow> string \<Rightarrow> int option \<Rightarrow> bool" where
  "group_possibly_alive pv pgid recorded_boot_id leader_start_time \<longleftrightarrow>
     (case boot_id pv of Some current \<Rightarrow> current = recorded_boot_id | None \<Rightarrow> True) \<and>
     (case (leader_start_time, proc_stat pv pgid) of
        (Some recorded, Some stat) \<Rightarrow> pst_start_time stat = recorded
      | _ \<Rightarrow> True) \<and>
     \<not> group_empty pv pgid"

section \<open>Robustness of the parser\<close>

lemma after_last_paren_none: "CHR '')'' \<notin> set s \<Longrightarrow> after_last_paren s = None"
  by (induction s) auto

lemma after_last_paren_suffix: "CHR '')'' \<notin> set rest \<Longrightarrow> after_last_paren (pre @ CHR '')'' # rest) = Some rest"
  by (induction pre) (simp_all add: after_last_paren_none)

text \<open>
  The name of a process cannot forge its identity. Everything up to the last closing
  parenthesis of a \<open>stat\<close> line, a process name with parentheses and forged fields included, is
  ignored: state, group and start time come from the fields behind it.
\<close>

theorem parse_stat_ignores_name:
  assumes "CHR '')'' \<notin> set rest"
  shows "parse_stat pid (pre @ CHR '')'' # rest) =
    (let fs = split_whitespace rest in
     if 20 \<le> length fs then
       (case (parse_i32 (fs ! 2), parse_i64 (fs ! 19)) of
          (Some pgrp, Some start) \<Rightarrow>
            Some \<lparr>pst_pid = pid, pst_pgrp = pgrp, pst_start_time = start, pst_zombie = fs ! 0 \<in> {''Z'', ''X''}\<rparr>
        | _ \<Rightarrow> None)
     else None)"
  using assms
  by (auto simp: parse_stat_def after_last_paren_suffix Let_def nth_field_def split: option.splits)

theorem parse_stat_ignores_name_witness:
  "parse_stat 9 (''9 (a) R 1 1 1 1 1 1 1 1 1 1 1 1 1 1 1 1 1 1 1 (b'' @ CHR '')'' # '' Z 1 77 0 0 0 0 0 0 0 0 0 0 0 0 0 0 0 0 42'') =
     Some \<lparr>pst_pid = 9, pst_pgrp = 77, pst_start_time = 42, pst_zombie = True\<rparr>"
  by (subst parse_stat_ignores_name, simp) code_simp

text \<open>A listing of \<open>/proc\<close> that fails counts as an empty group, unlike an unreadable boot id.\<close>

lemma unreadable_proc_counts_as_drained:
  "pv_entries pv = None \<Longrightarrow> \<not> group_possibly_alive pv pgid boot st"
  by (simp add: group_possibly_alive_def group_empty_def group_members_def)

end
