(* ===== verification/Artifacts.thy ===== *)
theory Artifacts
  imports Identity
begin

text \<open>
  Model of \<^verbatim>\<open>src/src/process/artifacts.rs\<close>: the control records that the daemon
  and an attempt's runner exchange through the attempt directory, and the atomic read and write
  of one record. A file of the directory is absent, unreadable, or its bytes; the JSON codec of a
  record is a parameter. A crash of the writer before the rename leaves only the temporary file,
  which no reader opens, so a write is one step.

  The coordinator uses the directory at the level of records: \<open>'a artifact\<close> is what
  \<open>read_artifact\<close> reports for a file.
\<close>

section \<open>Records\<close>

record command_file =
  cf_attempt_id :: attempt_id
  cf_job_id :: job_id
  cf_token :: string
  cf_argv :: "string list"
  cf_cwd :: string
  cf_env :: "(string \<times> string) list"
  cf_start_wait_ms :: nat
  cf_cancel_grace_ms :: nat
  cf_poll_ms :: nat
  cf_time_limit_ms :: "nat option"
  cf_yield_policy :: "yield_policy option"

record limit_file =
  lf_token :: string
  lf_time_limit_ms :: "nat option"
  lf_updated_at :: "millis option"

record timeout_file =
  tf_token :: string
  tf_deadline :: millis
  tf_observed_at :: millis

record identity_file =
  if_token :: string
  if_runner_pid :: int
  if_runner_start_time :: int
  if_boot_id :: string

record start_file =
  sf_token :: string

record exec_file =
  xf_token :: string
  xf_pid :: int
  xf_pgid :: int
  xf_start_time :: int
  xf_boot_id :: string
  xf_started_at :: "millis option"

record cancel_file =
  caf_token :: string
  caf_force :: bool
  caf_requested_at :: "millis option"

record yield_file =
  yf_token :: string
  yf_requested_at :: millis

record yield_sent_file =
  ysf_token :: string
  ysf_sent_at :: millis

datatype result_outcome =
    RO_Exited
  | RO_LaunchFailed
  | RO_Cancelled
  | RO_TimedOut
  | RO_AuthorizationTimeout
  | RO_Yielded

record result_file =
  rf_token :: string
  rf_outcome :: result_outcome
  rf_exit_code :: "int option"
  rf_term_signal :: "int option"
  rf_message :: "string option"
  rf_finished_at :: millis

section \<open>Reading and writing\<close>

definition MAX_ARTIFACT_BYTES :: nat where
  "MAX_ARTIFACT_BYTES = 1048576"

datatype file_content = NoFile | Unreadable string | Bytes "8 word list"

datatype artifact_error = ArtifactIo string | ArtifactCorrupt string

definition read_artifact ::
  "(8 word list \<Rightarrow> string + 'a) \<Rightarrow> string \<Rightarrow> file_content \<Rightarrow> artifact_error + 'a option" where
  "read_artifact decode path f =
     (case f of
        NoFile \<Rightarrow> Inr None
      | Unreadable e \<Rightarrow> Inl (ArtifactIo e)
      | Bytes bs \<Rightarrow>
          if length bs > MAX_ARTIFACT_BYTES then
            Inl (ArtifactCorrupt (path @ '' is '' @ show_nat (length bs) @ '' bytes (limit '' @
              show_nat MAX_ARTIFACT_BYTES @ '')''))
          else
            (case decode bs of
               Inl err \<Rightarrow> Inl (ArtifactCorrupt (path @ '': '' @ err))
             | Inr x \<Rightarrow> Inr (Some x)))"

datatype write_error = AlreadyExists string | WriteFailed string

text \<open>
  \<open>io name\<close> is the error of the file system while writing \<open>name\<close>, if any. The final
  publication of an exclusive write refuses an existing file as well
  (\<open>publish_noreplace\<close>), which a single writer cannot observe.
\<close>

definition write_artifact ::
  "('a \<Rightarrow> 8 word list) \<Rightarrow> (string \<Rightarrow> string option) \<Rightarrow> string \<Rightarrow> 'a \<Rightarrow> bool \<Rightarrow> (string \<Rightarrow> file_content) \<Rightarrow>
     write_error + (string \<Rightarrow> file_content)" where
  "write_artifact encode io name v exclusive dir =
     (if exclusive \<and> dir name \<noteq> NoFile then Inl (AlreadyExists (name @ '' already exists''))
      else
        (case io name of
           Some e \<Rightarrow> Inl (WriteFailed e)
         | None \<Rightarrow> Inr (dir(name := Bytes (encode v)))))"

text \<open>
  An artifact is read back as it was published, an exclusive publication never replaces a
  file, and an absent file is never taken for a corrupt one.
\<close>

theorem artifact_publication:
  assumes "\<And>v. decode (encode v) = Inr v" and "length (encode v) \<le> MAX_ARTIFACT_BYTES"
  shows "(write_artifact encode io name v exclusive dir = Inr dir' \<longrightarrow>
       read_artifact decode path (dir' name) = Inr (Some v) \<and>
       (\<forall>other. other \<noteq> name \<longrightarrow> dir' other = dir other) \<and>
       (exclusive \<longrightarrow> dir name = NoFile)) \<and>
     (read_artifact decode path (dir name) = Inr None \<longleftrightarrow> dir name = NoFile)"
  using assms
  by (auto simp: write_artifact_def read_artifact_def split: file_content.splits sum.splits option.splits if_splits)

definition encode_flag :: "bool \<Rightarrow> 8 word list" where
  "encode_flag b = (if b then [1] else [0])"

definition decode_flag :: "8 word list \<Rightarrow> string + bool" where
  "decode_flag bs = (if bs = [1] then Inr True else if bs = [0] then Inr False else Inl ''bad'')"

theorem artifact_publication_witness:
  "read_artifact decode_flag ''start'' (((\<lambda>_. NoFile)(''start'' := Bytes (encode_flag True))) ''start'') =
     Inr (Some True)"
  using artifact_publication [of decode_flag encode_flag True "\<lambda>_. None" "''start''" True
      "\<lambda>_. NoFile" "(\<lambda>_. NoFile)(''start'' := Bytes (encode_flag True))" "''start''"]
  by (simp add: write_artifact_def encode_flag_def decode_flag_def MAX_ARTIFACT_BYTES_def)

section \<open>Attempt directories\<close>

definition COMMAND_FILE :: string where "COMMAND_FILE = ''command.json''"
definition IDENTITY_FILE :: string where "IDENTITY_FILE = ''identity.json''"
definition START_FILE :: string where "START_FILE = ''start''"
definition EXEC_FILE :: string where "EXEC_FILE = ''exec.json''"
definition CANCEL_FILE :: string where "CANCEL_FILE = ''cancel.json''"
definition YIELD_FILE :: string where "YIELD_FILE = ''yield.json''"
definition YIELD_SENT_FILE :: string where "YIELD_SENT_FILE = ''yield_sent.json''"
definition LIMIT_FILE :: string where "LIMIT_FILE = ''limit.json''"
definition TIMEOUT_FILE :: string where "TIMEOUT_FILE = ''timeout.json''"
definition RESULT_FILE :: string where "RESULT_FILE = ''result.json''"
definition STDOUT_LOG_FILE :: string where "STDOUT_LOG_FILE = ''stdout.log''"
definition STDERR_LOG_FILE :: string where "STDERR_LOG_FILE = ''stderr.log''"

datatype 'a artifact = Absent | Present 'a | Corrupt string

record attempt_dir =
  ad_exists :: bool
  ad_command :: "command_file artifact"
  ad_identity :: "identity_file artifact"
  ad_start :: "start_file artifact"
  ad_exec :: "exec_file artifact"
  ad_cancel :: "cancel_file artifact"
  ad_yield :: "yield_file artifact"
  ad_yield_sent :: "yield_sent_file artifact"
  ad_limit :: "limit_file artifact"
  ad_timeout :: "timeout_file artifact"
  ad_result :: "result_file artifact"

definition empty_dir :: attempt_dir where
  "empty_dir = \<lparr>ad_exists = False, ad_command = Absent, ad_identity = Absent, ad_start = Absent,
     ad_exec = Absent, ad_cancel = Absent, ad_yield = Absent, ad_yield_sent = Absent,
     ad_limit = Absent, ad_timeout = Absent, ad_result = Absent\<rparr>"

text \<open>
  \<open>write_artifact\<close> on a directory of records; \<open>present\<close> says whether the file exists and
  \<open>put\<close> stores the record. A failing write may leave the artifact unpublished, or published
  but not synced.
\<close>

datatype disk_fault = Unpublished string | Unsynced string

definition store_artifact ::
  "disk_fault option \<Rightarrow> string \<Rightarrow> bool \<Rightarrow> bool \<Rightarrow> (attempt_dir \<Rightarrow> attempt_dir) \<Rightarrow> attempt_dir \<Rightarrow>
     write_error option \<times> attempt_dir" where
  "store_artifact fault name exclusive present put dir =
     (if exclusive \<and> present then (Some (AlreadyExists (name @ '' already exists'')), dir)
      else if \<not> ad_exists dir then (Some (WriteFailed ''No such file or directory''), dir)
      else (case fault of
              None \<Rightarrow> (None, put dir)
            | Some (Unpublished e) \<Rightarrow> (Some (WriteFailed e), dir)
            | Some (Unsynced e) \<Rightarrow> (Some (WriteFailed e), put dir)))"

fun write_error_text :: "write_error \<Rightarrow> string" where
  "write_error_text (AlreadyExists e) = e"
| "write_error_text (WriteFailed e) = e"

text \<open>The signals that end a process group.\<close>

datatype signal = SIGTERM | SIGKILL

end
