(* ===== verification/Mutations.thy ===== *)
theory Mutations
  imports Views Artifacts
begin

text \<open>
  Model of the mutating operations of \<^verbatim>\<open>src/src/daemon/coordinator.rs\<close>
  (\<open>apply_mutation\<close> and the functions it calls) and of the validation that precedes them.
  A mutation runs in one transaction: it is a function from the database to an error (the
  transaction is rolled back) or to the reply, the publications to perform after the commit, and
  the new database. The questions about the file system and about processes are answered by
  parameters (\<open>fs_view\<close>, \<open>proc_view\<close>).
\<close>

section \<open>Errors and publications\<close>

type_synonym 'a api_result = "error_body + 'a"

definition api_error :: "error_code \<Rightarrow> string \<Rightarrow> error_body" where
  "api_error code message = \<lparr>eb_code = code, eb_message = message\<rparr>"

text \<open>\<open>From<anyhow::Error>\<close> and \<open>From<rusqlite::Error>\<close>.\<close>

definition internal :: "string + 'a \<Rightarrow> 'a api_result" where
  "internal r = (case r of Inl e \<Rightarrow> Inl (api_error INTERNAL e) | Inr x \<Rightarrow> Inr x)"

definition api_not_found :: "job_id \<Rightarrow> error_body" where
  "api_not_found job = api_error NOT_FOUND (''job '' @ show_int job @ '' not found'')"

datatype publish =
    PubCancel attempt_id string bool millis
  | PubTimeLimit attempt_id string "nat option" millis
  | PubYield attempt_id string millis

lemma internal_simps [simp]: "internal (Inr x) = Inr x" "internal (Inl e) = Inl (api_error INTERNAL e)"
  by (simp_all add: internal_def)

lemma internal_eq_Inr: "internal r = Inr x \<longleftrightarrow> r = Inr x"
  by (cases r) auto

section \<open>Validation\<close>

text \<open>What the validation asks of the file system.\<close>

record fs_view =
  fs_is_dir :: "string \<Rightarrow> bool"
  fs_is_file :: "string \<Rightarrow> bool"

text \<open>\<open>std::env::split_paths\<close> on Unix.\<close>

fun split_paths_from :: "string \<Rightarrow> string \<Rightarrow> string list" where
  "split_paths_from acc [] = [acc]"
| "split_paths_from acc (c # cs) =
     (if c = CHR '':'' then acc # split_paths_from [] cs else split_paths_from (acc @ [c]) cs)"

definition invalid_argument :: "string \<Rightarrow> error_body" where
  "invalid_argument = api_error INVALID_ARGUMENT"

text \<open>
  Rust's \<open>{:?}\<close> of a string: quotes, backslashes and ASCII control characters are escaped. Every other
  character counts as printable.
\<close>

definition hex_digit :: "nat \<Rightarrow> char" where
  "hex_digit d = char_of (if d < 10 then 48 + d else 87 + d)"

definition escape_debug :: "char \<Rightarrow> string" where
  "escape_debug c =
     (let n = (of_char c :: nat) in
      if n = 34 \<or> n = 92 then [CHR 0x5C, c]
      else if n = 0 then [CHR 0x5C, CHR ''0'']
      else if n = 9 then [CHR 0x5C, CHR ''t'']
      else if n = 10 then [CHR 0x5C, CHR ''n'']
      else if n = 13 then [CHR 0x5C, CHR ''r'']
      else if n < 32 \<or> n = 127
      then [CHR 0x5C] @ ''u{'' @ (if n < 16 then [hex_digit n] else [hex_digit (n div 16), hex_digit (n mod 16)]) @ ''}''
      else [c])"

definition show_debug :: "string \<Rightarrow> string" where
  "show_debug s = [CHR 0x22] @ concat (map escape_debug s) @ [CHR 0x22]"

definition invalid_env_entry :: "string \<times> string \<Rightarrow> bool" where
  "invalid_env_entry kv \<longleftrightarrow>
     fst kv = [] \<or> NUL \<in> set (fst kv) \<or> CHR ''='' \<in> set (fst kv) \<or> NUL \<in> set (snd kv)"

definition validate_submission_fs :: "fs_view \<Rightarrow> submit_params \<Rightarrow> unit api_result" where
  "validate_submission_fs fs p =
     bindE (ensure (\<not> (sp_name p = [] \<or> NUL \<in> set (sp_name p)))
              (invalid_argument ''job name must be non-empty UTF-8 without NUL'')) (\<lambda>_.
     bindE (ensure (sp_max_parallel_runs p \<noteq> 0)
              (invalid_argument ''maxParallelRuns must be a positive integer'')) (\<lambda>_.
     bindE (ensure (sp_max_attempts p \<noteq> 0)
              (invalid_argument ''maxAttempts must be a positive integer'')) (\<lambda>_.
     bindE (ensure (i64_try_from (sp_retry_delay_ms p) \<noteq> None)
              (invalid_argument ''retryDelayMs is too large'')) (\<lambda>_.
     bindE (ensure (case sp_yield_policy p of None \<Rightarrow> True | Some pol \<Rightarrow> in_YIELD_EXIT_CODES (yp_exit_code pol))
              (invalid_argument ''yieldExitCode must be between 3 and 125'')) (\<lambda>_.
     bindE (ensure (sp_time_limit_ms p \<noteq> Some 0)
              (invalid_argument ''timeLimitMs must be a positive integer'')) (\<lambda>_.
     bindE (ensure (case sp_time_limit_ms p of None \<Rightarrow> True | Some l \<Rightarrow> i64_try_from l \<noteq> None)
              (invalid_argument ''timeLimitMs is too large'')) (\<lambda>_.
     bindE (ensure (sp_args p \<noteq> []) (invalid_argument ''a command argument vector is required'')) (\<lambda>_.
     bindE (ensure (list_all (\<lambda>arg. NUL \<notin> set arg) (sp_args p))
              (invalid_argument ''command arguments must not contain NUL'')) (\<lambda>_.
     bindE (case List.find invalid_env_entry (sp_env p) of
              None \<Rightarrow> Inr ()
            | Some kv \<Rightarrow> Inl (invalid_argument (''invalid environment entry '' @ show_debug (fst kv)))) (\<lambda>_.
     bindE (ensure (\<not> (sp_cwd p = [] \<or> hd (sp_cwd p) \<noteq> CHR ''/'' \<or> NUL \<in> set (sp_cwd p)))
              (invalid_argument ''working directory must be an absolute path'')) (\<lambda>_.
     bindE (ensure (fs_is_dir fs (sp_cwd p))
              (invalid_argument (''working directory '' @ sp_cwd p @ '' is not a directory''))) (\<lambda>_.
     let executable = hd (sp_args p) in
     if CHR ''/'' \<in> set executable then
       ensure (fs_is_file fs (path_join (sp_cwd p) executable))
         (invalid_argument (''executable '' @ path_join (sp_cwd p) executable @ '' does not exist''))
     else
       ensure (case map_of (sp_env p) ''PATH'' of
                 None \<Rightarrow> False
               | Some path \<Rightarrow> list_ex (\<lambda>dir. fs_is_file fs (path_join (path_join (sp_cwd p) dir) executable))
                   (split_paths_from [] path))
         (invalid_argument (''executable '' @ executable @ '' not found on the persisted PATH''))))))))))))))"

definition validate_submission_parents :: "database \<Rightarrow> submit_params \<Rightarrow> unit api_result" where
  "validate_submission_parents db p =
     (case List.find (\<lambda>parent. parent \<le> 0 \<or> job_row db parent = None) (map ds_job (sp_dependencies p)) of
        None \<Rightarrow> Inr ()
      | Some parent \<Rightarrow>
          Inl (api_error NOT_FOUND (''dependency parent job '' @ show_int parent @ '' does not exist'')))"

definition validate_time_limit :: "nat option \<Rightarrow> int option api_result" where
  "validate_time_limit limit =
     (case limit of
        None \<Rightarrow> Inr None
      | Some l \<Rightarrow>
          if l = 0 then Inl (invalid_argument ''timeLimitMs must be a positive integer'')
          else
            (case i64_try_from l of
               None \<Rightarrow> Inl (invalid_argument ''timeLimitMs is too large'')
             | Some v \<Rightarrow> Inr (Some v)))"

section \<open>Mutations\<close>

type_synonym mutation_result = "((reply \<times> publish list) \<times> database) api_result"

definition get_job :: "database \<Rightarrow> job_id \<Rightarrow> job_record api_result" where
  "get_job db job = ok_or (api_not_found job) (job_row db job)"

definition job_reply :: "paths \<Rightarrow> millis \<Rightarrow> job_id \<Rightarrow> database \<Rightarrow> reply api_result" where
  "job_reply paths now job db =
     bindE (get_job db job) (\<lambda>row.
     bindE (internal (job_view db paths now row True)) (\<lambda>v. Inr (R_Job v)))"

definition finish_mutation ::
  "paths \<Rightarrow> millis \<Rightarrow> job_id \<Rightarrow> publish list \<Rightarrow> database \<Rightarrow> mutation_result" where
  "finish_mutation paths now job actions db =
     bindE (job_reply paths now job db) (\<lambda>reply. Inr ((reply, actions), db))"

definition invalid_state :: "string \<Rightarrow> error_body" where
  "invalid_state = api_error INVALID_STATE"

definition invalidate_reservation_if_protected ::
  "job_id \<Rightarrow> string \<Rightarrow> millis \<Rightarrow> database \<Rightarrow> database" where
  "invalidate_reservation_if_protected job reason now db =
     (case active_reservation db of
        None \<Rightarrow> db
      | Some res \<Rightarrow>
          if ri_job_id res = job then
            append_event now (Some job) None ''reservation_invalidated'' ''client''
              (Some (JObj [(''reason'', JStr reason)]))
              (resolve_reservation (ri_id res) Res_Invalidated reason now db)
          else db)"

definition apply_submit ::
  "paths \<Rightarrow> millis \<Rightarrow> job_context option \<Rightarrow> submit_params \<Rightarrow> database \<Rightarrow> mutation_result" where
  "apply_submit paths now context p db =
     bindE (validate_submission_parents db p) (\<lambda>_.
     bindE (internal (insert_job p now db)) (\<lambda>(job, db1).
     let db2 = advance_dependency_graph now
           (append_event now (Some job) None ''job_submitted'' ''client''
             (Some (JObj [(''name'', JStr (sp_name p)),
                (''maxParallelRuns'', JInt (int (sp_max_parallel_runs p))),
                (''priority'', JInt (sp_priority p)),
                (''timeLimitMs'', json_opt (\<lambda>n. JInt (int n)) (sp_time_limit_ms p))]))
             (set_job_context job context db1))
     in bindE (get_job db2 job) (\<lambda>row.
        bindE (internal (job_view db2 paths now row True)) (\<lambda>v.
          Inr ((R_Submitted v, []), db2)))))"

definition cancel_job ::
  "job_id \<Rightarrow> bool \<Rightarrow> millis \<Rightarrow> database \<Rightarrow> (publish list \<times> database) api_result" where
  "cancel_job job force now db =
     bindE (get_job db job) (\<lambda>row.
     let i = j_id row in
     if j_state row = J_Queued \<or> j_state row = J_Held then
       Inr ([], advance_dependency_graph now
         (append_event now (Some i) None ''job_cancelled'' ''client'' None
           (update_job_state i J_Cancelled (Some ''cancelled before start'') now
             (invalidate_reservation_if_protected i ''protected job was cancelled'' now db))))
     else if j_state row = J_Starting \<or> j_state row = J_Running \<or> j_state row = J_NeedsAttention then
       bindE (ok_or (invalid_state (''job '' @ show_int i @ '' has no live attempt to cancel''))
                (live_attempt_for_job db i)) (\<lambda>a.
       let requested_at = (case a_cancel_requested_at a of None \<Rightarrow> now | Some t \<Rightarrow> t);
           publish_force = (a_cancel_force a \<or> force);
           db1 = append_event now (Some i) (Some (a_id a)) ''cancel_requested'' ''client''
             (Some (JObj [(''force'', JBool force)]))
             (set_attempt_cancel_requested (a_id a) force now db);
           publish = PubCancel (a_id a) (a_launch_token a) publish_force requested_at
       in case a_state a of
            A_Prepared \<Rightarrow>
              Inr ([publish], advance_dependency_graph now
                (append_event now (Some i) None ''job_cancelled'' ''client'' None
                  (update_job_state i J_Cancelled (Some ''cancelled before launch'') now
                    (release_lease (a_id a) now
                      (finalize_attempt (a_id a) A_Cancelled None None
                        (Some ''cancelled before launch authorization'') now db1)))))
          | A_Authorized \<Rightarrow> Inr ([publish], db1)
          | A_Running \<Rightarrow> Inr ([publish], db1)
          | A_Orphaned \<Rightarrow> Inr ([], db1)
          | A_Quarantined \<Rightarrow>
              Inl (api_error UNSAFE_RESOLUTION (''attempt '' @ show_int (a_id a) @
                '' is quarantined with unknown process containment; inspect and use `mlq recover resolve`''))
          | s \<Rightarrow>
              Inl (invalid_state (''attempt '' @ show_int (a_id a) @ '' is already '' @
                attempt_state_as_str s)))
     else if job_state_is_terminal (j_state row) then
       Inl (invalid_state (''job '' @ show_int i @ '' is already '' @ job_state_as_str (j_state row)))
     else
       Inl (invalid_state (''job '' @ show_int i @ '' is '' @ job_state_as_str (j_state row) @
         '' and cannot be cancelled'')))"

definition MAX_YIELD_REASON_CHARS :: nat where
  "MAX_YIELD_REASON_CHARS = 500"

definition yield_job ::
  "job_id \<Rightarrow> string \<Rightarrow> bool \<Rightarrow> bool \<Rightarrow> millis \<Rightarrow> database \<Rightarrow> (publish \<times> database) api_result" where
  "yield_job job reason0 hold interactive now db =
     (let reason = trim reason0 in
      bindE (ensure (\<not> (reason = [] \<or> NUL \<in> set reason \<or> char_count reason > MAX_YIELD_REASON_CHARS))
               (invalid_argument (''a yield reason is required (at most '' @
                 show_nat MAX_YIELD_REASON_CHARS @ '' characters)''))) (\<lambda>_.
      bindE (get_job db job) (\<lambda>row.
      let i = j_id row in
      bindE (ok_or (invalid_state (''job '' @ show_int i @
                 '' did not opt into cooperative yield at submission (--yield-signal)''))
               (j_yield_policy row)) (\<lambda>policy.
      bindE (ensure (j_state row = J_Running)
               (invalid_state (''only running jobs can yield; job '' @ show_int i @ '' is '' @
                 job_state_as_str (j_state row)))) (\<lambda>_.
      bindE (ok_or (invalid_state (''job '' @ show_int i @ '' has no supervised running attempt to yield''))
               (case live_attempt_for_job db i of
                  None \<Rightarrow> None
                | Some a \<Rightarrow> if a_state a = A_Running then Some a else None)) (\<lambda>a.
      bindE (ensure (\<not> a_cancel_requested a)
               (invalid_state (''job '' @ show_int i @ '' already has a cancellation in progress''))) (\<lambda>_.
      case a_yield_requested_at a of
        Some requested_at \<Rightarrow> Inr (PubYield (a_id a) (a_launch_token a) requested_at, db)
      | None \<Rightarrow>
          bindE (ensure (hold \<or> list_ex (\<lambda>c. cand_job c \<noteq> i \<and> cand_priority c \<ge> j_priority row)
                     (eligible_candidates db now))
                   (invalid_state (''no queued job would run ahead of job '' @ show_int i @
                     '' if it yielded now; pass --hold to park it until `mlq release`''))) (\<lambda>_.
            Inr (PubYield (a_id a) (a_launch_token a) now,
              append_event now (Some i) (Some (a_id a)) ''yield_requested'' ''client''
                (Some (JObj [(''reason'', JStr reason), (''hold'', JBool hold),
                   (''signal'', JStr (yield_signal_as_str (yp_signal policy))),
                   (''interactive'', JBool interactive)]))
                (set_attempt_yield_requested (a_id a) reason hold now db)))))))))) "

definition apply_hold :: "paths \<Rightarrow> millis \<Rightarrow> job_id \<Rightarrow> database \<Rightarrow> mutation_result" where
  "apply_hold paths now job db =
     bindE (get_job db job) (\<lambda>row.
     bindE (ensure (j_state row = J_Queued)
              (invalid_state (''only queued jobs can be held; job '' @ show_int (j_id row) @ '' is '' @
                job_state_as_str (j_state row)))) (\<lambda>_.
       finish_mutation paths now job []
         (append_event now (Some (j_id row)) None ''job_held'' ''client'' None
           (update_job_state (j_id row) J_Held None now
             (invalidate_reservation_if_protected (j_id row) ''protected job was held'' now db)))))"

definition apply_release :: "paths \<Rightarrow> millis \<Rightarrow> job_id \<Rightarrow> database \<Rightarrow> mutation_result" where
  "apply_release paths now job db =
     bindE (get_job db job) (\<lambda>row.
     bindE (ensure (j_state row = J_Held)
              (invalid_state (''only held jobs can be released; job '' @ show_int (j_id row) @ '' is '' @
                job_state_as_str (j_state row)))) (\<lambda>_.
       finish_mutation paths now job []
         (append_event now (Some (j_id row)) None ''job_released'' ''client'' None
           (update_job_state (j_id row) J_Queued None now db))))"

definition apply_retry :: "paths \<Rightarrow> millis \<Rightarrow> job_id \<Rightarrow> database \<Rightarrow> mutation_result" where
  "apply_retry paths now job db =
     bindE (get_job db job) (\<lambda>row.
     bindE (ensure (job_state_is_retryable (j_state row))
              (invalid_state (''only failed or lost jobs can be retried; job '' @ show_int (j_id row) @
                '' is '' @ job_state_as_str (j_state row)))) (\<lambda>_.
       finish_mutation paths now job []
         (append_event now (Some (j_id row)) None ''job_retried'' ''client'' None
           (advance_dependency_graph now
             (clear_job_readiness (j_id row) now
               (set_job_retry_not_before (j_id row) None now
                 (update_job_state (j_id row) J_Queued None now db)))))))"

definition mutable_state :: "job_state \<Rightarrow> bool" where
  "mutable_state s \<longleftrightarrow>
     s \<in> {J_Queued, J_Held, J_Starting, J_Running, J_NeedsAttention}"

definition apply_set_max_parallel_runs ::
  "paths \<Rightarrow> millis \<Rightarrow> job_id \<Rightarrow> nat \<Rightarrow> database \<Rightarrow> mutation_result" where
  "apply_set_max_parallel_runs paths now job v db =
     bindE (ensure (v \<noteq> 0) (invalid_argument ''maxParallelRuns must be a positive integer'')) (\<lambda>_.
     bindE (get_job db job) (\<lambda>row.
     let i = j_id row in
     bindE (ensure (mutable_state (j_state row))
              (invalid_state (''maxParallelRuns cannot be changed after a job finishes; job '' @
                show_int i @ '' is '' @ job_state_as_str (j_state row)))) (\<lambda>_.
     if j_max_parallel_runs row = v then finish_mutation paths now job [] db
     else
       bindE (if j_state row = J_Queued \<or> j_state row = J_Held then
                Inr (None, invalidate_reservation_if_protected i
                  ''protected job concurrency limit was changed'' now db)
              else
                bindE (ok_or (invalid_state (''job '' @ show_int i @ '' has no live attempt to update''))
                         (live_attempt_for_job db i)) (\<lambda>a.
                bindE (ensure (list_ex (\<lambda>l. fst l = a_id a) (active_leases db))
                         (invalid_state (''job '' @ show_int i @ '' has no active run lease to update''))) (\<lambda>_.
                bindE (internal (set_active_attempt_max_parallel_runs (a_id a) v db)) (\<lambda>db1.
                  Inr (Some (a_id a, length (active_leases db)), db1))))) (\<lambda>(active_attempt, db1).
       bindE (internal (set_job_max_parallel_runs i v now db1)) (\<lambda>db2.
         finish_mutation paths now job []
           (append_event now (Some i) (map_option fst active_attempt) ''max_parallel_runs_changed''
             ''client''
             (Some (JObj [(''from'', JInt (int (j_max_parallel_runs row))), (''to'', JInt (int v)),
                (''activeLeases'', json_opt (\<lambda>n. JInt (int n)) (map_option snd active_attempt))]))
             db2))))))"

definition apply_set_priority ::
  "paths \<Rightarrow> millis \<Rightarrow> job_id \<Rightarrow> int \<Rightarrow> database \<Rightarrow> mutation_result" where
  "apply_set_priority paths now job v db =
     bindE (get_job db job) (\<lambda>row.
     let i = j_id row in
     bindE (ensure (j_state row = J_Queued \<or> j_state row = J_Held)
              (invalid_state (''priority can only be changed for queued or held jobs; job '' @
                show_int i @ '' is '' @ job_state_as_str (j_state row)))) (\<lambda>_.
     if j_priority row = v then finish_mutation paths now job [] db
     else
       finish_mutation paths now job []
         (append_event now (Some i) None ''priority_changed'' ''client''
           (Some (JObj [(''from'', JInt (j_priority row)), (''to'', JInt v)]))
           (set_job_priority i v now
             (if j_state row = J_Queued
              then invalidate_reservation_if_protected i ''protected job priority was changed'' now db
              else db)))))"

definition apply_set_time_limit ::
  "paths \<Rightarrow> millis \<Rightarrow> job_id \<Rightarrow> nat option \<Rightarrow> database \<Rightarrow> mutation_result" where
  "apply_set_time_limit paths now job limit db =
     bindE (validate_time_limit limit) (\<lambda>stored.
     bindE (get_job db job) (\<lambda>row.
     let i = j_id row in
     bindE (ensure (mutable_state (j_state row))
              (invalid_state (''time limit cannot be changed after a job finishes; job '' @
                show_int i @ '' is '' @ job_state_as_str (j_state row)))) (\<lambda>_.
     let current = Option.bind (j_time_limit_ms row) (\<lambda>v. if v \<ge> 0 then Some (nat v) else None) in
     if current = limit then finish_mutation paths now job [] db
     else
       bindE (if j_state row = J_Queued \<or> j_state row = J_Held then Inr None
              else
                bindE (ok_or (invalid_state (''job '' @ show_int i @ '' has no live attempt to update''))
                         (live_attempt_for_job db i)) (\<lambda>a.
                  Inr (Some (a_id a, a_launch_token a)))) (\<lambda>publish.
       bindE (internal (set_job_time_limit i stored now db)) (\<lambda>db1.
         finish_mutation paths now job
           (case publish of
              None \<Rightarrow> []
            | Some (a, token) \<Rightarrow> [PubTimeLimit a token limit now])
           (append_event now (Some i) (map_option fst publish) ''time_limit_changed'' ''client''
             (Some (JObj [(''from'', json_opt JInt (j_time_limit_ms row)),
                (''to'', json_opt JInt stored)])) db1))))))"

fun resolved_states :: "resolve_as \<Rightarrow> attempt_state \<times> job_state" where
  "resolved_states R_Lost = (A_Lost, J_Lost)"
| "resolved_states R_Cancelled = (A_Cancelled, J_Cancelled)"

definition apply_recover_resolve ::
  "paths \<Rightarrow> proc_view \<Rightarrow> millis \<Rightarrow> job_id \<Rightarrow> int \<Rightarrow> resolve_as \<Rightarrow> database \<Rightarrow> mutation_result" where
  "apply_recover_resolve paths pv now job number resolve_as db =
     bindE (ok_or (api_error NOT_FOUND (''job '' @ show_int job @ '' has no attempt number '' @
               show_int number)) (attempt_by_number db job number)) (\<lambda>a.
     bindE (ensure (a_state a = A_Orphaned \<or> a_state a = A_Quarantined)
              (invalid_state (''attempt '' @ show_int (a_id a) @ '' is '' @
                attempt_state_as_str (a_state a) @ '', not awaiting recovery''))) (\<lambda>_.
     bindE (case (a_cmd_pgid a, a_runner_boot_id a) of
              (Some pgid, Some boot) \<Rightarrow>
                ensure (\<not> group_possibly_alive pv pgid boot (a_cmd_start_time a))
                  (api_error UNSAFE_RESOLUTION (''command process group '' @ show_int pgid @
                    '' still has live members '' @ show_int_list (group_members pv pgid) @
                    ''; resolve after they exit or are killed''))
            | _ \<Rightarrow> Inr ()) (\<lambda>_.
     let (attempt_state, job_state) = resolved_states resolve_as;
         message = (if a_cmd_pgid a = None then
             ''resolved by operator via recover resolve (containment unknown: no exec handshake was recorded; verify no stray processes remain)''
           else ''resolved by operator via recover resolve'')
     in finish_mutation paths now job []
          (advance_dependency_graph now
            (append_event now (Some job) None
                (case resolve_as of R_Lost \<Rightarrow> ''job_lost'' | R_Cancelled \<Rightarrow> ''job_cancelled'')
                ''client'' None
              (append_event now (Some job) (Some (a_id a)) ''recover_resolved'' ''client''
                  (Some (JObj [(''as'', JStr (attempt_state_as_str attempt_state))]))
                (update_job_state job job_state (Some message) now
                  (release_lease (a_id a) now
                    (finalize_attempt (a_id a) attempt_state None None (Some message) now db)))))))))"

definition apply_pause :: "bool \<Rightarrow> millis \<Rightarrow> database \<Rightarrow> mutation_result" where
  "apply_pause paused now db =
     (let (changed, db1) = set_paused paused now db
      in Inr ((R_Paused paused, []),
           if changed then append_event now None None
               (if paused then ''queue_paused'' else ''queue_unpaused'') ''client'' None db1
           else db1))"

definition apply_mutation ::
  "paths \<Rightarrow> proc_view \<Rightarrow> op \<Rightarrow> millis \<Rightarrow> job_context option \<Rightarrow> database \<Rightarrow> mutation_result" where
  "apply_mutation paths pv o' now context db =
     (case o' of
        Submit p \<Rightarrow> apply_submit paths now context p db
      | Cancel job force \<Rightarrow>
          bindE (cancel_job job force now db) (\<lambda>(actions, db1). finish_mutation paths now job actions db1)
      | Yield job reason hold interactive \<Rightarrow>
          bindE (yield_job job reason hold interactive now db) (\<lambda>(action, db1).
            finish_mutation paths now job [action] db1)
      | Hold job \<Rightarrow> apply_hold paths now job db
      | Release job \<Rightarrow> apply_release paths now job db
      | Retry job \<Rightarrow> apply_retry paths now job db
      | SetMaxParallelRuns job v \<Rightarrow> apply_set_max_parallel_runs paths now job v db
      | SetPriority job v \<Rightarrow> apply_set_priority paths now job v db
      | SetTimeLimit job limit \<Rightarrow> apply_set_time_limit paths now job limit db
      | RecoverResolve job number resolve_as \<Rightarrow>
          apply_recover_resolve paths pv now job number resolve_as db
      | Pause \<Rightarrow> apply_pause True now db
      | Unpause \<Rightarrow> apply_pause False now db
      | _ \<Rightarrow> Inl (api_error INTERNAL ''read op routed to mutation handler''))"

end
