(* ===== verification/Queue.thy ===== *)
theory Queue
  imports Database
begin

text \<open>
  The abstract queue: what the tables promise, without timestamps, texts and processes. Its
  step relation lists the only transitions a job, a prerequisite edge, an attempt, a lease and
  the reservation can take; its invariant says how the tables agree with each other. The
  refinement in \<open>Queue_Tables\<close> and \<open>Coordinator\<close> shows that every transaction of the
  program is a sequence of these steps.
\<close>

section \<open>State and steps\<close>

type_synonym edge = "dependency_condition \<times> (dependency_resolution \<times> job_state) option"

record queue =
  q_job :: "job_id \<Rightarrow> job_state option"
  q_ready :: "job_id \<Rightarrow> int option"
  q_seq :: int
  q_edge :: "job_id \<Rightarrow> job_id \<Rightarrow> edge option"
  q_attempt :: "attempt_id \<Rightarrow> (job_id \<times> attempt_state) option"
  q_open :: "attempt_id set"
  q_protected :: "job_id option"

text \<open>The state of a job while an attempt of it is live.\<close>

fun job_phase :: "attempt_state \<Rightarrow> job_state" where
  "job_phase A_Prepared = J_Starting"
| "job_phase A_Authorized = J_Starting"
| "job_phase A_Running = J_Running"
| "job_phase _ = J_NeedsAttention"

inductive attempt_next :: "attempt_state \<Rightarrow> attempt_state \<Rightarrow> bool" where
  authorized: "attempt_next A_Prepared A_Authorized"
| running: "attempt_next A_Authorized A_Running"
| orphaned: "attempt_next A_Running A_Orphaned"
| quarantined: "attempt_live s \<Longrightarrow> s \<noteq> A_Quarantined \<Longrightarrow> attempt_next s A_Quarantined"

text \<open>What an attempt's end makes of its job.\<close>

inductive finish_outcome :: "attempt_state \<Rightarrow> job_state \<Rightarrow> bool" where
  "finish_outcome A_Succeeded J_Succeeded"
| "finish_outcome A_Cancelled J_Cancelled"
| "finish_outcome A_Lost J_Lost"
| "finish_outcome A_Lost J_Held"
| "finish_outcome A_Yielded J_Cancelled"
| "finish_outcome A_Yielded J_Held"
| "finish_outcome A_Yielded J_Queued"
| "finish_outcome A_Failed J_Queued"
| "finish_outcome A_Failed J_Failed"

definition edges_satisfied :: "queue \<Rightarrow> job_id \<Rightarrow> bool" where
  "edges_satisfied q c \<longleftrightarrow>
     (\<forall>p cond r. q_edge q p c = Some (cond, r) \<longrightarrow> (\<exists>s. r = Some (Dep_Satisfied, s)))"

definition set_job :: "job_id \<Rightarrow> job_state \<Rightarrow> queue \<Rightarrow> queue" where
  "set_job i s q = q\<lparr>q_job := (q_job q)(i \<mapsto> s)\<rparr>"

definition unready :: "job_id \<Rightarrow> queue \<Rightarrow> queue" where
  "unready i q = q\<lparr>q_ready := (q_ready q)(i := None)\<rparr>"

definition set_attempt :: "attempt_id \<Rightarrow> job_id \<Rightarrow> attempt_state \<Rightarrow> queue \<Rightarrow> queue" where
  "set_attempt a i s q = q\<lparr>q_attempt := (q_attempt q)(a \<mapsto> (i, s))\<rparr>"

inductive q_step :: "queue \<Rightarrow> queue \<Rightarrow> bool" where
  submit:
    "q_job q i = None \<Longrightarrow> (\<forall>p. E p \<noteq> None \<longrightarrow> p < i \<and> q_job q p \<noteq> None) \<Longrightarrow>
     q_step q (set_job i J_Queued q
       \<lparr>q_edge := (\<lambda>p c. if c = i then map_option (\<lambda>cond. (cond, None)) (E p) else q_edge q p c)\<rparr>)"
| latch:
    "q_edge q p c = Some (cond, None) \<Longrightarrow> q_job q p = Some s \<Longrightarrow> job_state_is_terminal s \<Longrightarrow>
     q_step q (q\<lparr>q_edge := (q_edge q)(p := (q_edge q p)(c \<mapsto>
       (cond, Some (resolution_of cond s, s))))\<rparr>)"
| skip:
    "q_job q c = Some s \<Longrightarrow> waiting_state s \<Longrightarrow> q_edge q p c = Some (cond, Some (Dep_Violated, s')) \<Longrightarrow>
     q_step q (unready c (set_job c J_Skipped q))"
| become_ready:
    "q_job q i = Some s \<Longrightarrow> waiting_state s \<Longrightarrow> q_ready q i = None \<Longrightarrow> edges_satisfied q i \<Longrightarrow>
     q_step q (q\<lparr>q_seq := q_seq q + 1, q_ready := (q_ready q)(i \<mapsto> q_seq q + 1)\<rparr>)"
| hold:
    "q_job q i = Some J_Queued \<Longrightarrow> q_protected q \<noteq> Some i \<Longrightarrow> q_step q (set_job i J_Held q)"
| release:
    "q_job q i = Some J_Held \<Longrightarrow> q_step q (set_job i J_Queued q)"
| cancel_waiting:
    "q_job q i = Some s \<Longrightarrow> waiting_state s \<Longrightarrow> q_protected q \<noteq> Some i \<Longrightarrow>
     q_step q (set_job i J_Cancelled q)"
| retry:
    "q_job q i = Some s \<Longrightarrow> job_state_is_retryable s \<Longrightarrow>
     q_step q (unready i (set_job i J_Queued q))"
| start:
    "q_job q i = Some J_Queued \<Longrightarrow> q_ready q i \<noteq> None \<Longrightarrow> q_protected q \<noteq> Some i \<Longrightarrow>
     q_attempt q a = None \<Longrightarrow>
     q_step q (set_attempt a i A_Prepared (set_job i J_Starting q)\<lparr>q_open := insert a (q_open q)\<rparr>)"
| progress:
    "q_attempt q a = Some (i, s) \<Longrightarrow> attempt_next s s' \<Longrightarrow>
     q_step q (set_attempt a i s' (set_job i (job_phase s') q))"
| finish:
    "q_attempt q a = Some (i, s) \<Longrightarrow> attempt_live s \<Longrightarrow> finish_outcome s' js \<Longrightarrow>
     q_step q (set_attempt a i s' (set_job i js q)\<lparr>q_open := q_open q - {a},
       q_ready := (if waiting_state js then (q_ready q)(i := None) else q_ready q)\<rparr>)"
| protect:
    "q_protected q = None \<Longrightarrow> q_job q i = Some J_Queued \<Longrightarrow> q_ready q i \<noteq> None \<Longrightarrow>
     q_step q (q\<lparr>q_protected := Some i\<rparr>)"
| unprotect:
    "q_step q (q\<lparr>q_protected := None\<rparr>)"

abbreviation q_steps :: "queue \<Rightarrow> queue \<Rightarrow> bool" where
  "q_steps \<equiv> q_step\<^sup>*\<^sup>*"

definition q_empty :: queue where
  "q_empty = \<lparr>q_job = (\<lambda>_. None), q_ready = (\<lambda>_. None), q_seq = 0, q_edge = (\<lambda>_ _. None),
     q_attempt = (\<lambda>_. None), q_open = {}, q_protected = None\<rparr>"

section \<open>Invariant\<close>

definition live_job :: "job_state \<Rightarrow> bool" where
  "live_job s \<longleftrightarrow> s = J_Starting \<or> s = J_Running \<or> s = J_NeedsAttention"

definition inv_edges :: "queue \<Rightarrow> bool" where
  "inv_edges q \<longleftrightarrow>
     (\<forall>p c cond r. q_edge q p c = Some (cond, r) \<longrightarrow>
        p < c \<and> q_job q p \<noteq> None \<and> q_job q c \<noteq> None \<and>
        (\<forall>res s. r = Some (res, s) \<longrightarrow> job_state_is_terminal s \<and> res = resolution_of cond s))"

definition inv_ready :: "queue \<Rightarrow> bool" where
  "inv_ready q \<longleftrightarrow>
     (\<forall>i n. q_ready q i = Some n \<longrightarrow>
        n \<le> q_seq q \<and> q_job q i \<noteq> None \<and> edges_satisfied q i \<and>
        (\<forall>j. q_ready q j = Some n \<longrightarrow> j = i))"

text \<open>A job past the waiting states got there by running.\<close>

definition inv_ran :: "queue \<Rightarrow> bool" where
  "inv_ran q \<longleftrightarrow>
     (\<forall>i s. q_job q i = Some s \<longrightarrow> s \<notin> {J_Queued, J_Held, J_Cancelled, J_Skipped} \<longrightarrow>
        edges_satisfied q i)"

definition inv_attempts :: "queue \<Rightarrow> bool" where
  "inv_attempts q \<longleftrightarrow>
     (\<forall>a i s. q_attempt q a = Some (i, s) \<longrightarrow>
        q_job q i \<noteq> None \<and> edges_satisfied q i \<and> (a \<in> q_open q \<longleftrightarrow> attempt_live s) \<and>
        (attempt_live s \<longrightarrow> q_job q i = Some (job_phase s))) \<and>
     (\<forall>a\<in>q_open q. q_attempt q a \<noteq> None)"

definition inv_single :: "queue \<Rightarrow> bool" where
  "inv_single q \<longleftrightarrow>
     (\<forall>a b i s t. q_attempt q a = Some (i, s) \<longrightarrow> q_attempt q b = Some (i, t) \<longrightarrow>
        attempt_live s \<longrightarrow> attempt_live t \<longrightarrow> a = b)"

definition inv_live :: "queue \<Rightarrow> bool" where
  "inv_live q \<longleftrightarrow>
     (\<forall>i s. q_job q i = Some s \<longrightarrow> live_job s \<longrightarrow>
        (\<exists>a t. q_attempt q a = Some (i, t) \<and> attempt_live t))"

definition inv_protected :: "queue \<Rightarrow> bool" where
  "inv_protected q \<longleftrightarrow>
     (\<forall>i. q_protected q = Some i \<longrightarrow> q_job q i = Some J_Queued \<and> q_ready q i \<noteq> None)"

definition q_inv :: "queue \<Rightarrow> bool" where
  "q_inv q \<longleftrightarrow> inv_edges q \<and> inv_ready q \<and> inv_ran q \<and> inv_attempts q \<and> inv_single q \<and>
     inv_live q \<and> inv_protected q"

section \<open>Every step keeps the invariant\<close>

inductive_cases attempt_nextE: "attempt_next s s'"
inductive_cases finish_outcomeE: "finish_outcome s js"
inductive_cases q_stepE: "q_step q q'"

lemmas q_updates = set_job_def unready_def set_attempt_def

lemma q_update_sel [simp]:
  "q_open (set_attempt a i s q) = q_open q" "q_open (set_job i js q) = q_open q"
  "q_open (unready i q) = q_open q" "q_job (set_attempt a i s q) = q_job q"
  "q_protected (set_job i js q) = q_protected q" "q_protected (set_attempt a i s q) = q_protected q"
  by (simp_all add: q_updates)

lemma attempt_live_iff: "attempt_live s \<longleftrightarrow> \<not> attempt_state_is_terminal s"
  by (cases s) (simp_all add: attempt_live_def)

lemma attempt_live_simps [simp]:
  "attempt_live A_Prepared" "attempt_live A_Authorized" "attempt_live A_Running"
  "attempt_live A_Orphaned" "attempt_live A_Quarantined" "\<not> attempt_live A_Succeeded"
  "\<not> attempt_live A_Failed" "\<not> attempt_live A_Cancelled" "\<not> attempt_live A_Lost"
  "\<not> attempt_live A_Yielded"
  by (simp_all add: attempt_live_def)

lemma attempt_next_live: "attempt_next s s' \<Longrightarrow> attempt_live s \<and> attempt_live s'"
  by (auto elim!: attempt_nextE simp: attempt_live_def)

lemma finish_outcome_facts:
  "finish_outcome s js \<Longrightarrow> \<not> attempt_live s \<and> \<not> live_job js"
  by (auto elim!: finish_outcomeE simp: attempt_live_def live_job_def)

lemma live_job_phase: "live_job (job_phase s)"
  by (cases s) (simp_all add: live_job_def)

lemma job_phase_not_waiting [simp]:
  "job_phase s \<noteq> J_Queued" "job_phase s \<noteq> J_Held" "job_phase s \<noteq> J_Cancelled"
  "job_phase s \<noteq> J_Skipped" "job_phase s \<noteq> J_Failed" "job_phase s \<noteq> J_Lost"
  "job_phase s \<noteq> J_Succeeded"
  by (cases s; simp)+

lemmas job_phase_not_waiting_sym [simp] = job_phase_not_waiting [symmetric]

lemma edges_satisfied_cong:
  "q_edge q = q_edge q' \<Longrightarrow> edges_satisfied q c = edges_satisfied q' c"
  by (simp add: edges_satisfied_def)

lemma inv_edges_step: "q_step q q' \<Longrightarrow> inv_edges q \<Longrightarrow> inv_edges q'"
  by (erule q_stepE; simp add: inv_edges_def q_updates; fastforce split: if_splits)

lemma edges_satisfied_step:
  assumes "q_step q q'" and "edges_satisfied q c" and "q_job q c \<noteq> None"
  shows "edges_satisfied q' c"
  using assms
  by (elim q_stepE; simp add: edges_satisfied_def q_updates; fastforce split: if_splits)

lemma q_job_dom_step: "q_step q q' \<Longrightarrow> q_job q c \<noteq> None \<Longrightarrow> q_job q' c \<noteq> None"
  by (elim q_stepE) (auto simp: q_updates)

lemma q_seq_step: "q_step q q' \<Longrightarrow> q_seq q \<le> q_seq q'"
  by (elim q_stepE) (auto simp: q_updates)

text \<open>A readiness number that was not there before is the next one of the sequence.\<close>

lemma ready_step:
  assumes "q_step q q'" and "q_ready q' i = Some n"
  shows "q_ready q i = Some n \<or>
    (n = q_seq q + 1 \<and> q_seq q' = n \<and> edges_satisfied q i \<and> q_job q i \<noteq> None \<and>
     (\<forall>j. j \<noteq> i \<longrightarrow> q_ready q' j = q_ready q j))"
  using assms by (elim q_stepE) (auto simp: q_updates split: if_splits)

lemma inv_ready_step:
  assumes "q_step q q'" and "inv_ready q"
  shows "inv_ready q'"
  unfolding inv_ready_def
proof (intro allI impI)
  fix i n assume n: "q_ready q' i = Some n"
  have old: "n \<le> q_seq q" "q_job q i \<noteq> None" "edges_satisfied q i"
      "\<And>j. q_ready q j = Some n \<Longrightarrow> j = i" if "q_ready q i = Some n"
    using assms(2) that by (auto simp: inv_ready_def)
  have fresh: "q_ready q j \<noteq> Some (q_seq q + 1)" for j
    using assms(2) by (fastforce simp: inv_ready_def)
  have "n \<le> q_seq q'" "q_job q i \<noteq> None" "edges_satisfied q i"
    using ready_step [OF assms(1) n] q_seq_step [OF assms(1)] old(1-3) by auto
  moreover have "j = i" if j: "q_ready q' j = Some n" for j
    using ready_step [OF assms(1) n] ready_step [OF assms(1) j] fresh old(1,4) j
    by (metis zle_add1_eq_le less_irrefl)
  ultimately show "n \<le> q_seq q' \<and> q_job q' i \<noteq> None \<and> edges_satisfied q' i \<and>
      (\<forall>j. q_ready q' j = Some n \<longrightarrow> j = i)"
    using edges_satisfied_step [OF assms(1)] q_job_dom_step [OF assms(1)] by auto
qed

text \<open>Where a job's state, an attempt or an open lease comes from.\<close>

lemma ran_step:
  assumes "q_step q q'" and "q_job q' i = Some s" and "s \<notin> {J_Queued, J_Held, J_Cancelled, J_Skipped}"
  shows "q_job q i = Some s \<or> (\<exists>a t. q_attempt q a = Some (i, t)) \<or>
    (q_ready q i \<noteq> None \<and> q_job q i \<noteq> None)"
  using assms by (elim q_stepE) (auto simp: q_updates split: if_splits)

lemma inv_ran_step:
  assumes "q_step q q'" and "inv_ran q" and "inv_ready q" and "inv_attempts q"
  shows "inv_ran q'"
  unfolding inv_ran_def
proof (intro allI impI)
  fix i s assume s: "q_job q' i = Some s" "s \<notin> {J_Queued, J_Held, J_Cancelled, J_Skipped}"
  from ran_step [OF assms(1) s] assms(2-4) s(2)
  have "edges_satisfied q i \<and> q_job q i \<noteq> None"
    unfolding inv_ran_def inv_ready_def inv_attempts_def by fastforce
  with assms(1) show "edges_satisfied q' i"
    using edges_satisfied_step by blast
qed

lemma attempt_step:
  assumes "q_step q q'" and "q_attempt q' a = Some (i, s)"
  shows "(q_attempt q a = Some (i, s) \<and> (a \<in> q_open q' \<longleftrightarrow> a \<in> q_open q)) \<or>
    (q_attempt q a = None \<and> s = A_Prepared \<and> q_job q' i = Some J_Starting \<and>
      q_job q i = Some J_Queued \<and> q_ready q i \<noteq> None \<and> a \<in> q_open q') \<or>
    (\<exists>t. q_attempt q a = Some (i, t) \<and> attempt_next t s \<and> q_job q' i = Some (job_phase s) \<and>
      (a \<in> q_open q' \<longleftrightarrow> a \<in> q_open q)) \<or>
    (\<exists>t. q_attempt q a = Some (i, t) \<and> attempt_live t \<and> \<not> attempt_live s \<and> a \<notin> q_open q')"
  using assms
  by (elim q_stepE) (auto simp: q_updates split: if_splits dest: finish_outcome_facts)

lemma attempt_next_changes: "attempt_next s s' \<Longrightarrow> s \<noteq> s'"
  by (auto elim: attempt_nextE)

lemma live_job_step:
  assumes "q_step q q'" and "q_job q i = Some js" and "live_job js"
  shows "q_job q' i = Some js \<or>
    (\<exists>a t. q_attempt q a = Some (i, t) \<and> attempt_live t \<and> q_attempt q' a \<noteq> Some (i, t))"
  using assms
  by (elim q_stepE)
    (auto simp: q_updates live_job_def waiting_state_def job_state_is_retryable_iff
      dest: attempt_next_live attempt_next_changes finish_outcome_facts)

lemma live_attempt_step:
  assumes "q_step q q'" and "q_attempt q a = Some (i, t)" and "attempt_live t"
  shows "(\<exists>t'. q_attempt q' a = Some (i, t') \<and> attempt_live t') \<or>
    (\<exists>js. q_job q' i = Some js \<and> \<not> live_job js)"
  using assms
  by (elim q_stepE) (auto simp: q_updates dest: attempt_next_live finish_outcome_facts)

lemma live_job_origin:
  assumes "q_step q q'" and "q_job q' i = Some s" and "live_job s"
  shows "q_job q i = Some s \<or> (\<exists>a t. q_attempt q' a = Some (i, t) \<and> attempt_live t)"
  using assms
  by (elim q_stepE)
    (auto simp: q_updates live_job_def split: if_splits
      dest: attempt_next_live finish_outcome_facts)

lemma one_new_attempt:
  assumes "q_step q q'" and "q_attempt q a = None" "q_attempt q' a \<noteq> None"
    and "q_attempt q b = None" "q_attempt q' b \<noteq> None"
  shows "a = b"
  using assms by (elim q_stepE) (auto simp: q_updates split: if_splits)

lemma q_open_step:
  assumes "q_step q q'" and "a \<in> q_open q'"
  shows "a \<in> q_open q \<and> (q_attempt q a \<noteq> None \<longrightarrow> q_attempt q' a \<noteq> None) \<or> q_attempt q' a \<noteq> None"
  using assms by (elim q_stepE) (auto simp: q_updates)

lemma inv_attempts_step:
  assumes step: "q_step q q'" and inv: "inv_attempts q" "inv_single q" "inv_ready q"
  shows "inv_attempts q'"
proof -
  have "q_job q' i \<noteq> None \<and> edges_satisfied q' i \<and> (a \<in> q_open q' \<longleftrightarrow> attempt_live s) \<and>
      (attempt_live s \<longrightarrow> q_job q' i = Some (job_phase s))"
    if at: "q_attempt q' a = Some (i, s)" for a i s
  proof -
    have old: "q_job q i \<noteq> None" "edges_satisfied q i"
      using attempt_step [OF step at] inv unfolding inv_attempts_def inv_ready_def by fastforce+
    then have "q_job q' i \<noteq> None" "edges_satisfied q' i"
      using q_job_dom_step [OF step] edges_satisfied_step [OF step] by blast+
    moreover have "a \<in> q_open q' \<longleftrightarrow> attempt_live s"
      using attempt_step [OF step at] inv(1) attempt_next_live
      by (auto simp: inv_attempts_def attempt_live_def)
    moreover have "q_job q' i = Some (job_phase s)" if live: "attempt_live s"
    proof (cases "q_attempt q a = Some (i, s)")
      case True
      then have "q_job q i = Some (job_phase s)"
        using inv(1) live by (auto simp: inv_attempts_def)
      then show ?thesis
        using live_job_step [OF step] live_job_phase inv(2) True live at
        by (metis inv_single_def)
    next
      case False
      then show ?thesis using attempt_step [OF step at] live by auto
    qed
    ultimately show ?thesis by blast
  qed
  moreover have "q_attempt q' a \<noteq> None" if "a \<in> q_open q'" for a
    using q_open_step [OF step that] inv(1) by (auto simp: inv_attempts_def)
  ultimately show ?thesis by (simp add: inv_attempts_def)
qed

lemma inv_single_step:
  assumes step: "q_step q q'" and inv: "inv_attempts q" "inv_single q"
  shows "inv_single q'"
  unfolding inv_single_def
proof (intro allI impI)
  fix a b i s t
  assume a: "q_attempt q' a = Some (i, s)" "attempt_live s"
    and b: "q_attempt q' b = Some (i, t)" "attempt_live t"
  have origin: "(\<exists>u. q_attempt q x = Some (i, u) \<and> attempt_live u \<and> q_job q i = Some (job_phase u)) \<or>
      (q_attempt q x = None \<and> q_job q i = Some J_Queued)"
    if "q_attempt q' x = Some (i, r)" "attempt_live r" for x r
    using attempt_step [OF step that(1)] that(2) inv(1) attempt_next_live
    unfolding inv_attempts_def by blast
  show "a = b"
    using origin [OF a] origin [OF b] inv(2) one_new_attempt [OF step, of a b] a(1) b(1)
    by (auto simp: inv_single_def)
qed

lemma inv_live_step:
  assumes step: "q_step q q'" and inv: "inv_live q"
  shows "inv_live q'"
  unfolding inv_live_def
proof (intro allI impI)
  fix i s assume s: "q_job q' i = Some s" "live_job s"
  show "\<exists>a t. q_attempt q' a = Some (i, t) \<and> attempt_live t"
    using live_job_origin [OF step s] inv s live_attempt_step [OF step]
    unfolding inv_live_def by fastforce
qed

lemma inv_protected_step:
  assumes step: "q_step q q'" and inv: "inv_protected q" "inv_attempts q" "inv_ready q"
  shows "inv_protected q'"
  unfolding inv_protected_def
proof (intro allI impI)
  fix i assume i: "q_protected q' = Some i"
  have old: "q_job q i = Some J_Queued" "edges_satisfied q i"
      "\<And>a s. q_attempt q a = Some (i, s) \<Longrightarrow> \<not> attempt_live s" if "q_protected q = Some i"
    using inv that unfolding inv_protected_def inv_attempts_def inv_ready_def by fastforce+
  have ready: "q_ready q i \<noteq> None" if "q_protected q = Some i"
    using inv(1) that by (auto simp: inv_protected_def)
  show "q_job q' i = Some J_Queued \<and> q_ready q' i \<noteq> None"
    using step i old ready
    by (elim q_stepE)
      (auto simp: q_updates edges_satisfied_def job_state_is_retryable_iff dest: attempt_next_live
        split: if_splits)
qed

lemma q_inv_step: "q_step q q' \<Longrightarrow> q_inv q \<Longrightarrow> q_inv q'"
  by (simp add: q_inv_def inv_edges_step inv_ready_step inv_ran_step inv_attempts_step
      inv_single_step inv_live_step inv_protected_step)

interpretation queue_system: transition_system q_step q_inv
  by unfold_locales (rule q_inv_step)

lemma q_inv_empty: "q_inv q_empty"
  by (simp add: q_inv_def q_empty_def inv_edges_def inv_ready_def inv_ran_def inv_attempts_def
      inv_single_def inv_live_def inv_protected_def)

section \<open>What never changes again\<close>

lemma edge_stable_step:
  assumes "q_step q q'" and "inv_edges q" and "q_edge q p c = Some (cond, Some r)"
  shows "q_edge q' p c = Some (cond, Some r)"
  using assms by (elim q_stepE; simp add: q_updates inv_edges_def; fastforce split: if_splits)

lemma attempt_final_step:
  assumes "q_step q q'" and "q_attempt q a = Some (i, s)" and "\<not> attempt_live s"
  shows "q_attempt q' a = Some (i, s)"
  using assms by (elim q_stepE) (auto simp: q_updates dest: attempt_next_live)

lemma job_final_step:
  assumes "q_step q q'" and "inv_attempts q" and "q_job q i = Some s"
    and "s = J_Succeeded \<or> s = J_Cancelled \<or> s = J_Skipped"
  shows "q_job q' i = Some s"
  using assms
  by (elim q_stepE)
    (auto simp: q_updates waiting_state_def job_state_is_retryable_iff inv_attempts_def
      dest: attempt_next_live)

lemma edge_stable:
  assumes "q_steps q q'" and "q_inv q" and "q_edge q p c = Some (cond, Some r)"
  shows "q_edge q' p c = Some (cond, Some r)"
  by (rule queue_system.stable
      [where P = "\<lambda>q. q_edge q p c = Some (cond, Some r)", OF _ assms])
    (auto simp: q_inv_def intro: edge_stable_step)

lemma attempt_final:
  assumes "q_steps q q'" and "q_inv q" and "q_attempt q a = Some (i, s)" and "\<not> attempt_live s"
  shows "q_attempt q' a = Some (i, s)"
  by (rule queue_system.stable [where P = "\<lambda>q. q_attempt q a = Some (i, s)", OF _ assms(1-3)])
    (use assms(4) attempt_final_step in blast)

lemma job_final:
  assumes "q_steps q q'" and "q_inv q" and "q_job q i = Some s"
    and "s = J_Succeeded \<or> s = J_Cancelled \<or> s = J_Skipped"
  shows "q_job q' i = Some s"
  by (rule queue_system.stable [where P = "\<lambda>q. q_job q i = Some s", OF _ assms(1-3)])
    (use assms(4) in \<open>auto simp: q_inv_def intro: job_final_step\<close>)

section \<open>Propagation of outcomes\<close>

text \<open>
  The steps of the dependency loop, and the jobs that it must skip: a waiting job is doomed when
  a prerequisite is violated, can no longer succeed, or is itself doomed.
\<close>

inductive dep_step :: "queue \<Rightarrow> queue \<Rightarrow> bool" where
  dep_latch:
    "q_edge q p c = Some (cond, None) \<Longrightarrow> q_job q p = Some s \<Longrightarrow> job_state_is_terminal s \<Longrightarrow>
     dep_step q (q\<lparr>q_edge := (q_edge q)(p := (q_edge q p)(c \<mapsto>
       (cond, Some (resolution_of cond s, s))))\<rparr>)"
| dep_skip:
    "q_job q c = Some s \<Longrightarrow> waiting_state s \<Longrightarrow> q_edge q p c = Some (cond, Some (Dep_Violated, s')) \<Longrightarrow>
     dep_step q (unready c (set_job c J_Skipped q))"

inductive_cases dep_stepE: "dep_step q q'"

lemma dep_step_q_step: "dep_step q q' \<Longrightarrow> q_step q q'"
  by (auto elim!: dep_stepE intro: q_step.intros)

lemma dep_steps_q_steps: "dep_step\<^sup>*\<^sup>* q q' \<Longrightarrow> q_steps q q'"
  by (rule rtranclp_mono [THEN predicate2D]) (auto intro: dep_step_q_step)

definition stuck :: "queue \<Rightarrow> bool" where
  "stuck q \<longleftrightarrow> \<not> (\<exists>q'. dep_step q q')"

inductive doomed :: "queue \<Rightarrow> job_id \<Rightarrow> bool" for q where
  violated:
    "q_job q c = Some s \<Longrightarrow> waiting_state s \<Longrightarrow> q_edge q p c = Some (cond, Some (Dep_Violated, s')) \<Longrightarrow>
     doomed q c"
| unsuccessful:
    "q_job q c = Some s \<Longrightarrow> waiting_state s \<Longrightarrow> q_edge q p c = Some (Dep_Succeeded, None) \<Longrightarrow>
     q_job q p = Some t \<Longrightarrow> job_state_is_terminal t \<Longrightarrow> t \<noteq> J_Succeeded \<Longrightarrow> doomed q c"
| inherited:
    "q_job q c = Some s \<Longrightarrow> waiting_state s \<Longrightarrow> q_edge q p c = Some (Dep_Succeeded, None) \<Longrightarrow>
     doomed q p \<Longrightarrow> doomed q c"

lemma doomed_waiting: "doomed q c \<Longrightarrow> \<exists>s. q_job q c = Some s \<and> waiting_state s"
  by (induction rule: doomed.induct) auto

lemma waiting_not_terminal: "waiting_state s \<Longrightarrow> \<not> job_state_is_terminal s"
  by (auto simp: waiting_state_def)

lemma resolution_of_violated:
  "resolution_of cond s = Dep_Violated \<longleftrightarrow> cond = Dep_Succeeded \<and> s \<noteq> J_Succeeded"
  by (cases cond) (auto simp: resolution_of_def)

lemma stuck_not_doomed: "doomed q c \<Longrightarrow> stuck q \<Longrightarrow> False"
  by (induction rule: doomed.induct) (auto simp: stuck_def intro: dep_step.intros)

lemma doomed_forward_latch:
  assumes "doomed q c" and "q_edge q p0 c0 = Some (cond, None)" "q_job q p0 = Some t"
    "job_state_is_terminal t"
    and q': "q' = q\<lparr>q_edge := (q_edge q)(p0 := (q_edge q p0)(c0 \<mapsto>
       (cond, Some (resolution_of cond t, t))))\<rparr>"
  shows "doomed q' c"
  using assms(1)
proof (induction rule: doomed.induct)
  case (violated c s p cond' s')
  then show ?case
    using assms by (intro doomed.violated [of _ c s p cond' s']) auto
next
  case (unsuccessful c s p u)
  show ?case
  proof (cases "p = p0 \<and> c = c0")
    case True
    with unsuccessful assms show ?thesis
      by (intro doomed.violated [of _ c s p cond t]) (auto simp: resolution_of_violated)
  next
    case False
    with unsuccessful assms show ?thesis
      by (intro doomed.unsuccessful [of _ c s p u]) auto
  qed
next
  case (inherited c s p)
  have "p \<noteq> p0"
    using doomed_waiting [OF inherited.hyps(4)] assms waiting_not_terminal by auto
  with inherited assms show ?case
    by (intro doomed.inherited [of _ c s p]) auto
qed

lemma doomed_forward_skip:
  assumes "doomed q c" and "q_job q c0 = Some s0" "waiting_state s0"
    and q': "q' = unready c0 (set_job c0 J_Skipped q)"
  shows "doomed q' c \<or> q_job q' c = Some J_Skipped"
  using assms(1)
proof (induction rule: doomed.induct)
  case (violated c s p cond' s')
  then show ?case
    using q' doomed.violated [of q' c s p cond' s'] by (auto simp: q_updates)
next
  case (unsuccessful c s p u)
  moreover have "p \<noteq> c0"
    using unsuccessful assms waiting_not_terminal by auto
  ultimately show ?case
    using q' doomed.unsuccessful [of q' c s p u] by (auto simp: q_updates)
next
  case (inherited c s p)
  then show ?case
    using q' doomed.inherited [of q' c s p] doomed.unsuccessful [of q' c s p J_Skipped]
    by (auto simp: q_updates)
qed

lemma doomed_forward:
  assumes "dep_step q q'" and "doomed q c"
  shows "doomed q' c \<or> q_job q' c = Some J_Skipped"
  using assms by (elim dep_stepE) (metis doomed_forward_latch, metis doomed_forward_skip)

lemma doomed_backward_latch:
  assumes "doomed q' c" and "q_edge q p0 c0 = Some (cond, None)" "q_job q p0 = Some t"
    "job_state_is_terminal t"
    and q': "q' = q\<lparr>q_edge := (q_edge q)(p0 := (q_edge q p0)(c0 \<mapsto>
       (cond, Some (resolution_of cond t, t))))\<rparr>"
  shows "doomed q c"
  using assms(1)
proof (induction rule: doomed.induct)
  case (violated c s p cond' s')
  then show ?case
    using assms doomed.violated [of q c s p cond' s'] doomed.unsuccessful [of q c s p t]
    by (auto simp: resolution_of_violated split: if_splits)
next
  case (unsuccessful c s p u)
  then show ?case
    using assms by (intro doomed.unsuccessful [of _ c s p u]) (auto split: if_splits)
next
  case (inherited c s p)
  then show ?case
    using assms by (intro doomed.inherited [of _ c s p]) (auto split: if_splits)
qed

lemma doomed_backward_skip:
  assumes "doomed q' c" and c0: "doomed q c0"
    and q': "q' = unready c0 (set_job c0 J_Skipped q)"
  shows "doomed q c"
  using assms(1)
proof (induction rule: doomed.induct)
  case (violated c s p cond' s')
  then show ?case
    using q' by (intro doomed.violated [of _ c s p cond' s'])
      (auto simp: q_updates waiting_state_def split: if_splits)
next
  case (unsuccessful c s p u)
  then show ?case
    using q' c0 doomed.inherited [of q c s p] doomed.unsuccessful [of q c s p u]
    by (auto simp: q_updates waiting_state_def split: if_splits)
next
  case (inherited c s p)
  then show ?case
    using q' by (intro doomed.inherited [of _ c s p])
      (auto simp: q_updates waiting_state_def split: if_splits)
qed

lemma doomed_backward:
  assumes "dep_step q q'" and "doomed q' c \<or> q_job q' c = Some J_Skipped"
  shows "doomed q c \<or> q_job q c = Some J_Skipped"
  using assms
proof cases
  case (dep_latch p c0 cond s)
  with assms(2) doomed_backward_latch [of q' c q p c0 cond s] show ?thesis by auto
next
  case (dep_skip c0 s p cond s')
  then have c0: "doomed q c0" by (blast intro: doomed.violated)
  with dep_skip assms(2) doomed_backward_skip [OF _ c0] show ?thesis
    by (auto simp: q_updates split: if_splits)
qed

text \<open>Running the loop to its end skips exactly the doomed jobs.\<close>

lemma skipped_iff_doomed:
  assumes "dep_step\<^sup>*\<^sup>* q q'" and "stuck q'"
  shows "q_job q' c = Some J_Skipped \<longleftrightarrow> q_job q c = Some J_Skipped \<or> doomed q c"
proof -
  have "doomed q' c \<or> q_job q' c = Some J_Skipped \<longleftrightarrow> doomed q c \<or> q_job q c = Some J_Skipped"
    using assms(1)
  proof (induction rule: rtranclp_induct)
    case (step y z)
    have "q_job y c = Some J_Skipped \<Longrightarrow> q_job z c = Some J_Skipped"
      using step.hyps(2) by (elim dep_stepE) (auto simp: q_updates)
    then show ?case
      using step.IH doomed_forward [OF step.hyps(2)] doomed_backward [OF step.hyps(2)] by blast
  qed simp
  then show ?thesis using stuck_not_doomed assms(2) by blast
qed

end
