(* ===== verification/Queue_Tables.thy ===== *)
theory Queue_Tables
  imports Queue
begin

text \<open>
  The tables as a queue. \<open>abs_queue\<close> reads the abstract queue off the database,
  \<open>wf_tables\<close> is the shape of the tables (keys, counters, one lease per attempt, one active
  reservation), and every update of \<open>Database\<close> is shown to keep the shape and to act on the
  abstract queue as one of its updates. The loop of \<open>advance_dependency_graph\<close> is shown to
  be a sequence of \<open>latch\<close>, \<open>skip\<close> and \<open>become_ready\<close> steps that ends in a
  state where none of them is possible.
\<close>

named_theorems abs_simps \<open>table updates as updates of the abstract queue\<close>
named_theorems wf_intros \<open>table updates that keep the shape of the tables\<close>

section \<open>Abstraction\<close>

definition edge_of :: "dependency_row \<Rightarrow> edge" where
  "edge_of d =
     (d_condition d,
      case d_resolution d of None \<Rightarrow> None | Some r \<Rightarrow> map_option (Pair r) (d_parent_outcome d))"

definition edge_row :: "database \<Rightarrow> job_id \<Rightarrow> job_id \<Rightarrow> dependency_row option" where
  "edge_row db p c = List.find (\<lambda>d. d_parent d = p \<and> d_child d = c) (dependencies db)"

definition open_attempts :: "database \<Rightarrow> attempt_id set" where
  "open_attempts db = l_attempt ` set (filter (\<lambda>l. l_released_at l = None) (run_leases db))"

definition protected_job :: "database \<Rightarrow> job_id option" where
  "protected_job db =
     map_option r_job (List.find (\<lambda>r. r_status r = Res_Active) (reservations db))"

definition abs_queue :: "database \<Rightarrow> queue" where
  "abs_queue db =
     \<lparr>q_job = job_state_of db,
      q_ready = (\<lambda>i. Option.bind (job_row db i) j_ready_seq),
      q_seq = ready_sequence db,
      q_edge = (\<lambda>p c. map_option edge_of (edge_row db p c)),
      q_attempt = (\<lambda>a. map_option (\<lambda>r. (a_job r, a_state r)) (attempt_row db a)),
      q_open = open_attempts db,
      q_protected = protected_job db\<rparr>"

lemma abs_queue_sel [simp]:
  "q_job (abs_queue db) = job_state_of db"
  "q_ready (abs_queue db) = (\<lambda>i. Option.bind (job_row db i) j_ready_seq)"
  "q_seq (abs_queue db) = ready_sequence db"
  "q_edge (abs_queue db) = (\<lambda>p c. map_option edge_of (edge_row db p c))"
  "q_attempt (abs_queue db) = (\<lambda>a. map_option (\<lambda>r. (a_job r, a_state r)) (attempt_row db a))"
  "q_open (abs_queue db) = open_attempts db"
  "q_protected (abs_queue db) = protected_job db"
  by (simp_all add: abs_queue_def)

section \<open>Shape of the tables\<close>

definition wf_job_row :: "job_record \<Rightarrow> bool" where
  "wf_job_row j \<longleftrightarrow>
     1 \<le> j_max_parallel_runs j \<and>
     (j_finished_at j \<noteq> None \<longleftrightarrow> job_state_is_terminal (j_state j)) \<and>
     (case j_time_limit_ms j of None \<Rightarrow> True | Some l \<Rightarrow> l > 0)"

definition wf_jobs :: "database \<Rightarrow> bool" where
  "wf_jobs db \<longleftrightarrow> sorted_wrt (<) (map j_id (jobs db)) \<and>
     (\<forall>j\<in>set (jobs db). 0 < j_id j \<and> j_id j \<le> job_seq db \<and> wf_job_row j) \<and> 0 \<le> job_seq db"

definition wf_dependencies :: "database \<Rightarrow> bool" where
  "wf_dependencies db \<longleftrightarrow>
     distinct (map (\<lambda>d. (d_parent d, d_child d)) (dependencies db)) \<and>
     (\<forall>d\<in>set (dependencies db). d_resolution d = None \<longleftrightarrow> d_parent_outcome d = None)"

definition wf_attempts :: "database \<Rightarrow> bool" where
  "wf_attempts db \<longleftrightarrow>
     sorted_wrt (<) (map a_id (attempts db)) \<and>
     distinct (map (\<lambda>a. (a_job a, a_number a)) (attempts db)) \<and>
     (\<forall>a\<in>set (attempts db). a_id a \<le> attempt_seq db) \<and>
     (\<forall>a\<in>set (attempts db). \<forall>j\<in>set (jobs db).
        j_id j = a_job a \<longrightarrow> a_number a \<le> j_attempt_count j)"

definition wf_leases :: "database \<Rightarrow> bool" where
  "wf_leases db \<longleftrightarrow>
     map (\<lambda>l. (l_attempt l, l_job l)) (run_leases db) = map (\<lambda>a. (a_id a, a_job a)) (attempts db)"

definition wf_reservations :: "database \<Rightarrow> bool" where
  "wf_reservations db \<longleftrightarrow>
     distinct (map r_id (reservations db)) \<and>
     (\<forall>r\<in>set (reservations db). r_id r \<le> reservation_seq db) \<and>
     length (filter (\<lambda>r. r_status r = Res_Active) (reservations db)) \<le> 1"

definition wf_tables :: "database \<Rightarrow> bool" where
  "wf_tables db \<longleftrightarrow> wf_jobs db \<and> wf_dependencies db \<and> wf_attempts db \<and> wf_leases db \<and>
     wf_reservations db"

text \<open>The invariant of the database.\<close>

definition wf_db :: "database \<Rightarrow> bool" where
  "wf_db db \<longleftrightarrow> wf_tables db \<and> q_inv (abs_queue db)"

lemmas wf_table_defs = wf_jobs_def wf_dependencies_def wf_attempts_def wf_leases_def
  wf_reservations_def

lemma wf_tables_distinct:
  assumes "wf_tables db"
  shows "distinct (map j_id (jobs db))" "distinct (map a_id (attempts db))"
  using assms strict_sorted_iff by (auto simp: wf_tables_def wf_jobs_def wf_attempts_def)

lemma wf_empty: "wf_db empty_db"
proof -
  have "abs_queue empty_db = q_empty"
    by (simp add: abs_queue_def q_empty_def empty_db_def fun_eq_iff job_state_of_def job_row_def
        edge_row_def attempt_row_def open_attempts_def protected_job_def)
  then show ?thesis
    using q_inv_empty by (simp add: wf_db_def wf_tables_def wf_table_defs empty_db_def)
qed

section \<open>Generic updates\<close>

lemma wf_update_job [wf_intros]:
  assumes wf: "wf_tables db"
    and f: "\<And>j. j_id (f j) = j_id j"
      "\<And>j. job_row db i = Some j \<Longrightarrow> j_attempt_count j \<le> j_attempt_count (f j)"
      "\<And>j. job_row db i = Some j \<Longrightarrow> wf_job_row j \<Longrightarrow> wf_job_row (f j)"
  shows "wf_tables (update_job i f db)"
proof -
  have ids: "map j_id (jobs (update_job i f db)) = map j_id (jobs db)"
    by (rule job_table.keys_update) (rule f)
  have rows: "\<exists>k\<in>set (jobs db). j = k \<or> j = f k \<and> job_row db i = Some k"
    if "j \<in> set (jobs (update_job i f db))" for j
    using that job_table.lookup_unique [OF wf_tables_distinct(1) [OF wf]]
    by (auto simp: job_table.mem_update split: if_splits)
  have "wf_jobs (update_job i f db)"
    unfolding wf_jobs_def ids using wf f by (auto simp: wf_tables_def wf_jobs_def dest!: rows)
  moreover have "wf_attempts (update_job i f db)"
    using wf f unfolding wf_tables_def wf_attempts_def
    by (auto dest!: rows) (metis order_trans)
  ultimately show ?thesis
    using wf by (simp add: wf_tables_def wf_table_defs)
qed

lemma wf_update_attempts:
  assumes wf: "wf_tables db"
    and f: "\<And>r. a_id (f r) = a_id r" "\<And>r. a_job (f r) = a_job r" "\<And>r. a_number (f r) = a_number r"
  shows "wf_tables (db\<lparr>attempts := update_where P f (attempts db)\<rparr>)"
proof -
  have "wf_attempts (db\<lparr>attempts := update_where P f (attempts db)\<rparr>)"
    using wf f by (auto simp: wf_tables_def wf_attempts_def map_update_where dest!: update_where_mem)
  then show ?thesis
    using wf f by (simp add: wf_tables_def wf_table_defs map_update_where)
qed

lemma wf_update_attempt [wf_intros]:
  assumes "wf_tables db"
    and "\<And>r. a_id (f r) = a_id r" "\<And>r. a_job (f r) = a_job r" "\<And>r. a_number (f r) = a_number r"
  shows "wf_tables (update_attempt i f db)"
  unfolding update_attempt_def by (rule wf_update_attempts) (use assms in auto)

lemma wf_update_lease [wf_intros]:
  assumes "wf_tables db"
    and "\<And>l. l_attempt (f l) = l_attempt l" "\<And>l. l_job (f l) = l_job l"
  shows "wf_tables (update_lease i f db)"
  using assms by (simp add: wf_tables_def wf_table_defs update_lease_def map_update_where)

lemma wf_frame:
  assumes "wf_tables db"
    and "jobs db' = jobs db" "dependencies db' = dependencies db" "attempts db' = attempts db"
      "run_leases db' = run_leases db" "reservations db' = reservations db"
      "job_seq db' = job_seq db" "attempt_seq db' = attempt_seq db"
      "reservation_seq db' = reservation_seq db"
  shows "wf_tables db'"
  using assms by (simp add: wf_tables_def wf_table_defs)

lemma abs_frame:
  assumes "jobs db' = jobs db" "dependencies db' = dependencies db" "attempts db' = attempts db"
      "run_leases db' = run_leases db" "reservations db' = reservations db"
      "ready_sequence db' = ready_sequence db"
  shows "abs_queue db' = abs_queue db"
  using assms
  by (simp add: abs_queue_def job_state_of_def job_row_def edge_row_def attempt_row_def
      open_attempts_def protected_job_def fun_eq_iff)

lemma job_state_of_update_job:
  assumes "\<And>j. j_id (f j) = j_id j"
  shows "job_state_of (update_job i f db) =
    (job_state_of db)(i := map_option (\<lambda>j. j_state (f j)) (job_row db i))"
  by (auto simp: job_state_of_def job_table.lookup_update assms fun_eq_iff option.map_comp o_def)

lemma abs_update_job:
  assumes "\<And>j. j_id (f j) = j_id j"
  shows "abs_queue (update_job i f db) = (abs_queue db)
    \<lparr>q_job := (job_state_of db)(i := map_option (\<lambda>j. j_state (f j)) (job_row db i)),
     q_ready := (q_ready (abs_queue db))(i := Option.bind (job_row db i) (\<lambda>j. j_ready_seq (f j)))\<rparr>"
  by (simp add: abs_queue_def job_state_of_update_job assms edge_row_def attempt_row_def
      open_attempts_def protected_job_def fun_eq_iff job_table.lookup_update)
    (cases "job_row db i"; simp)

lemma abs_update_job_same:
  assumes "\<And>j. j_id (f j) = j_id j" "\<And>j. j_state (f j) = j_state j" "\<And>j. j_ready_seq (f j) = j_ready_seq j"
  shows "abs_queue (update_job i f db) = abs_queue db"
  by (rule queue.equality)
    (auto simp: abs_update_job assms job_state_of_def fun_eq_iff)

lemma abs_update_attempt:
  assumes "\<And>r. a_id (f r) = a_id r" "\<And>r. a_job (f r) = a_job r"
  shows "abs_queue (update_attempt a f db) = (abs_queue db)
    \<lparr>q_attempt := (q_attempt (abs_queue db))
       (a := map_option (\<lambda>r. (a_job r, a_state (f r))) (attempt_row db a))\<rparr>"
  by (auto simp: abs_queue_def job_state_of_def job_row_def edge_row_def open_attempts_def
      protected_job_def fun_eq_iff attempt_table.lookup_update assms option.map_comp o_def)

lemma abs_update_attempt_same:
  assumes "\<And>r. a_id (f r) = a_id r" "\<And>r. a_job (f r) = a_job r" "\<And>r. a_state (f r) = a_state r"
  shows "abs_queue (update_attempt a f db) = abs_queue db"
  by (rule queue.equality) (auto simp: abs_update_attempt assms fun_eq_iff)

section \<open>The updates of the job table\<close>

lemma wf_job_updates [wf_intros]:
  assumes "wf_tables db"
  shows "wf_tables (update_job_state i s reason now db)"
    and "wf_tables (set_job_retry_not_before i at now db)"
    and "wf_tables (clear_job_readiness i now db)"
    and "wf_tables (set_job_priority i v now db)"
    and "wf_tables (set_job_context i ctx db)"
  unfolding update_job_state_def set_job_retry_not_before_def clear_job_readiness_def
    set_job_priority_def set_job_context_def
  by (intro wf_update_job assms; simp add: wf_job_row_def)+

lemma wf_set_job_max_parallel_runs:
  "wf_tables db \<Longrightarrow> set_job_max_parallel_runs i v now db = Inr db' \<Longrightarrow> wf_tables db'"
  by (auto simp: set_job_max_parallel_runs_def result_eqs wf_job_row_def intro!: wf_update_job)

lemma wf_set_job_time_limit:
  "wf_tables db \<Longrightarrow> set_job_time_limit i v now db = Inr db' \<Longrightarrow> wf_tables db'"
  by (auto simp: set_job_time_limit_def result_eqs wf_job_row_def split: option.splits
      intro!: wf_update_job)

lemma wf_append_event [wf_intros]: "wf_tables db \<Longrightarrow> wf_tables (append_event now ji ai ty ac de db)"
  by (erule wf_frame) simp_all

lemma abs_append_event [abs_simps]: "abs_queue (append_event now ji ai ty ac de db) = abs_queue db"
  by (rule abs_frame) simp_all

lemma abs_job_updates [abs_simps]:
  "abs_queue (set_job_retry_not_before i at now db) = abs_queue db"
  "abs_queue (set_job_priority i v now db) = abs_queue db"
  "abs_queue (set_job_context i ctx db) = abs_queue db"
  unfolding set_job_retry_not_before_def set_job_priority_def set_job_context_def
  by (rule abs_update_job_same; simp)+

lemma abs_set_job_max_parallel_runs:
  "set_job_max_parallel_runs i v now db = Inr db' \<Longrightarrow> abs_queue db' = abs_queue db"
  by (auto simp: set_job_max_parallel_runs_def result_eqs intro!: abs_update_job_same)

lemma abs_set_job_time_limit:
  "set_job_time_limit i v now db = Inr db' \<Longrightarrow> abs_queue db' = abs_queue db"
  by (auto simp: set_job_time_limit_def result_eqs intro!: abs_update_job_same)

lemma abs_update_job_state [abs_simps]:
  assumes "job_state_of db i \<noteq> None"
  shows "abs_queue (update_job_state i s reason now db) = set_job i s (abs_queue db)"
proof (rule queue.equality)
  show "q_job (abs_queue (update_job_state i s reason now db)) = q_job (set_job i s (abs_queue db))"
    using assms by (auto simp: update_job_state_def abs_update_job set_job_def job_state_of_def)
qed (auto simp: update_job_state_def abs_update_job set_job_def fun_eq_iff)

lemma abs_clear_job_readiness [abs_simps]:
  "abs_queue (clear_job_readiness i now db) = unready i (abs_queue db)"
  by (rule queue.equality)
    (auto simp: clear_job_readiness_def abs_update_job unready_def job_state_of_def fun_eq_iff
      split: option.splits)

lemma job_state_of_updates [simp]:
  "job_state_of (append_event now ji ai ty ac de db) = job_state_of db"
  "job_state_of (set_job_retry_not_before i at now db) = job_state_of db"
  "job_state_of (clear_job_readiness i now db) = job_state_of db"
  by (auto simp: set_job_retry_not_before_def clear_job_readiness_def job_state_of_update_job
      fun_eq_iff job_state_of_def job_row_def)

lemma job_state_of_update_job_state [simp]:
  "job_state_of (update_job_state i s reason now db) =
    (if job_state_of db i = None then job_state_of db else (job_state_of db)(i \<mapsto> s))"
  by (auto simp: update_job_state_def job_state_of_update_job job_state_of_def fun_eq_iff)

section \<open>The updates of the attempt and lease tables\<close>

lemma wf_attempt_updates [wf_intros]:
  assumes "wf_tables db"
  shows "wf_tables (set_attempt_runner_identity a pid st boot db)"
    and "wf_tables (set_attempt_authorized a now db)"
    and "wf_tables (set_attempt_running a p g s c now db)"
    and "wf_tables (set_attempt_timed_out a dl db)"
    and "wf_tables (set_attempt_state a s' msg db)"
    and "wf_tables (finalize_attempt a s'' ec ts msg now db)"
    and "wf_tables (set_attempt_yield_requested a reason hold now db)"
    and "wf_tables (set_attempt_yield_delivered a at db)"
    and "wf_tables (set_attempt_cancel_requested a force now db)"
    and "wf_tables (release_lease a now db)"
  unfolding set_attempt_runner_identity_def set_attempt_authorized_def set_attempt_running_def
    set_attempt_timed_out_def set_attempt_state_def finalize_attempt_def
    set_attempt_yield_requested_def set_attempt_yield_delivered_def
    set_attempt_cancel_requested_def release_lease_def
  by (intro wf_update_attempt wf_update_lease assms; simp)+

lemma abs_attempt_updates [abs_simps]:
  "abs_queue (set_attempt_runner_identity a pid st boot db) = abs_queue db"
  "abs_queue (set_attempt_timed_out a dl db) = abs_queue db"
  "abs_queue (set_attempt_yield_requested a reason hold now db) = abs_queue db"
  "abs_queue (set_attempt_yield_delivered a at db) = abs_queue db"
  "abs_queue (set_attempt_cancel_requested a force now db) = abs_queue db"
  unfolding set_attempt_runner_identity_def set_attempt_timed_out_def
    set_attempt_yield_requested_def set_attempt_yield_delivered_def
    set_attempt_cancel_requested_def
  by (rule abs_update_attempt_same; simp)+

lemma abs_attempt_state_updates [abs_simps]:
  assumes "attempt_row db a = Some r"
  shows "abs_queue (set_attempt_authorized a now db) = set_attempt a (a_job r) A_Authorized (abs_queue db)"
    and "abs_queue (set_attempt_running a p g st c now db) = set_attempt a (a_job r) A_Running (abs_queue db)"
    and "abs_queue (set_attempt_state a s msg db) = set_attempt a (a_job r) s (abs_queue db)"
    and "abs_queue (finalize_attempt a s ec ts msg now db) = set_attempt a (a_job r) s (abs_queue db)"
  unfolding set_attempt_authorized_def set_attempt_running_def set_attempt_state_def
    finalize_attempt_def
  by (simp_all add: abs_update_attempt assms set_attempt_def)

lemma attempt_row_updates [simp]:
  "attempt_row (append_event now ji ai ty ac de db) = attempt_row db"
  "attempt_row (release_lease a now db) = attempt_row db"
  "attempt_row (update_job_state i s reason now db) = attempt_row db"
  by (auto simp: attempt_row_def release_lease_def update_job_state_def fun_eq_iff)

lemma job_row_attempt_updates [simp]:
  "job_row (append_event now ji ai ty ac de db) = job_row db"
  "job_row (update_attempt a f db) = job_row db"
  "job_row (update_lease a g db) = job_row db"
  by (auto simp: job_row_def fun_eq_iff)

lemma job_state_of_attempt_updates [simp]:
  "job_state_of (update_attempt a f db) = job_state_of db"
  "job_state_of (update_lease a g db) = job_state_of db"
  by (auto simp: job_state_of_def fun_eq_iff)

lemma job_row_attempt_ops [simp]:
  "job_row (release_lease a now db) = job_row db"
  "job_row (finalize_attempt a s ec ts msg now db) = job_row db"
  "job_row (set_attempt_state a s msg db) = job_row db"
  "job_row (set_attempt_running a p g st c now db) = job_row db"
  "job_row (set_attempt_authorized a now db) = job_row db"
  "job_row (set_attempt_runner_identity a pid st boot db) = job_row db"
  by (simp_all add: release_lease_def finalize_attempt_def set_attempt_state_def
      set_attempt_running_def set_attempt_authorized_def set_attempt_runner_identity_def)

lemma job_state_of_attempt_ops [simp]:
  "job_state_of (release_lease a now db) = job_state_of db"
  "job_state_of (finalize_attempt a s ec ts msg now db) = job_state_of db"
  "job_state_of (set_attempt_state a s msg db) = job_state_of db"
  "job_state_of (set_attempt_running a p g st c now db) = job_state_of db"
  "job_state_of (set_attempt_authorized a now db) = job_state_of db"
  "job_state_of (set_attempt_runner_identity a pid st boot db) = job_state_of db"
  by (simp_all add: job_state_of_def fun_eq_iff)

lemma open_attempts_release:
  "open_attempts (release_lease a now db) = open_attempts db - {a}"
proof -
  have "l_attempt ` set (filter (\<lambda>l. l_released_at l = None)
        (update_where (\<lambda>l. l_attempt l = a \<and> l_released_at l = None)
          (\<lambda>l. l\<lparr>l_released_at := Some now\<rparr>) ls)) =
      l_attempt ` set (filter (\<lambda>l. l_released_at l = None) ls) - {a}" for ls
    by (induction ls) (auto simp: update_where_def)
  then show ?thesis
    by (simp add: open_attempts_def release_lease_def update_lease_def)
qed

lemma abs_release_lease [abs_simps]:
  "abs_queue (release_lease a now db) = (abs_queue db)\<lparr>q_open := q_open (abs_queue db) - {a}\<rparr>"
proof -
  have "open_attempts (release_lease a now db) = open_attempts db - {a}"
    by (rule open_attempts_release)
  then show ?thesis
    by (simp add: abs_queue_def job_state_of_def job_row_def edge_row_def attempt_row_def
        protected_job_def release_lease_def fun_eq_iff)
qed

section \<open>Prerequisite edges\<close>

definition edge_key :: "dependency_row \<Rightarrow> job_id \<times> job_id" where
  "edge_key d = (d_parent d, d_child d)"

definition update_edge ::
  "job_id \<times> job_id \<Rightarrow> (dependency_row \<Rightarrow> dependency_row) \<Rightarrow> database \<Rightarrow> database" where
  "update_edge k f db = db\<lparr>dependencies := update_where (\<lambda>d. edge_key d = k) f (dependencies db)\<rparr>"

interpretation edge_table: row_table dependencies edge_key "\<lambda>db k. edge_row db (fst k) (snd k)" update_edge
proof
  show "edge_row db (fst k) (snd k) = List.find (\<lambda>d. edge_key d = k) (dependencies db)" for db k
    unfolding edge_row_def by (rule arg_cong [of _ _ "\<lambda>P. List.find P (dependencies db)"])
      (auto simp: edge_key_def fun_eq_iff)
qed (simp add: update_edge_def update_where_def)

lemma edge_row_mem:
  assumes "edge_row db p c = Some d"
  shows "d \<in> set (dependencies db)" "d_parent d = p" "d_child d = c"
  using edge_table.lookup_Some [of db "(p, c)" d] assms by (auto simp: edge_key_def)

lemma edge_row_iff:
  assumes "wf_tables db"
  shows "edge_row db p c = Some d \<longleftrightarrow> d \<in> set (dependencies db) \<and> d_parent d = p \<and> d_child d = c"
proof -
  have "distinct (map edge_key (dependencies db))"
    using assms by (simp add: wf_tables_def wf_dependencies_def edge_key_def [abs_def])
  from edge_table.lookup_unique_iff [OF this, of "(p, c)" d] show ?thesis
    by (auto simp: edge_key_def)
qed

definition latch_row :: "millis \<Rightarrow> dependency_condition \<Rightarrow> job_state \<Rightarrow> dependency_row \<Rightarrow> dependency_row" where
  "latch_row now cond s d =
     (if d_resolution d = None
      then d\<lparr>d_resolution := Some (resolution_of cond s), d_parent_outcome := Some s,
             d_resolved_at := Some now\<rparr>
      else d)"

lemma latch_edge_update: "latch_edge now (p, c, cond, s) db = update_edge (p, c) (latch_row now cond s) db"
  by (simp add: latch_edge_def update_edge_def update_where_def latch_row_def edge_key_def)

lemma edge_key_latch_row [simp]: "edge_key (latch_row now cond s d) = edge_key d"
  by (simp add: edge_key_def latch_row_def)

lemma edge_row_latch_edge:
  "edge_row (latch_edge now (p, c, cond, s) db) p' c' =
     (if p' = p \<and> c' = c then map_option (latch_row now cond s) (edge_row db p c)
      else edge_row db p' c')"
  using edge_table.lookup_update [of "latch_row now cond s" "(p, c)" db "(p', c')"]
  by (auto simp: latch_edge_update)

lemma latch_edge_frame [simp]:
  "attempts (latch_edge now e db) = attempts db" "run_leases (latch_edge now e db) = run_leases db"
  "reservations (latch_edge now e db) = reservations db"
  "ready_sequence (latch_edge now e db) = ready_sequence db"
  "job_seq (latch_edge now e db) = job_seq db" "attempt_seq (latch_edge now e db) = attempt_seq db"
  "reservation_seq (latch_edge now e db) = reservation_seq db"
  by (simp_all add: latch_edge_def split: prod.splits)

lemma wf_latch_edge [wf_intros]:
  assumes "wf_tables db"
  shows "wf_tables (latch_edge now e db)"
proof -
  obtain p c cond s where e: "e = (p, c, cond, s)" by (cases e)
  have "wf_dependencies (latch_edge now e db)"
    using assms
    by (auto simp: e latch_edge_update update_edge_def map_update_where wf_tables_def
        wf_dependencies_def latch_row_def dest!: update_where_mem split: if_splits)
  then show ?thesis using assms by (simp add: wf_tables_def wf_table_defs)
qed

lemma job_state_of_latch_edge [simp]: "job_state_of (latch_edge now e db) = job_state_of db"
  by (simp add: job_state_of_def job_row_def fun_eq_iff)

lemma abs_latch_edge:
  assumes "edge_row db p c = Some d" and "d_resolution d = None" and "d_condition d = cond"
  shows "abs_queue (latch_edge now (p, c, cond, s) db) = (abs_queue db)
    \<lparr>q_edge := (q_edge (abs_queue db))(p := (q_edge (abs_queue db) p)(c \<mapsto>
       (cond, Some (resolution_of cond s, s))))\<rparr>"
proof (rule queue.equality)
  show "q_edge (abs_queue (latch_edge now (p, c, cond, s) db)) = q_edge ((abs_queue db)
    \<lparr>q_edge := (q_edge (abs_queue db))(p := (q_edge (abs_queue db) p)(c \<mapsto>
       (cond, Some (resolution_of cond s, s))))\<rparr>)"
    using assms by (auto simp: edge_row_latch_edge latch_row_def edge_of_def fun_eq_iff)
qed (simp_all add: job_row_def attempt_row_def open_attempts_def protected_job_def fun_eq_iff)

lemma unresolved_finished_mem:
  assumes "wf_tables db"
  shows "(p, c, cond, s) \<in> set (unresolved_finished db) \<longleftrightarrow>
    (\<exists>d. edge_row db p c = Some d \<and> d_resolution d = None \<and> d_condition d = cond \<and>
      job_state_of db p = Some s \<and> job_state_is_terminal s)"
  by (auto simp: unresolved_finished_def set_map_filter edge_row_iff [OF assms]
      split: option.splits if_splits)


lemma distinct_unresolved_finished:
  assumes "wf_tables db"
  shows "distinct (map (\<lambda>(p, c, cond, s). (p, c)) (unresolved_finished db))"
  unfolding unresolved_finished_def
proof (rule distinct_map_filter_key)
  show "distinct (map (\<lambda>d. (d_parent d, d_child d))
      (order_by (\<lambda>a b. pair_before (d_parent a, d_child a) (d_parent b, d_child b))
        (filter (\<lambda>d. d_resolution d = None) (dependencies db))))"
    using assms by (simp add: distinct_order_by wf_tables_def wf_dependencies_def distinct_map_filter)
qed (auto split: option.splits if_splits)

section \<open>The dependency loop\<close>

lemma latch_edges_steps:
  assumes "distinct (map (\<lambda>(p, c, cond, s). (p, c)) es)"
    and "\<And>p c cond s. (p, c, cond, s) \<in> set es \<Longrightarrow>
      (\<exists>d. edge_row db p c = Some d \<and> d_resolution d = None \<and> d_condition d = cond) \<and>
      job_state_of db p = Some s \<and> job_state_is_terminal s"
  shows "dep_step\<^sup>*\<^sup>* (abs_queue db) (abs_queue (fold (latch_edge now) es db))"
  using assms
proof (induction es arbitrary: db)
  case (Cons e es)
  obtain p c cond s where e: "e = (p, c, cond, s)" by (cases e)
  from Cons.prems(2) [of p c cond s] obtain d where
    d: "edge_row db p c = Some d" "d_resolution d = None" "d_condition d = cond"
      "job_state_of db p = Some s" "job_state_is_terminal s"
    by (auto simp: e)
  have "dep_step (abs_queue db) (abs_queue (latch_edge now e db))"
    unfolding e abs_latch_edge [OF d(1-3)]
    using d by (intro dep_latch) (auto simp: edge_of_def)
  moreover have "dep_step\<^sup>*\<^sup>* (abs_queue (latch_edge now e db))
      (abs_queue (fold (latch_edge now) es (latch_edge now e db)))"
  proof (rule Cons.IH)
    fix p' c' cond' s' assume mem: "(p', c', cond', s') \<in> set es"
    then have "(p', c') \<noteq> (p, c)"
      using Cons.prems(1) by (force simp: e image_iff)
    then show "(\<exists>d. edge_row (latch_edge now e db) p' c' = Some d \<and> d_resolution d = None \<and>
        d_condition d = cond') \<and>
        job_state_of (latch_edge now e db) p' = Some s' \<and> job_state_is_terminal s'"
      using Cons.prems(2) [of p' c' cond' s'] mem by (auto simp: e edge_row_latch_edge)
  qed (use Cons.prems(1) in simp)
  ultimately show ?case by simp
qed simp

lemma wf_latch_outcomes: "wf_tables db \<Longrightarrow> wf_tables (latch_outcomes now db)"
proof -
  have "wf_tables db \<Longrightarrow> wf_tables (fold (latch_edge now) es db)" for es
    by (induction es arbitrary: db) (simp_all add: wf_latch_edge)
  then show "wf_tables db \<Longrightarrow> ?thesis" by (simp add: latch_outcomes_def)
qed

lemma latch_outcomes_steps:
  "wf_tables db \<Longrightarrow> dep_step\<^sup>*\<^sup>* (abs_queue db) (abs_queue (latch_outcomes now db))"
  unfolding latch_outcomes_def
  by (rule latch_edges_steps) (auto simp: distinct_unresolved_finished unresolved_finished_mem)

lemma edge_row_latch_edges:
  assumes "edge_row db p c = Some d"
  shows "\<exists>d'. edge_row (fold (latch_edge now) es db) p c = Some d' \<and>
    ((\<exists>cond s. (p, c, cond, s) \<in> set es) \<longrightarrow> d_resolution d' \<noteq> None) \<and>
    (d_resolution d \<noteq> None \<longrightarrow> d_resolution d' \<noteq> None)"
  using assms
proof (induction es arbitrary: db d)
  case (Cons e es)
  obtain p' c' cond s where e: "e = (p', c', cond, s)" by (cases e)
  let ?d = "if p' = p \<and> c' = c then latch_row now cond s d else d"
  have row: "edge_row (latch_edge now e db) p c = Some ?d"
    using Cons.prems by (auto simp: e edge_row_latch_edge)
  have "d_resolution (latch_row now cond s d) \<noteq> None"
    by (simp add: latch_row_def)
  then show ?case
    using Cons.IH [OF row] by (auto simp: e split: if_splits)
qed simp

lemma latch_outcomes_complete:
  assumes wf: "wf_tables db" and "edge_row (latch_outcomes now db) p c = Some d"
    and "d_resolution d = None" and "job_state_of db p = Some s"
  shows "\<not> job_state_is_terminal s"
proof
  assume terminal: "job_state_is_terminal s"
  have "\<exists>d0. edge_row db p c = Some d0"
  proof (cases "edge_row db p c")
    case None
    have "edge_row (fold (latch_edge now) es db) p c = None" for es
      using None
    proof (induction es arbitrary: db)
      case (Cons e es)
      then have "edge_row (latch_edge now e db) p c = None"
        by (cases e) (auto simp: edge_row_latch_edge)
      then show ?case by (simp add: Cons.IH)
    qed simp
    then show ?thesis using assms(2) by (simp add: latch_outcomes_def)
  qed simp
  then obtain d0 where d0: "edge_row db p c = Some d0" by blast
  from edge_row_latch_edges [OF this, of now "unresolved_finished db"] assms(2,3)
  have "d_resolution d0 = None" "\<not> (\<exists>cond s. (p, c, cond, s) \<in> set (unresolved_finished db))"
    by (auto simp: latch_outcomes_def)
  with d0 terminal assms(4) show False
    by (auto simp: unresolved_finished_mem [OF wf])
qed

lemma skip_child_frame [simp]:
  "dependencies (skip_child now cp db) = dependencies db"
  "edge_row (skip_child now cp db) = edge_row db"
  by (simp_all add: skip_child_def clear_job_readiness_def update_job_state_def edge_row_def
      fun_eq_iff split: prod.splits)

lemma wf_skip_child [wf_intros]: "wf_tables db \<Longrightarrow> wf_tables (skip_child now cp db)"
  by (simp add: skip_child_def wf_append_event wf_job_updates split: prod.splits)

lemma abs_skip_child:
  "job_state_of db (fst cp) \<noteq> None \<Longrightarrow>
     abs_queue (skip_child now cp db) = unready (fst cp) (set_job (fst cp) J_Skipped (abs_queue db))"
  by (cases cp) (simp add: skip_child_def abs_simps)

lemma job_state_of_skip_child:
  "i \<noteq> fst cp \<Longrightarrow> job_state_of (skip_child now cp db) i = job_state_of db i"
  by (cases cp) (simp add: skip_child_def)

lemma skip_children_steps:
  assumes "distinct (map fst cps)"
    and "\<And>c. c \<in> fst ` set cps \<Longrightarrow>
      (\<exists>s. job_state_of db c = Some s \<and> waiting_state s) \<and>
      (\<exists>p d s'. edge_row db p c = Some d \<and> snd (edge_of d) = Some (Dep_Violated, s'))"
  shows "dep_step\<^sup>*\<^sup>* (abs_queue db) (abs_queue (fold (skip_child now) cps db))"
  using assms
proof (induction cps arbitrary: db)
  case (Cons cp cps)
  from Cons.prems(2) [of "fst cp"] obtain s p d s' where
    s: "job_state_of db (fst cp) = Some s" "waiting_state s"
    and d: "edge_row db p (fst cp) = Some d" "snd (edge_of d) = Some (Dep_Violated, s')"
    by auto
  have "dep_step (abs_queue db) (abs_queue (skip_child now cp db))"
    using s d by (subst abs_skip_child) (auto intro!: dep_skip [of _ _ s p "fst (edge_of d)" s'] simp: prod_eq_iff)
  moreover have "dep_step\<^sup>*\<^sup>* (abs_queue (skip_child now cp db))
      (abs_queue (fold (skip_child now) cps (skip_child now cp db)))"
  proof (rule Cons.IH)
    fix c assume c: "c \<in> fst ` set cps"
    moreover have "fst cp \<notin> fst ` set cps" using Cons.prems(1) by simp
    ultimately have "c \<noteq> fst cp" by blast
    with Cons.prems(2) [of c] c
    show "(\<exists>s. job_state_of (skip_child now cp db) c = Some s \<and> waiting_state s) \<and>
      (\<exists>p d s'. edge_row (skip_child now cp db) p c = Some d \<and> snd (edge_of d) = Some (Dep_Violated, s'))"
      by (simp add: job_state_of_skip_child)
  qed (use Cons.prems(1) in simp)
  ultimately show ?case by simp
qed simp

lemma sorted_group_by_child: "sorted_wrt (<) (map fst (group_by_child pairs))"
proof -
  have "sorted_wrt (<) (map fst m0) \<Longrightarrow>
    sorted_wrt (<) (map fst (fold (\<lambda>(child, parent) m. btree_insert (<) child
        ((case map_of m child of None \<Rightarrow> [] | Some ps \<Rightarrow> ps) @ [parent]) m) pairs m0))" for m0
    by (induction pairs arbitrary: m0) (auto simp: sorted_btree_insert)
  then show ?thesis by (simp add: group_by_child_def)
qed

lemma violated_waiting_mem:
  assumes "wf_tables db"
  shows "(c, p) \<in> set (violated_waiting db) \<longleftrightarrow>
    (\<exists>d s. edge_row db p c = Some d \<and> d_resolution d = Some Dep_Violated \<and>
      job_state_of db c = Some s \<and> waiting_state s)"
  by (auto simp: violated_waiting_def edge_row_iff [OF assms] split: option.splits)

lemma edge_of_resolved:
  assumes "wf_tables db" and "edge_row db p c = Some d"
  shows "snd (edge_of d) = None \<longleftrightarrow> d_resolution d = None"
    and "d_resolution d = Some r \<longleftrightarrow> (\<exists>s. snd (edge_of d) = Some (r, s))"
  using assms edge_row_mem(1) [OF assms(2)]
  by (auto simp: edge_of_def wf_tables_def wf_dependencies_def split: option.splits)

lemma skip_violated_steps:
  assumes "wf_tables db"
  shows "dep_step\<^sup>*\<^sup>* (abs_queue db) (abs_queue (skip_violated now db))"
    and "wf_tables (skip_violated now db)"
proof -
  show "dep_step\<^sup>*\<^sup>* (abs_queue db) (abs_queue (skip_violated now db))"
    unfolding skip_violated_def
  proof (rule skip_children_steps)
    show "distinct (map fst (group_by_child (violated_waiting db)))"
      using sorted_group_by_child strict_sorted_iff by blast
    fix c assume "c \<in> fst ` set (group_by_child (violated_waiting db))"
    then obtain p where "(c, p) \<in> set (violated_waiting db)"
      by (auto simp: keys_group_by_child)
    then obtain d s where d: "edge_row db p c = Some d" "d_resolution d = Some Dep_Violated"
      and "job_state_of db c = Some s" "waiting_state s"
      by (auto simp: violated_waiting_mem [OF assms])
    then show "(\<exists>s. job_state_of db c = Some s \<and> waiting_state s) \<and>
      (\<exists>p d s'. edge_row db p c = Some d \<and> snd (edge_of d) = Some (Dep_Violated, s'))"
      using edge_of_resolved(2) [OF assms d(1)] by blast
  qed
  have "wf_tables (fold (skip_child now) cps db)" for cps
    using assms by (induction cps arbitrary: db) (simp_all add: wf_skip_child)
  then show "wf_tables (skip_violated now db)"
    by (simp add: skip_violated_def)
qed

text \<open>The loop keeps the shape, refines the propagation steps, and stops where none is left.\<close>

lemma advance_loop_refines:
  assumes "wf_tables db"
  shows "wf_tables (advance_loop now db) \<and>
    dep_step\<^sup>*\<^sup>* (abs_queue db) (abs_queue (advance_loop now db)) \<and>
    stuck (abs_queue (advance_loop now db))"
  using assms
proof (induction now db rule: advance_loop.induct)
  case (1 now db)
  let ?db1 = "latch_outcomes now db"
  have wf1: "wf_tables ?db1" and steps1: "dep_step\<^sup>*\<^sup>* (abs_queue db) (abs_queue ?db1)"
    using 1(2) by (simp_all add: wf_latch_outcomes latch_outcomes_steps)
  show ?case
  proof (cases "violated_waiting ?db1 = []")
    case True
    have "job_state_of ?db1 = job_state_of db"
      by (simp add: job_state_of_def job_row_def fun_eq_iff)
    then have latched: "\<not> job_state_is_terminal s"
      if "edge_row ?db1 p c = Some d" "snd (edge_of d) = None" "job_state_of ?db1 p = Some s" for p c d s
      using latch_outcomes_complete [OF 1(2)] that edge_of_resolved(1) [OF wf1] by auto
    have "\<not> waiting_state s"
      if "edge_row ?db1 p c = Some d" "edge_of d = (cond, Some (Dep_Violated, s'))"
        "job_state_of ?db1 c = Some s" for p c d s cond s'
    proof -
      have "(c, p) \<notin> set (violated_waiting ?db1)" using True by simp
      then show ?thesis
        using that edge_of_resolved(2) [OF wf1 that(1)] by (auto simp: violated_waiting_mem [OF wf1])
    qed
    then have "stuck (abs_queue ?db1)"
      using latched unfolding stuck_def
      by (auto elim!: dep_stepE)
    then show ?thesis
      using True wf1 steps1 by (simp add: advance_loop.simps [of now db] Let_def)
  next
    case False
    then have "advance_loop now db = advance_loop now (skip_violated now ?db1)"
      by (simp add: advance_loop.simps [of now db] Let_def)
    then show ?thesis
      using 1(1) [OF refl False] skip_violated_steps [OF wf1] steps1
      by (metis rtranclp_trans)
  qed
qed

section \<open>Readiness\<close>

lemma make_ready_frame [simp]:
  "dependencies (make_ready now i db) = dependencies db"
  "attempts (make_ready now i db) = attempts db"
  "run_leases (make_ready now i db) = run_leases db"
  "reservations (make_ready now i db) = reservations db"
  "backfills (make_ready now i db) = backfills db"
  "operations (make_ready now i db) = operations db"
  "ready_sequence (make_ready now i db) = ready_sequence db + 1"
  "job_seq (make_ready now i db) = job_seq db"
  "attempt_seq (make_ready now i db) = attempt_seq db"
  "reservation_seq (make_ready now i db) = reservation_seq db"
  "db_paused (make_ready now i db) = db_paused db"
  by (simp_all add: make_ready_def assign_next_ready_seq_def Let_def)

definition ready_row :: "millis \<Rightarrow> int \<Rightarrow> job_record \<Rightarrow> job_record" where
  "ready_row now seq j =
     (if j_ready_seq j = None then j\<lparr>j_ready_seq := Some seq, j_updated_at := now\<rparr> else j)"

lemma ready_row_sel [simp]:
  "j_id (ready_row now seq j) = j_id j" "j_state (ready_row now seq j) = j_state j"
  "j_attempt_count (ready_row now seq j) = j_attempt_count j"
  "j_priority (ready_row now seq j) = j_priority j"
  "j_retry_not_before (ready_row now seq j) = j_retry_not_before j"
  by (simp_all add: ready_row_def)

lemma assign_next_ready_seq_update:
  "assign_next_ready_seq i now db =
     (ready_sequence db + 1,
      update_job i (ready_row now (ready_sequence db + 1)) (db\<lparr>ready_sequence := ready_sequence db + 1\<rparr>))"
  by (simp add: assign_next_ready_seq_def max_ready_seq_def Let_def ready_row_def [abs_def] cong: if_cong)

lemma wf_assign_next_ready_seq:
  assumes "wf_tables db"
  shows "wf_tables (snd (assign_next_ready_seq i now db))"
proof -
  have "wf_tables (db\<lparr>ready_sequence := ready_sequence db + 1\<rparr>)"
    using assms by (rule wf_frame) simp_all
  then show ?thesis
    unfolding assign_next_ready_seq_update snd_conv
    by (rule wf_update_job) (auto simp: ready_row_def wf_job_row_def)
qed

lemma job_row_assign:
  "job_row (snd (assign_next_ready_seq i now db)) k =
     (if k = i then map_option (ready_row now (ready_sequence db + 1)) (job_row db i) else job_row db k)"
  by (simp add: assign_next_ready_seq_update job_table.lookup_update)
    (simp add: job_row_def)

lemma abs_assign_next_ready_seq:
  assumes "job_row db i = Some j" and "j_ready_seq j = None"
  shows "abs_queue (snd (assign_next_ready_seq i now db)) = (abs_queue db)
    \<lparr>q_seq := q_seq (abs_queue db) + 1,
     q_ready := (q_ready (abs_queue db))(i \<mapsto> q_seq (abs_queue db) + 1)\<rparr>"
proof (rule queue.equality)
  show "q_job (abs_queue (snd (assign_next_ready_seq i now db))) = q_job ((abs_queue db)
    \<lparr>q_seq := q_seq (abs_queue db) + 1,
     q_ready := (q_ready (abs_queue db))(i \<mapsto> q_seq (abs_queue db) + 1)\<rparr>)"
    using assms by (simp add: job_state_of_def job_row_assign fun_eq_iff)
  show "q_ready (abs_queue (snd (assign_next_ready_seq i now db))) = q_ready ((abs_queue db)
    \<lparr>q_seq := q_seq (abs_queue db) + 1,
     q_ready := (q_ready (abs_queue db))(i \<mapsto> q_seq (abs_queue db) + 1)\<rparr>)"
    using assms by (auto simp: job_row_assign ready_row_def fun_eq_iff)
qed (simp_all add: assign_next_ready_seq_update edge_row_def attempt_row_def open_attempts_def
    protected_job_def fun_eq_iff)

lemma make_ready_alt:
  "make_ready now i db = append_event now (Some i) None ''job_ready'' ''daemon''
     (Some (JObj [(''readySequence'', JInt (ready_sequence db + 1))]))
     (snd (assign_next_ready_seq i now db))"
  by (simp add: make_ready_def assign_next_ready_seq_update)

lemma wf_make_ready [wf_intros]: "wf_tables db \<Longrightarrow> wf_tables (make_ready now i db)"
  by (simp add: make_ready_alt wf_append_event wf_assign_next_ready_seq)

lemma job_row_make_ready:
  "job_row (make_ready now i db) k =
     (if k = i then map_option (ready_row now (ready_sequence db + 1)) (job_row db i) else job_row db k)"
  by (simp add: make_ready_alt job_row_assign)

lemma job_state_of_make_ready [simp]: "job_state_of (make_ready now i db) = job_state_of db"
  by (auto simp: job_state_of_def job_row_make_ready option.map_comp o_def)

lemma edge_row_make_ready [simp]: "edge_row (make_ready now i db) = edge_row db"
  by (simp add: edge_row_def fun_eq_iff)

definition may_ready :: "database \<Rightarrow> job_id \<Rightarrow> bool" where
  "may_ready db i \<longleftrightarrow> (\<exists>j. job_row db i = Some j \<and> waiting_state (j_state j) \<and> j_ready_seq j = None) \<and>
     edges_satisfied (abs_queue db) i"

lemma make_ready_step:
  assumes "may_ready db i"
  shows "q_step (abs_queue db) (abs_queue (make_ready now i db))"
proof -
  from assms obtain j where j: "job_row db i = Some j" "waiting_state (j_state j)"
    "j_ready_seq j = None" and sat: "edges_satisfied (abs_queue db) i"
    by (auto simp: may_ready_def)
  show ?thesis
    unfolding make_ready_alt abs_append_event abs_assign_next_ready_seq [OF j(1,3)]
    using j sat by (intro q_step.become_ready [of _ i "j_state j"]) (simp_all add: job_state_of_def)
qed

lemma may_ready_make_ready: "may_ready db k \<Longrightarrow> k \<noteq> i \<Longrightarrow> may_ready (make_ready now i db) k"
  by (auto simp: may_ready_def job_row_make_ready edges_satisfied_def)

lemma make_ready_all_steps:
  assumes "distinct ids" and "\<And>i. i \<in> set ids \<Longrightarrow> may_ready db i"
  shows "q_steps (abs_queue db) (abs_queue (fold (make_ready now) ids db))"
  using assms
proof (induction ids arbitrary: db)
  case (Cons i ids)
  have "q_steps (abs_queue (make_ready now i db)) (abs_queue (fold (make_ready now) ids (make_ready now i db)))"
    using Cons.prems by (intro Cons.IH) (auto intro!: may_ready_make_ready)
  moreover have "q_step (abs_queue db) (abs_queue (make_ready now i db))"
    using Cons.prems(2) by (intro make_ready_step) simp
  ultimately show ?case by simp
qed simp

lemma newly_ready_distinct: "wf_tables db \<Longrightarrow> distinct (newly_ready now db)"
  by (simp add: newly_ready_def wf_tables_distinct(1) distinct_map_filter)

lemma newly_ready_may:
  assumes wf: "wf_tables db" and i: "i \<in> set (newly_ready now db)"
  shows "may_ready db i"
proof -
  from i obtain j where j: "j \<in> set (jobs db)" "j_id j = i" "waiting_state (j_state j)"
      "j_ready_seq j = None"
    and sat: "\<And>d. d \<in> set (dependencies db) \<Longrightarrow> d_child d = i \<Longrightarrow> d_resolution d = Some Dep_Satisfied"
    by (auto simp: newly_ready_def)
  have "job_row db i = Some j"
    using job_table.lookup_unique [OF wf_tables_distinct(1) [OF wf] j(1)] j(2) by simp
  moreover have "edges_satisfied (abs_queue db) i"
    unfolding edges_satisfied_def
  proof (intro allI impI)
    fix p cond r assume "q_edge (abs_queue db) p i = Some (cond, r)"
    then obtain d where d: "edge_row db p i = Some d" "edge_of d = (cond, r)" by auto
    have "d_resolution d = Some Dep_Satisfied"
      using edge_row_mem [OF d(1)] sat by blast
    then show "\<exists>s. r = Some (Dep_Satisfied, s)"
      using edge_of_resolved(2) [OF wf d(1)] d(2) by auto
  qed
  ultimately show ?thesis using j by (auto simp: may_ready_def)
qed

lemma wf_make_ready_all: "wf_tables db \<Longrightarrow> wf_tables (fold (make_ready now) ids db)"
  by (induction ids arbitrary: db) (simp_all add: wf_make_ready)

lemma make_ready_all_frame [simp]:
  "job_state_of (fold (make_ready now) ids db) = job_state_of db"
  "edge_row (fold (make_ready now) ids db) = edge_row db"
  "dependencies (fold (make_ready now) ids db) = dependencies db"
  "attempts (fold (make_ready now) ids db) = attempts db"
  "run_leases (fold (make_ready now) ids db) = run_leases db"
  "reservations (fold (make_ready now) ids db) = reservations db"
  by (induction ids arbitrary: db) simp_all

text \<open>\<open>advance_dependency_graph\<close> as a whole.\<close>

lemma advance_refines:
  assumes "wf_tables db"
  shows "wf_tables (advance_dependency_graph now db)"
    and "q_steps (abs_queue db) (abs_queue (advance_dependency_graph now db))"
proof -
  let ?db1 = "advance_loop now db"
  have loop: "wf_tables ?db1" "dep_step\<^sup>*\<^sup>* (abs_queue db) (abs_queue ?db1)"
    using advance_loop_refines [OF assms] by auto
  show "wf_tables (advance_dependency_graph now db)"
    by (simp add: advance_dependency_graph_def Let_def wf_make_ready_all loop(1))
  have "q_steps (abs_queue ?db1) (abs_queue (fold (make_ready now) (newly_ready now ?db1) ?db1))"
    by (intro make_ready_all_steps newly_ready_distinct newly_ready_may loop(1))
  then show "q_steps (abs_queue db) (abs_queue (advance_dependency_graph now db))"
    using dep_steps_q_steps [OF loop(2)] by (simp add: advance_dependency_graph_def Let_def)
qed

section \<open>Reservation, pause and operations\<close>

lemma find_status_resolve:
  assumes "wf_tables db" and "active_reservation db = Some res" and "status \<noteq> Res_Active"
  shows "List.find (\<lambda>r. r_status r = Res_Active)
    (reservations (resolve_reservation (ri_id res) status reason now db)) = None"
proof -
  obtain r where r: "List.find (\<lambda>r. r_status r = Res_Active) (reservations db) = Some r"
    and "ri_id res = r_id r"
    using assms(2) by (auto simp: active_reservation_def)
  then show ?thesis
    using assms(1,3) find_unique_filter [OF r]
    by (fastforce simp: find_None_all resolve_reservation_def wf_tables_def wf_reservations_def
        dest!: update_where_mem)
qed

lemma wf_resolve_reservation [wf_intros]:
  assumes "wf_tables db" and "status \<noteq> Res_Active"
  shows "wf_tables (resolve_reservation rid status reason now db)"
proof -
  let ?f = "\<lambda>r. r\<lparr>r_status := status, r_reason := Some reason, r_resolved_at := Some now\<rparr>"
  have "length (filter (\<lambda>r. r_status r = Res_Active) (update_where (\<lambda>r. r_id r = rid) ?f rs)) \<le>
      length (filter (\<lambda>r. r_status r = Res_Active) rs)" for rs
    using assms(2) by (induction rs) (auto simp: update_where_def)
  then have "wf_reservations (resolve_reservation rid status reason now db)"
    using assms(1) le_trans
    by (fastforce simp: resolve_reservation_def wf_tables_def wf_reservations_def map_update_where
        dest!: update_where_mem)
  then show ?thesis
    using assms(1) by (simp add: wf_tables_def wf_table_defs resolve_reservation_def)
qed

lemma resolve_reservation_frame [simp]:
  "jobs (resolve_reservation rid st reason now db) = jobs db"
  "dependencies (resolve_reservation rid st reason now db) = dependencies db"
  "attempts (resolve_reservation rid st reason now db) = attempts db"
  "run_leases (resolve_reservation rid st reason now db) = run_leases db"
  "ready_sequence (resolve_reservation rid st reason now db) = ready_sequence db"
  by (simp_all add: resolve_reservation_def)

lemma abs_resolve_reservation:
  assumes "wf_tables db" and "active_reservation db = Some res" and "status \<noteq> Res_Active"
  shows "abs_queue (resolve_reservation (ri_id res) status reason now db) =
    (abs_queue db)\<lparr>q_protected := None\<rparr>"
proof -
  have "protected_job (resolve_reservation (ri_id res) status reason now db) = None"
    using find_status_resolve [OF assms] by (simp add: protected_job_def)
  then show ?thesis
    by (simp add: abs_queue_def job_state_of_def job_row_def edge_row_def attempt_row_def
        open_attempts_def fun_eq_iff)
qed

lemma protected_job_active: "protected_job db = map_option ri_job_id (active_reservation db)"
  by (cases "List.find (\<lambda>r. r_status r = Res_Active) (reservations db)")
    (simp_all add: protected_job_def active_reservation_def)

lemma create_reservation_ok:
  assumes "create_reservation job ver blockers now db = Inr (rid, db')"
  shows "protected_job db = None"
    and "wf_tables db \<Longrightarrow> wf_tables db'"
    and "abs_queue db' = (abs_queue db)\<lparr>q_protected := Some job\<rparr>"
    and "jobs db' = jobs db" "attempts db' = attempts db" "run_leases db' = run_leases db"
proof -
  have none: "\<forall>r\<in>set (reservations db). r_status r \<noteq> Res_Active"
    using assms by (auto simp: create_reservation_def Let_def result_eqs list_ex_iff)
  then show "protected_job db = None"
    by (simp add: protected_job_def find_None_all)
  from assms obtain row where db': "db' = db\<lparr>reservations := reservations db @ [row],
      reservation_seq := reservation_seq db + 1\<rparr>"
    and row: "r_id row = reservation_seq db + 1" "r_status row = Res_Active" "r_job row = job"
    by (auto simp: create_reservation_def Let_def result_eqs)
  have "filter (\<lambda>r. r_status r = Res_Active) (reservations db) = []"
    using none by (simp add: filter_empty_conv)
  then show "wf_tables db'" if "wf_tables db"
    using that row by (force simp: db' wf_tables_def wf_table_defs)
  have "protected_job db' = Some job"
    using none row by (simp add: protected_job_def db' find_append_skip)
  then show "abs_queue db' = (abs_queue db)\<lparr>q_protected := Some job\<rparr>"
    by (simp add: db' abs_queue_def job_state_of_def job_row_def edge_row_def attempt_row_def
        open_attempts_def fun_eq_iff)
  show "jobs db' = jobs db" "attempts db' = attempts db" "run_leases db' = run_leases db"
    by (simp_all add: db')
qed

lemma record_backfill_frame [simp]:
  "jobs (record_backfill r j w a now db) = jobs db"
  "dependencies (record_backfill r j w a now db) = dependencies db"
  "attempts (record_backfill r j w a now db) = attempts db"
  "run_leases (record_backfill r j w a now db) = run_leases db"
  "reservations (record_backfill r j w a now db) = reservations db"
  "ready_sequence (record_backfill r j w a now db) = ready_sequence db"
  "job_seq (record_backfill r j w a now db) = job_seq db"
  "attempt_seq (record_backfill r j w a now db) = attempt_seq db"
  "reservation_seq (record_backfill r j w a now db) = reservation_seq db"
  by (simp_all add: record_backfill_def)

lemma wf_record_backfill [wf_intros]: "wf_tables db \<Longrightarrow> wf_tables (record_backfill r j w a now db)"
  by (erule wf_frame) simp_all

lemma abs_record_backfill [abs_simps]: "abs_queue (record_backfill r j w a now db) = abs_queue db"
  by (rule abs_frame) simp_all

lemma freeze_frame [simp]:
  "jobs (freeze_reservation_cutoff r c db) = jobs db"
  "dependencies (freeze_reservation_cutoff r c db) = dependencies db"
  "attempts (freeze_reservation_cutoff r c db) = attempts db"
  "run_leases (freeze_reservation_cutoff r c db) = run_leases db"
  "ready_sequence (freeze_reservation_cutoff r c db) = ready_sequence db"
  by (simp_all add: freeze_reservation_cutoff_def)

lemma filter_status_freeze:
  "map r_status (reservations (freeze_reservation_cutoff rid c db)) = map r_status (reservations db)"
  "map r_job (filter (\<lambda>r. r_status r = Res_Active) (reservations (freeze_reservation_cutoff rid c db))) =
     map r_job (filter (\<lambda>r. r_status r = Res_Active) (reservations db))"
proof -
  let ?f = "\<lambda>r. r\<lparr>r_cutoff_seq := c\<rparr>"
  let ?P = "\<lambda>r. r_id r = rid \<and> r_cutoff_seq r = RESERVATION_CUTOFF_UNFROZEN"
  have "map r_job (filter (\<lambda>r. r_status r = Res_Active) (update_where ?P ?f rs)) =
      map r_job (filter (\<lambda>r. r_status r = Res_Active) rs)" for rs
    by (induction rs) (auto simp: update_where_def)
  then show "map r_job (filter (\<lambda>r. r_status r = Res_Active) (reservations (freeze_reservation_cutoff rid c db))) =
     map r_job (filter (\<lambda>r. r_status r = Res_Active) (reservations db))"
    by (simp add: freeze_reservation_cutoff_def)
qed (simp add: freeze_reservation_cutoff_def map_update_where)

lemma protected_job_filter:
  "protected_job db = (case map r_job (filter (\<lambda>r. r_status r = Res_Active) (reservations db)) of
     [] \<Rightarrow> None | j # _ \<Rightarrow> Some j)"
proof -
  have "map_option r_job (List.find P rs) = (case map r_job (filter P rs) of [] \<Rightarrow> None | j # _ \<Rightarrow> Some j)"
    for P :: "reservation_row \<Rightarrow> bool" and rs
    by (induction rs) auto
  then show ?thesis by (simp add: protected_job_def)
qed

lemma wf_freeze [wf_intros]:
  assumes "wf_tables db"
  shows "wf_tables (freeze_reservation_cutoff rid c db)"
proof -
  have "wf_reservations (freeze_reservation_cutoff rid c db)"
    using assms arg_cong [OF filter_status_freeze(2) [of rid c db], of length]
    by (auto simp: wf_tables_def wf_reservations_def freeze_reservation_cutoff_def map_update_where
        dest!: update_where_mem)
  then show ?thesis
    using assms by (simp add: wf_tables_def wf_table_defs freeze_reservation_cutoff_def)
qed

lemma abs_freeze [abs_simps]: "abs_queue (freeze_reservation_cutoff rid c db) = abs_queue db"
proof -
  have "protected_job (freeze_reservation_cutoff rid c db) = protected_job db"
    by (simp add: protected_job_filter filter_status_freeze)
  then show ?thesis
    by (simp add: abs_queue_def job_state_of_def job_row_def edge_row_def attempt_row_def
        open_attempts_def fun_eq_iff)
qed

lemma set_paused_frame [abs_simps, wf_intros]:
  "abs_queue (snd (set_paused p now db)) = abs_queue db"
  "wf_tables db \<Longrightarrow> wf_tables (snd (set_paused p now db))"
  by (auto simp: set_paused_def intro: abs_frame wf_frame)

lemma insert_operation_frame:
  assumes "insert_operation key ty hash resp now db = Inr db'"
  shows "abs_queue db' = abs_queue db" and "wf_tables db \<Longrightarrow> wf_tables db'"
  using assms by (auto simp: insert_operation_def result_eqs intro: abs_frame wf_frame)

lemma set_active_attempt_frame:
  assumes "set_active_attempt_max_parallel_runs a v db = Inr db'"
  shows "abs_queue db' = abs_queue db" and "wf_tables db \<Longrightarrow> wf_tables db'"
proof -
  define db1 where "db1 = db\<lparr>attempts := update_where (\<lambda>r. a_id r = a \<and> attempt_live (a_state r))
      (\<lambda>r. r\<lparr>a_max_parallel_runs := v\<rparr>) (attempts db)\<rparr>"
  have db': "db' = update_lease a (\<lambda>l. l\<lparr>l_max_parallel_runs := v\<rparr>) db1"
    using assms by (auto simp: set_active_attempt_max_parallel_runs_def result_eqs db1_def)
  show "wf_tables db'" if "wf_tables db"
    unfolding db' db1_def by (intro wf_update_lease wf_update_attempts that) simp_all
  have "map_option (\<lambda>r. (a_job r, a_state r)) (attempt_row db1 k) =
      map_option (\<lambda>r. (a_job r, a_state r)) (attempt_row db k)" for k
    by (simp add: attempt_row_def db1_def update_where_def find_map_key option.map_comp o_def)
      (rule option.map_cong, auto)
  moreover have "open_attempts (update_lease a (\<lambda>l. l\<lparr>l_max_parallel_runs := v\<rparr>) db1) = open_attempts db1"
  proof -
    have "l_attempt ` set (filter (\<lambda>l. l_released_at l = None) (update_where Q
        (\<lambda>l. l\<lparr>l_max_parallel_runs := v\<rparr>) ls)) = l_attempt ` set (filter (\<lambda>l. l_released_at l = None) ls)"
      for Q ls by (induction ls) (auto simp: update_where_def)
    then show ?thesis by (simp add: open_attempts_def update_lease_def)
  qed
  moreover have "attempt_row db' = attempt_row db1"
    by (simp add: db' attempt_row_def fun_eq_iff)
  ultimately show "abs_queue db' = abs_queue db"
    by (simp add: db' abs_queue_def db1_def job_state_of_def job_row_def edge_row_def
        open_attempts_def protected_job_def fun_eq_iff)
qed

section \<open>New attempts\<close>

lemma wf_db_tables: "wf_db db \<Longrightarrow> wf_tables db"
  by (simp add: wf_db_def)

lemma wf_append_attempt:
  assumes wf: "wf_tables db"
    and row: "a_id row = attempt_seq db + 1" "l_attempt lease = a_id row" "l_job lease = a_job row"
    and fresh: "\<And>a. a \<in> set (attempts db) \<Longrightarrow> a_job a = a_job row \<Longrightarrow> a_number a < a_number row"
    and count: "\<And>j. j \<in> set (jobs db) \<Longrightarrow> j_id j = a_job row \<Longrightarrow> a_number row \<le> j_attempt_count j"
  shows "wf_tables (db\<lparr>attempts := attempts db @ [row], attempt_seq := attempt_seq db + 1,
    run_leases := run_leases db @ [lease]\<rparr>)"
proof -
  have "\<forall>a\<in>set (attempts db). a_id a < a_id row"
    using wf row by (force simp: wf_tables_def wf_attempts_def)
  moreover have "(a_job row, a_number row) \<notin> (\<lambda>a. (a_job a, a_number a)) ` set (attempts db)"
    using fresh by fastforce
  ultimately have "wf_attempts (db\<lparr>attempts := attempts db @ [row], attempt_seq := attempt_seq db + 1,
      run_leases := run_leases db @ [lease]\<rparr>)"
    using wf row count by (auto simp: wf_tables_def wf_attempts_def sorted_wrt_append)
  then show ?thesis
    using wf row by (simp add: wf_tables_def wf_table_defs)
qed

lemma attempt_numbers_bounded:
  assumes "wf_tables db" and "job_row db i = Some job" and "a \<in> set (attempts db)" and "a_job a = i"
  shows "a_number a \<le> j_attempt_count job"
  using assms job_table.lookup_Some [OF assms(2)] by (auto simp: wf_tables_def wf_attempts_def)

lemma attempt_seq_fresh: "wf_tables db \<Longrightarrow> attempt_row db (attempt_seq db + 1) = None"
  by (force simp: attempt_table.lookup_None wf_tables_def wf_attempts_def)

lemma abs_append_attempt:
  assumes "attempt_row db (a_id row) = None" and "l_released_at lease = None"
  shows "abs_queue (db\<lparr>attempts := attempts db @ [row], attempt_seq := n,
      run_leases := run_leases db @ [lease]\<rparr>) =
    (abs_queue db)\<lparr>q_attempt := (q_attempt (abs_queue db))(a_id row \<mapsto> (a_job row, a_state row)),
      q_open := insert (l_attempt lease) (q_open (abs_queue db))\<rparr>"
proof -
  let ?db' = "db\<lparr>attempts := attempts db @ [row], attempt_seq := n,
      run_leases := run_leases db @ [lease]\<rparr>"
  have "open_attempts ?db' = insert (l_attempt lease) (open_attempts db)"
    using assms(2) by (simp add: open_attempts_def)
  moreover have "attempt_row ?db' = (attempt_row db)(a_id row \<mapsto> row)"
    using assms(1) by (auto simp: attempt_row_def find_append fun_eq_iff split: option.splits)
  ultimately show ?thesis
    by (auto simp: abs_queue_def job_state_of_def job_row_def edge_row_def protected_job_def
        fun_eq_iff)
qed

lemma create_attempt_ok:
  assumes wf: "wf_tables db" and job: "job_row db i = Some job"
    and state: "\<not> job_state_is_terminal (j_state job)"
  shows "\<exists>row db'. create_attempt_with_lease job token now db = Inr (row, db') \<and>
    wf_tables db' \<and> a_id row = attempt_seq db + 1 \<and> a_job row = i \<and> a_state row = A_Prepared \<and>
    a_number row = j_attempt_count job + 1 \<and> attempts db' = attempts db @ [row] \<and>
    abs_queue db' = set_attempt (a_id row) i A_Prepared (set_job i J_Starting (abs_queue db))
      \<lparr>q_open := insert (a_id row) (q_open (abs_queue db))\<rparr>"
proof -
  have i: "j_id job = i" using job_table.lookup_Some [OF job] by simp
  let ?f = "\<lambda>j. j\<lparr>j_state := J_Starting, j_attempt_count := j_attempt_count job + 1,
      j_updated_at := now, j_state_reason := None\<rparr>"
  have "\<not> list_ex (\<lambda>a. a_job a = i \<and> a_number a = j_attempt_count job + 1) (attempts db)"
    using attempt_numbers_bounded [OF wf job] by (force simp: list_ex_iff)
  then obtain row lease where
    eq: "create_attempt_with_lease job token now db = Inr (row, update_job i ?f
      (db\<lparr>attempts := attempts db @ [row], attempt_seq := attempt_seq db + 1,
          run_leases := run_leases db @ [lease]\<rparr>))"
    and row: "a_id row = attempt_seq db + 1" "a_job row = i" "a_state row = A_Prepared"
      "a_number row = j_attempt_count job + 1"
    and lease: "l_attempt lease = a_id row" "l_job lease = i" "l_released_at lease = None"
    by (simp add: create_attempt_with_lease_def Let_def i)
  define db1 where "db1 = update_job i ?f db"
  define db' where "db' = db1\<lparr>attempts := attempts db1 @ [row], attempt_seq := attempt_seq db1 + 1,
          run_leases := run_leases db1 @ [lease]\<rparr>"
  have eq': "create_attempt_with_lease job token now db = Inr (row, db')"
    by (simp add: eq db'_def db1_def update_job_def)
  have wf1: "wf_tables db1"
    unfolding db1_def by (rule wf_update_job) (use wf job state in \<open>auto simp: wf_job_row_def\<close>)
  have row1: "job_row db1 i = Some (?f job)"
    by (simp add: db1_def job_table.lookup_update job)
  have wf': "wf_tables db'"
    unfolding db'_def
  proof (rule wf_append_attempt [OF wf1])
    show "a_id row = attempt_seq db1 + 1" "l_attempt lease = a_id row" "l_job lease = a_job row"
      by (simp_all add: db1_def row lease)
    show "a_number a < a_number row" if "a \<in> set (attempts db1)" "a_job a = a_job row" for a
      using attempt_numbers_bounded [OF wf job] that row by (auto simp: db1_def)
    show "a_number row \<le> j_attempt_count j" if "j \<in> set (jobs db1)" "j_id j = a_job row" for j
      using job_table.lookup_unique [OF wf_tables_distinct(1) [OF wf1] that(1)] row1 that(2) row
      by auto
  qed
  have fresh: "attempt_row db1 (a_id row) = None"
    using attempt_seq_fresh [OF wf] by (simp add: row db1_def attempt_row_def)
  have abs1: "abs_queue db1 = set_job i J_Starting (abs_queue db)"
    unfolding db1_def
    by (rule queue.equality) (auto simp: abs_update_job job set_job_def fun_eq_iff)
  have "abs_queue db' = set_attempt (a_id row) i A_Prepared (set_job i J_Starting (abs_queue db))
      \<lparr>q_open := insert (a_id row) (q_open (abs_queue db))\<rparr>"
    unfolding db'_def abs_append_attempt [OF fresh lease(3)] abs1
    by (simp add: set_attempt_def set_job_def row lease)
  then show ?thesis using eq' wf' row by (auto simp: db'_def db1_def)
qed

section \<open>Submission\<close>

definition new_edge :: "job_id \<Rightarrow> job_id \<times> dependency_condition \<Rightarrow> dependency_row" where
  "new_edge child pc =
     \<lparr>d_parent = fst pc, d_child = child, d_condition = snd pc, d_resolution = None,
      d_parent_outcome = None, d_resolved_at = None\<rparr>"

lemma insert_dependencies:
  assumes "foldE (insert_dependency i) deps db = Inr db'"
  shows "db' = db\<lparr>dependencies := dependencies db @ map (new_edge i) deps\<rparr> \<and>
    (\<forall>(p, c)\<in>set deps. p < i \<and> job_row db p \<noteq> None)"
  using assms
proof (induction deps arbitrary: db)
  case (Cons pc deps)
  let ?db1 = "db\<lparr>dependencies := dependencies db @ [new_edge i pc]\<rparr>"
  have rest: "foldE (insert_dependency i) deps ?db1 = Inr db'"
    and head: "fst pc < i" "job_row db (fst pc) \<noteq> None"
    using Cons.prems by (auto simp: insert_dependency_def [of i pc db] result_eqs new_edge_def)
  have "job_row ?db1 = job_row db" by (simp add: job_row_def fun_eq_iff)
  then show ?case
    using Cons.IH [OF rest] head by (auto simp: case_prod_unfold)
qed simp

lemma job_seq_fresh: "wf_tables db \<Longrightarrow> job_row db (job_seq db + 1) = None"
  by (force simp: job_table.lookup_None wf_tables_def wf_jobs_def)

lemma wf_append_job:
  assumes "wf_tables db" and "j_id row = job_seq db + 1" and "wf_job_row row"
    and "job_seq db + 1 \<notin> a_job ` set (attempts db)"
  shows "wf_tables (db\<lparr>jobs := jobs db @ [row], job_seq := job_seq db + 1\<rparr>)"
proof -
  have "\<forall>j\<in>set (jobs db). j_id j < j_id row"
    using assms(1,2) by (force simp: wf_tables_def wf_jobs_def)
  then have "wf_jobs (db\<lparr>jobs := jobs db @ [row], job_seq := job_seq db + 1\<rparr>)"
    using assms by (auto simp: wf_tables_def wf_jobs_def sorted_wrt_append)
  moreover have "wf_attempts (db\<lparr>jobs := jobs db @ [row], job_seq := job_seq db + 1\<rparr>)"
    using assms by (auto simp: wf_tables_def wf_attempts_def image_iff)
  ultimately show ?thesis
    using assms(1) by (simp add: wf_tables_def wf_table_defs)
qed

lemma wf_append_edges:
  assumes "wf_tables db" and "distinct (map fst deps)"
    and "\<And>d. d \<in> set (dependencies db) \<Longrightarrow> d_child d \<noteq> i"
  shows "wf_tables (db\<lparr>dependencies := dependencies db @ map (new_edge i) deps\<rparr>)"
proof -
  have "distinct (map (\<lambda>d. (d_parent d, d_child d)) (map (new_edge i) deps))"
    using assms(2) by (simp add: new_edge_def o_def distinct_map inj_on_def)
  then have "wf_dependencies (db\<lparr>dependencies := dependencies db @ map (new_edge i) deps\<rparr>)"
    using assms by (auto simp: wf_tables_def wf_dependencies_def new_edge_def)
  then show ?thesis
    using assms(1) by (simp add: wf_tables_def wf_table_defs)
qed

lemma abs_submit:
  assumes "job_row db i = None" and "j_id row = i" "j_state row = J_Queued" "j_ready_seq row = None"
    and no_edge: "\<And>d. d \<in> set (dependencies db) \<Longrightarrow> d_child d \<noteq> i"
  shows "abs_queue (db\<lparr>jobs := jobs db @ [row], job_seq := n,
      dependencies := dependencies db @ map (new_edge i) deps\<rparr>) =
    set_job i J_Queued (abs_queue db)
      \<lparr>q_edge := (\<lambda>p c. if c = i then map_option (\<lambda>cond. (cond, None)) (map_of deps p)
         else q_edge (abs_queue db) p c)\<rparr>"
proof -
  let ?db' = "db\<lparr>jobs := jobs db @ [row], job_seq := n,
      dependencies := dependencies db @ map (new_edge i) deps\<rparr>"
  have jobs: "job_row ?db' = (job_row db)(i \<mapsto> row)"
    using assms(1,2) by (auto simp: job_row_def find_append fun_eq_iff split: option.splits)
  have new: "map_option edge_of (List.find (\<lambda>d. d_parent d = p \<and> d_child d = c) (map (new_edge i) deps)) =
      (if c = i then map_option (\<lambda>cond. (cond, None)) (map_of deps p) else None)" for p c
    by (induction deps) (auto simp: new_edge_def edge_of_def)
  have old: "edge_row db p i = None" for p
    using no_edge by (auto simp: edge_row_def find_None_all)
  have "map_option edge_of (edge_row ?db' p c) =
      (if c = i then map_option (\<lambda>cond. (cond, None)) (map_of deps p)
       else map_option edge_of (edge_row db p c))" for p c
    using old [of p] new [of p c] by (auto simp: edge_row_def find_append split: option.splits if_splits)
  moreover have "job_state_of ?db' = (job_state_of db)(i \<mapsto> J_Queued)"
    using assms(3) by (auto simp: job_state_of_def jobs fun_eq_iff)
  ultimately show ?thesis
    using assms(1,4)
    by (auto simp: abs_queue_def set_job_def jobs attempt_row_def open_attempts_def protected_job_def
        fun_eq_iff)
qed

lemma wf_child_known:
  assumes "wf_db db" "d \<in> set (dependencies db)"
  shows "job_state_of db (d_child d) \<noteq> None"
proof -
  have "edge_row db (d_parent d) (d_child d) = Some d"
    using assms by (simp add: edge_row_iff wf_db_def)
  then show ?thesis
    using assms(1) unfolding wf_db_def q_inv_def inv_edges_def
    by (metis abs_queue_sel(1,4) option.simps(9) surj_pair)
qed

lemma insert_job_refines:
  assumes wf: "wf_db db" and ok: "insert_job p now db = Inr (i, db')"
  shows "wf_tables db'" and "q_steps (abs_queue db) (abs_queue db')"
    and "i = job_seq db + 1" and "job_state_of db' i = Some J_Queued"
proof -
  let ?deps = "collapse_dependencies (sp_dependencies p)"
  from ok obtain rd tl db2 where i: "i = job_seq db + 1"
    and tl: "case tl of None \<Rightarrow> True | Some l \<Rightarrow> l > 0" and lim: "1 \<le> sp_max_parallel_runs p"
    and fold: "foldE (insert_dependency i) ?deps
      (db\<lparr>jobs := jobs db @ [new_job_row i p rd tl now], job_seq := i\<rparr>) = Inr db2"
    and db': "db' = (if ?deps = [] then snd (assign_next_ready_seq i now db2) else db2)"
    unfolding insert_job_def Let_def bindE_eq_Inr ensure_eq_Inr ok_or_eq_Inr by auto
  show "i = job_seq db + 1" by (rule i)
  let ?row = "new_job_row i p rd tl now"
  have wft: "wf_tables db" and inv: "q_inv (abs_queue db)" using wf by (simp_all add: wf_db_def)
  have fresh: "job_row db i = None" using job_seq_fresh [OF wft] by (simp add: i)
  have no_edge: "d_child d \<noteq> i" if "d \<in> set (dependencies db)" for d
    using wf_child_known [OF wf that] fresh by (auto simp: job_state_of_def)
  have no_attempt: "i \<notin> a_job ` set (attempts db)"
  proof
    assume "i \<in> a_job ` set (attempts db)"
    then obtain a where a: "a \<in> set (attempts db)" "a_job a = i" by blast
    then have "attempt_row db (a_id a) = Some a"
      using attempt_table.lookup_unique [OF wf_tables_distinct(2) [OF wft]] by simp
    then have "q_attempt (abs_queue db) (a_id a) = Some (i, a_state a)" using a by simp
    then have "job_state_of db i \<noteq> None"
      using inv unfolding q_inv_def inv_attempts_def by fastforce
    then show False using fresh by (simp add: job_state_of_def)
  qed
  have db2: "db2 = db\<lparr>jobs := jobs db @ [?row], job_seq := i,
      dependencies := dependencies db @ map (new_edge i) ?deps\<rparr>"
    using insert_dependencies [OF fold] by simp
  have parents: "p' < i \<and> job_row db p' \<noteq> None" if some: "map_of ?deps p' \<noteq> None" for p'
  proof -
    obtain c where "map_of ?deps p' = Some c" using some by blast
    then have "(p', c) \<in> set ?deps" by (rule map_of_SomeD)
    then have "p' < i" "job_row (db\<lparr>jobs := jobs db @ [?row], job_seq := i\<rparr>) p' \<noteq> None"
      using insert_dependencies [OF fold] by auto
    then show ?thesis
      by (auto simp: job_row_def find_append new_job_row_def split: option.splits)
  qed
  have distinct: "distinct (map fst ?deps)"
    using collapse_dependencies_sorted strict_sorted_iff by blast
  have wf2: "wf_tables db2"
  proof -
    let ?db1 = "db\<lparr>jobs := jobs db @ [?row], job_seq := job_seq db + 1\<rparr>"
    have "wf_tables ?db1"
      using wft no_attempt tl lim by (intro wf_append_job) (auto simp: i new_job_row_def wf_job_row_def)
    then have "wf_tables (?db1\<lparr>dependencies := dependencies ?db1 @ map (new_edge i) ?deps\<rparr>)"
      using distinct no_edge by (intro wf_append_edges) simp_all
    then show ?thesis by (simp add: db2 i)
  qed
  have abs2: "abs_queue db2 = set_job i J_Queued (abs_queue db)
      \<lparr>q_edge := (\<lambda>p c. if c = i then map_option (\<lambda>cond. (cond, None)) (map_of ?deps p)
         else q_edge (abs_queue db) p c)\<rparr>"
    unfolding db2 by (rule abs_submit) (auto simp: fresh no_edge new_job_row_def)
  have step: "q_step (abs_queue db) (abs_queue db2)"
    unfolding abs2 using fresh parents
    by (intro q_step.submit) (auto simp: job_state_of_def)
  have row2: "job_row db2 i = Some ?row"
    using fresh by (auto simp: db2 job_row_def find_append new_job_row_def split: option.splits)
  show "wf_tables db'"
    using wf2 by (simp add: db' wf_assign_next_ready_seq)
  have "q_step (abs_queue db2) (abs_queue (snd (assign_next_ready_seq i now db2)))" if "?deps = []"
  proof -
    have "edges_satisfied (abs_queue db2) i"
      using that by (simp add: edges_satisfied_def abs2)
    moreover have none: "j_ready_seq ?row = None" by (simp add: new_job_row_def)
    ultimately show ?thesis
      unfolding abs_assign_next_ready_seq [OF row2 none] using row2
      by (intro q_step.become_ready [of _ i J_Queued])
        (simp_all add: job_state_of_def waiting_state_def new_job_row_def)
  qed
  then show "q_steps (abs_queue db) (abs_queue db')"
    using step by (auto simp: db')
  show "job_state_of db' i = Some J_Queued"
    using row2 by (auto simp: db' job_state_of_def job_row_assign new_job_row_def)
qed

end
