(* ===== verification/Mutation_Proofs.thy ===== *)
theory Mutation_Proofs
  imports Mutations Queue_Tables
begin

text \<open>
  Every mutation that commits is a sequence of steps of the abstract queue and keeps the
  invariant of the database. \<open>refines\<close> is that statement for one transaction; it composes,
  and each operation is proved from the lemmas on the table updates it performs.
\<close>

section \<open>Transactions that refine the queue\<close>

definition refines :: "database \<Rightarrow> database \<Rightarrow> bool" where
  "refines db db' \<longleftrightarrow> wf_tables db' \<and> q_steps (abs_queue db) (abs_queue db')"

lemma refines_wf: "wf_db db \<Longrightarrow> refines db db' \<Longrightarrow> wf_db db'"
  using queue_system.inv_steps by (auto simp: wf_db_def refines_def)

lemma refines_refl: "wf_tables db \<Longrightarrow> refines db db"
  by (simp add: refines_def)

lemma refines_trans: "refines db db1 \<Longrightarrow> refines db1 db2 \<Longrightarrow> refines db db2"
  by (auto simp: refines_def)

lemma refines_same: "wf_tables db' \<Longrightarrow> abs_queue db' = abs_queue db \<Longrightarrow> refines db db'"
  by (simp add: refines_def)

lemma refines_step: "wf_tables db' \<Longrightarrow> q_step (abs_queue db) (abs_queue db') \<Longrightarrow> refines db db'"
  by (auto simp: refines_def)

lemma refines_event: "refines db db' \<Longrightarrow> refines db (append_event now ji ai ty ac de db')"
  by (simp add: refines_def abs_simps wf_append_event)

lemma refines_advance: "refines db db' \<Longrightarrow> refines db (advance_dependency_graph now db')"
  using advance_refines [of db' now] by (auto simp: refines_def)

text \<open>The end of an attempt together with what becomes of its job.\<close>

lemma refines_finish:
  assumes "wf_tables db'"
    and "attempt_row db a = Some r" and "attempt_live (a_state r)" and "finish_outcome s js"
    and "abs_queue db' = (if waiting_state js then unready (a_job r) else id)
      (set_job (a_job r) js ((set_attempt a (a_job r) s (abs_queue db))\<lparr>q_open := q_open (abs_queue db) - {a}\<rparr>))"
  shows "refines db db'"
proof (rule refines_step [OF assms(1)])
  have "q_step (abs_queue db) (set_attempt a (a_job r) s (set_job (a_job r) js (abs_queue db))
      \<lparr>q_open := q_open (abs_queue db) - {a},
       q_ready := (if waiting_state js then (q_ready (abs_queue db))(a_job r := None)
                   else q_ready (abs_queue db))\<rparr>)"
    using assms(2-4) by (intro q_step.finish [of _ a "a_job r" "a_state r"]) simp_all
  moreover have "abs_queue db' = set_attempt a (a_job r) s (set_job (a_job r) js (abs_queue db))
      \<lparr>q_open := q_open (abs_queue db) - {a},
       q_ready := (if waiting_state js then (q_ready (abs_queue db))(a_job r := None)
                   else q_ready (abs_queue db))\<rparr>"
    unfolding assms(5) by (rule queue.equality) (simp_all add: q_updates)
  ultimately show "q_step (abs_queue db) (abs_queue db')" by simp
qed

section \<open>Facts of the invariant\<close>

lemma live_attempt_mem:
  assumes "live_attempt_for_job db i = Some a"
  shows "a \<in> set (attempts db)" "a_job a = i" "attempt_live (a_state a)"
proof -
  let ?xs = "filter (\<lambda>a. a_job a = i \<and> attempt_live (a_state a)) (attempts db)"
  have "a \<in> set (order_by (\<lambda>a b. a_number a > a_number b) ?xs)"
    using assms by (simp add: live_attempt_for_job_def del: set_order_by split: list.splits)
  then show "a \<in> set (attempts db)" "a_job a = i" "attempt_live (a_state a)"
    by auto
qed

lemma attempt_row_mem: "wf_tables db \<Longrightarrow> a \<in> set (attempts db) \<Longrightarrow> attempt_row db (a_id a) = Some a"
  using attempt_table.lookup_unique wf_tables_distinct(2) by blast

lemma live_attempt_facts:
  assumes "wf_db db" and "live_attempt_for_job db i = Some a"
  shows "attempt_row db (a_id a) = Some a" "a_job a = i" "attempt_live (a_state a)"
    "job_state_of db i = Some (job_phase (a_state a))"
proof -
  show row: "attempt_row db (a_id a) = Some a" and job: "a_job a = i" and live: "attempt_live (a_state a)"
    using live_attempt_mem [OF assms(2)] attempt_row_mem assms(1) by (auto simp: wf_db_def)
  then have "q_attempt (abs_queue db) (a_id a) = Some (i, a_state a)" by simp
  with assms(1) live show "job_state_of db i = Some (job_phase (a_state a))"
    by (auto simp: wf_db_def q_inv_def inv_attempts_def)
qed

lemma get_job_ok: "get_job db job = Inr row \<longleftrightarrow> job_row db job = Some row"
  by (simp add: get_job_def ok_or_eq_Inr)

lemma job_row_state: "job_row db i = Some row \<Longrightarrow> job_state_of db i = Some (j_state row)"
  by (simp add: job_state_of_def)

lemma job_row_id: "job_row db i = Some row \<Longrightarrow> j_id row = i"
  using job_table.lookup_Some by blast

lemma finish_mutation_ok:
  "finish_mutation paths now job actions db = Inr (r, db') \<Longrightarrow> db' = db \<and> snd r = actions"
  by (auto simp: finish_mutation_def result_eqs)

section \<open>Reservation of a job that changes\<close>

lemma invalidate_refines:
  assumes "wf_tables db"
  shows "refines db (invalidate_reservation_if_protected job reason now db)"
    and "protected_job (invalidate_reservation_if_protected job reason now db) \<noteq> Some job"
    and "jobs (invalidate_reservation_if_protected job reason now db) = jobs db"
    and "attempts (invalidate_reservation_if_protected job reason now db) = attempts db"
proof -
  let ?db' = "invalidate_reservation_if_protected job reason now db"
  show "jobs ?db' = jobs db" "attempts ?db' = attempts db"
    by (simp_all add: invalidate_reservation_if_protected_def split: option.splits)
  have "refines db ?db' \<and> protected_job ?db' \<noteq> Some job"
  proof (cases "\<exists>res. active_reservation db = Some res \<and> ri_job_id res = job")
    case True
    then obtain res where res: "active_reservation db = Some res" "ri_job_id res = job" by blast
    have abs: "abs_queue ?db' = (abs_queue db)\<lparr>q_protected := None\<rparr>"
      using res abs_resolve_reservation [OF assms res(1)]
      by (simp add: invalidate_reservation_if_protected_def abs_simps)
    have "wf_tables ?db'"
      using res assms
      by (simp add: invalidate_reservation_if_protected_def wf_append_event wf_resolve_reservation)
    then have "refines db ?db'"
      by (intro refines_step) (simp_all add: abs q_step.unprotect)
    moreover have "q_protected (abs_queue ?db') = None" by (simp add: abs)
    ultimately show ?thesis by simp
  next
    case False
    then show ?thesis
      using assms
      by (auto simp: invalidate_reservation_if_protected_def refines_refl protected_job_active
          split: option.splits)
  qed
  then show "refines db ?db'" "protected_job ?db' \<noteq> Some job" by simp_all
qed

lemma job_state_of_invalidate:
  assumes "wf_tables db"
  shows "job_state_of (invalidate_reservation_if_protected job reason now db) = job_state_of db"
  using invalidate_refines(3) [OF assms] by (simp add: job_state_of_def job_row_def fun_eq_iff)

section \<open>The mutations\<close>

lemma waiting_cancel_refines:
  assumes wf: "wf_db db" and "job_state_of db i = Some s" "waiting_state s"
  shows "refines db (append_event now ji ai ty ac de (update_job_state i J_Cancelled reason now
    (invalidate_reservation_if_protected i why now db)))"
proof -
  have wft: "wf_tables db" using wf by (rule wf_db_tables)
  note inv = invalidate_refines [OF wft, of i why now]
  let ?db0 = "invalidate_reservation_if_protected i why now db"
  have st: "job_state_of ?db0 i = Some s"
    using assms by (simp add: job_state_of_invalidate [OF wft])
  have "refines ?db0 (update_job_state i J_Cancelled reason now ?db0)"
    using inv st assms(3)
    by (intro refines_step) (auto simp: abs_simps wf_job_updates refines_def intro!: q_step.cancel_waiting)
  then show ?thesis
    using inv(1) refines_trans refines_event by blast
qed

lemma cancel_job_refines:
  assumes wf: "wf_db db" and ok: "cancel_job job force now db = Inr (acts, db')"
  shows "refines db db'"
proof -
  have wft: "wf_tables db" using wf by (rule wf_db_tables)
  from ok obtain row where row: "job_row db job = Some row"
    by (auto simp: cancel_job_def result_eqs get_job_ok)
  have i: "j_id row = job" and st: "job_state_of db job = Some (j_state row)"
    using job_row_id [OF row] job_row_state [OF row] by simp_all
  show ?thesis
  proof (cases "waiting_state (j_state row)")
    case True
    then have "db' = advance_dependency_graph now
         (append_event now (Some job) None ''job_cancelled'' ''client'' None
           (update_job_state job J_Cancelled (Some ''cancelled before start'') now
             (invalidate_reservation_if_protected job ''protected job was cancelled'' now db)))"
      using ok row i by (auto simp: cancel_job_def get_job_def waiting_state_def)
    then show ?thesis
      using waiting_cancel_refines [OF wf st True] refines_advance by simp
  next
    case False
    then obtain a where a: "live_attempt_for_job db job = Some a"
      using ok row i
      by (auto simp: cancel_job_def get_job_def waiting_state_def Let_def result_eqs split: if_splits)
    note facts = live_attempt_facts [OF wf a]
    define db1 where "db1 = append_event now (Some job) (Some (a_id a)) ''cancel_requested'' ''client''
             (Some (JObj [(''force'', JBool force)]))
             (set_attempt_cancel_requested (a_id a) force now db)"
    have wf1: "wf_tables db1" and abs1: "abs_queue db1 = abs_queue db"
      using wft by (simp_all add: db1_def wf_append_event wf_attempt_updates abs_simps)
    have "attempt_row db1 (a_id a) \<noteq> None"
      using facts(1) by (simp add: db1_def set_attempt_cancel_requested_def attempt_table.lookup_update)
    then obtain r1 where r1: "attempt_row db1 (a_id a) = Some r1" by blast
    have "q_attempt (abs_queue db1) (a_id a) = Some (job, a_state a)"
      using facts by (simp add: abs1)
    then have r1_facts: "a_job r1 = job" "a_state r1 = a_state a" using r1 by auto
    have same: "refines db db1" using wf1 abs1 by (rule refines_same)
    consider (prepared) "a_state a = A_Prepared" "db' = advance_dependency_graph now
                (append_event now (Some job) None ''job_cancelled'' ''client'' None
                  (update_job_state job J_Cancelled (Some ''cancelled before launch'') now
                    (release_lease (a_id a) now
                      (finalize_attempt (a_id a) A_Cancelled None None
                        (Some ''cancelled before launch authorization'') now db1))))"
      | (other) "db' = db1"
      using ok row i a False
      by (cases "a_state a")
        (auto simp: cancel_job_def get_job_def waiting_state_def Let_def db1_def split: if_splits)
    then show ?thesis
    proof cases
      case prepared
      let ?db2 = "release_lease (a_id a) now (finalize_attempt (a_id a) A_Cancelled None None
                        (Some ''cancelled before launch authorization'') now db1)"
      have "job_state_of db1 job \<noteq> None"
        using st by (metis abs1 abs_queue_sel(1) option.distinct(1))
      then have "refines db1 (update_job_state job J_Cancelled (Some ''cancelled before launch'') now ?db2)"
        using r1 r1_facts facts(3) wf1
        by (intro refines_finish [OF _ r1, where s = A_Cancelled and js = J_Cancelled])
          (simp_all add: wf_job_updates wf_attempt_updates finish_outcome.intros waiting_state_def
            abs_simps)
      then show ?thesis
        unfolding prepared(2) by (intro refines_advance refines_event refines_trans [OF same])
    next
      case other
      then show ?thesis using same by simp
    qed
  qed
qed

lemma yield_job_refines:
  assumes wf: "wf_db db" and ok: "yield_job job reason hold interactive now db = Inr (act, db')"
  shows "refines db db'"
proof -
  have "abs_queue db' = abs_queue db \<and> wf_tables db'"
    using ok wf_db_tables [OF wf]
    by (auto simp: yield_job_def Let_def result_eqs abs_simps wf_append_event wf_attempt_updates
        split: option.splits)
  then show ?thesis by (simp add: refines_same)
qed

lemma apply_hold_refines:
  assumes wf: "wf_db db" and ok: "apply_hold paths now job db = Inr (r, db')"
  shows "refines db db'"
proof -
  have wft: "wf_tables db" using wf by (rule wf_db_tables)
  from ok obtain row where row: "job_row db job = Some row" "j_state row = J_Queued"
    and fin: "finish_mutation paths now job [] (append_event now (Some (j_id row)) None ''job_held'' ''client'' None
           (update_job_state (j_id row) J_Held None now
             (invalidate_reservation_if_protected (j_id row) ''protected job was held'' now db))) = Inr (r, db')"
    by (auto simp: apply_hold_def result_eqs get_job_ok)
  have i: "j_id row = job" using job_row_id [OF row(1)] .
  note inv = invalidate_refines [OF wft, of job "''protected job was held''" now]
  let ?db0 = "invalidate_reservation_if_protected job ''protected job was held'' now db"
  have "job_state_of ?db0 job = Some J_Queued"
    using row by (simp add: job_state_of_invalidate [OF wft] job_row_state)
  then have "refines ?db0 (update_job_state job J_Held None now ?db0)"
    using inv by (intro refines_step) (auto simp: abs_simps wf_job_updates refines_def intro!: q_step.hold)
  then show ?thesis
    using finish_mutation_ok [OF fin] refines_event refines_trans [OF inv(1)] by (simp add: i)
qed

lemma apply_release_refines:
  assumes wf: "wf_db db" and ok: "apply_release paths now job db = Inr (r, db')"
  shows "refines db db'"
proof -
  from ok obtain row where row: "job_row db job = Some row" "j_state row = J_Held"
    and fin: "finish_mutation paths now job [] (append_event now (Some (j_id row)) None ''job_released'' ''client'' None
           (update_job_state (j_id row) J_Queued None now db)) = Inr (r, db')"
    by (auto simp: apply_release_def result_eqs get_job_ok)
  have i: "j_id row = job" using job_row_id [OF row(1)] .
  have "refines db (update_job_state job J_Queued None now db)"
    using job_row_state [OF row(1)] row(2) wf_db_tables [OF wf]
    by (intro refines_step) (auto simp: abs_simps wf_job_updates intro!: q_step.release)
  then show ?thesis
    using finish_mutation_ok [OF fin] refines_event by (simp add: i)
qed

lemma apply_retry_refines:
  assumes wf: "wf_db db" and ok: "apply_retry paths now job db = Inr (r, db')"
  shows "refines db db'"
proof -
  from ok obtain row where row: "job_row db job = Some row" "job_state_is_retryable (j_state row)"
    and fin: "finish_mutation paths now job [] (append_event now (Some (j_id row)) None ''job_retried'' ''client'' None
           (advance_dependency_graph now
             (clear_job_readiness (j_id row) now
               (set_job_retry_not_before (j_id row) None now
                 (update_job_state (j_id row) J_Queued None now db))))) = Inr (r, db')"
    by (auto simp: apply_retry_def result_eqs get_job_ok)
  have i: "j_id row = job" using job_row_id [OF row(1)] .
  have "refines db (clear_job_readiness job now (set_job_retry_not_before job None now
                 (update_job_state job J_Queued None now db)))"
    using job_row_state [OF row(1)] row(2) wf_db_tables [OF wf]
    by (intro refines_step) (auto simp: abs_simps wf_job_updates intro!: q_step.retry)
  then show ?thesis
    using finish_mutation_ok [OF fin] refines_event refines_advance by (simp add: i)
qed

lemma apply_set_max_parallel_runs_refines:
  assumes wf: "wf_db db" and ok: "apply_set_max_parallel_runs paths now job v db = Inr (r, db')"
  shows "refines db db'"
proof -
  have wft: "wf_tables db" using wf by (rule wf_db_tables)
  from ok obtain row where row: "job_row db job = Some row"
    by (auto simp: apply_set_max_parallel_runs_def result_eqs get_job_ok)
  consider (noop) "db' = db"
    | (changed) db1 db2 ji ai ty ac de where "refines db db1" "set_job_max_parallel_runs (j_id row) v now db1 = Inr db2"
        "db' = append_event now ji ai ty ac de db2"
  proof (cases "j_max_parallel_runs row = v")
    case True
    then show ?thesis
      using ok row that(1)
      by (auto simp: apply_set_max_parallel_runs_def result_eqs get_job_def Let_def
          dest: finish_mutation_ok split: if_splits)
  next
    case False
    then obtain active db1 db2 where
      pick: "(active, db1) = (None, invalidate_reservation_if_protected (j_id row)
                  ''protected job concurrency limit was changed'' now db) \<or>
        (\<exists>a. set_active_attempt_max_parallel_runs a v db = Inr db1)"
      and set: "set_job_max_parallel_runs (j_id row) v now db1 = Inr db2"
      and fin: "\<exists>ji ai ty ac de. finish_mutation paths now job [] (append_event now ji ai ty ac de db2) = Inr (r, db')"
      using ok row
      by (auto simp: apply_set_max_parallel_runs_def result_eqs get_job_def Let_def internal_eq_Inr
          split: if_splits) blast+
    have "refines db db1"
      using pick invalidate_refines(1) [OF wft] set_active_attempt_frame wft refines_same by blast
    then show ?thesis
      using set fin that(2) finish_mutation_ok by blast
  qed
  then show ?thesis
  proof cases
    case noop
    then show ?thesis using wft by (simp add: refines_refl)
  next
    case changed
    have "refines db1 db2"
      using changed(1,2) wf_set_job_max_parallel_runs abs_set_job_max_parallel_runs
      by (metis refines_def refines_same)
    then show ?thesis
      using changed refines_event refines_trans by metis
  qed
qed

lemma apply_set_priority_refines:
  assumes wf: "wf_db db" and ok: "apply_set_priority paths now job v db = Inr (r, db')"
  shows "refines db db'"
proof -
  have wft: "wf_tables db" using wf by (rule wf_db_tables)
  have changed: "refines db (append_event now ji ai ty ac de (set_job_priority i v now d))"
    if "refines db d" for d ji ai ty ac de i
    using that by (auto simp: refines_def abs_simps wf_append_event wf_job_updates)
  show ?thesis
    using ok
    by (auto simp: apply_set_priority_def result_eqs get_job_ok Let_def
        dest!: finish_mutation_ok split: if_splits
        intro!: changed refines_refl [OF wft] invalidate_refines(1) [OF wft])
qed

lemma apply_set_time_limit_refines:
  assumes wf: "wf_db db" and ok: "apply_set_time_limit paths now job limit db = Inr (r, db')"
  shows "refines db db'"
proof -
  have wft: "wf_tables db" using wf by (rule wf_db_tables)
  have changed: "refines db (append_event now ji ai ty ac de db1)"
    if "set_job_time_limit i stored now db = Inr db1" for i stored db1 ji ai ty ac de
    using that wft
    by (intro refines_event refines_same) (auto intro: wf_set_job_time_limit abs_set_job_time_limit)
  show ?thesis
    using ok refines_refl [OF wft]
    by (auto simp: apply_set_time_limit_def result_eqs get_job_ok Let_def internal_eq_Inr
        dest!: finish_mutation_ok split: if_splits intro: changed)
qed

lemma apply_recover_resolve_refines:
  assumes wf: "wf_db db" and ok: "apply_recover_resolve paths pv now job number as db = Inr (r, db')"
  shows "refines db db'"
proof -
  have wft: "wf_tables db" using wf by (rule wf_db_tables)
  obtain s js where res: "resolved_states as = (s, js)" and out: "finish_outcome s js" "\<not> waiting_state js"
    by (cases "as") (auto simp: waiting_state_def intro: finish_outcome.intros)
  from ok obtain a msg ty1 de1 where a: "attempt_by_number db job number = Some a"
    and st: "a_state a = A_Orphaned \<or> a_state a = A_Quarantined"
    and fin: "finish_mutation paths now job []
          (advance_dependency_graph now
            (append_event now (Some job) None ty1 ''client'' None
              (append_event now (Some job) (Some (a_id a)) ''recover_resolved'' ''client'' de1
                (update_job_state job js (Some msg) now
                  (release_lease (a_id a) now
                    (finalize_attempt (a_id a) s None None (Some msg) now db)))))) = Inr (r, db')"
    by (auto simp: apply_recover_resolve_def result_eqs Let_def res)
  have mem: "a \<in> set (attempts db)" "a_job a = job"
    using a by (auto simp: attempt_by_number_def dest: find_Some_mem)
  have row: "attempt_row db (a_id a) = Some a" using attempt_row_mem [OF wft mem(1)] .
  have live: "attempt_live (a_state a)" using st by auto
  have "q_attempt (abs_queue db) (a_id a) = Some (job, a_state a)" using row mem(2) by simp
  then have "job_state_of db job \<noteq> None"
    using wf unfolding wf_db_def q_inv_def inv_attempts_def by fastforce
  then have "refines db (update_job_state job js (Some msg) now
      (release_lease (a_id a) now (finalize_attempt (a_id a) s None None (Some msg) now db)))"
    using mem row live out wft
    by (intro refines_finish [OF _ row, where s = s and js = js])
      (simp_all add: wf_job_updates wf_attempt_updates abs_simps)
  then show ?thesis
    using finish_mutation_ok [OF fin] refines_event refines_advance by simp
qed

lemma apply_pause_refines:
  assumes wf: "wf_db db" and ok: "apply_pause paused now db = Inr (r, db')"
  shows "refines db db'"
proof -
  have "refines db (snd (set_paused paused now db))"
    using set_paused_frame wf_db_tables [OF wf] by (intro refines_same)
  then show ?thesis
    using ok by (auto simp: apply_pause_def split: prod.splits intro: refines_event)
qed

lemma apply_submit_refines:
  assumes wf: "wf_db db" and ok: "apply_submit paths now ctx p db = Inr (r, db')"
  shows "refines db db'"
proof -
  from ok obtain job db1 de where ins: "insert_job p now db = Inr (job, db1)"
    and db': "db' = advance_dependency_graph now (append_event now (Some job) None ''job_submitted'' ''client'' de
             (set_job_context job ctx db1))"
    by (auto simp: apply_submit_def result_eqs internal_eq_Inr Let_def)
  have "refines db db1"
    using insert_job_refines [OF wf ins] by (simp add: refines_def)
  then have "refines db (set_job_context job ctx db1)"
    by (simp add: refines_def abs_simps wf_job_updates)
  then show ?thesis
    unfolding db' by (intro refines_advance refines_event)
qed

lemma apply_mutation_refines:
  assumes wf: "wf_db db" and ok: "apply_mutation paths pv o' now ctx db = Inr (r, db')"
  shows "refines db db'"
proof (cases o')
  case (Cancel job force)
  with ok obtain acts db1 where c: "cancel_job job force now db = Inr (acts, db1)"
    and "finish_mutation paths now job acts db1 = Inr (r, db')"
    by (auto simp: apply_mutation_def result_eqs)
  then show ?thesis using cancel_job_refines [OF wf c] finish_mutation_ok by blast
next
  case (Yield job reason hold interactive)
  with ok obtain act db1 where y: "yield_job job reason hold interactive now db = Inr (act, db1)"
    and "finish_mutation paths now job [act] db1 = Inr (r, db')"
    by (auto simp: apply_mutation_def result_eqs)
  then show ?thesis using yield_job_refines [OF wf y] finish_mutation_ok by blast
qed (use ok in \<open>auto simp: apply_mutation_def
    dest: apply_submit_refines [OF wf] apply_hold_refines [OF wf] apply_release_refines [OF wf]
      apply_retry_refines [OF wf] apply_set_max_parallel_runs_refines [OF wf]
      apply_set_priority_refines [OF wf] apply_set_time_limit_refines [OF wf]
      apply_recover_resolve_refines [OF wf] apply_pause_refines [OF wf]\<close>)

end
