(* ===== verification/Examples.thy ===== *)
theory Examples
  imports Mutation_Proofs
begin

text \<open>
  A small database on which the witnesses of the properties evaluate: job 1 has a live attempt
  (number 1, the only lease holder) in a chosen state, jobs 2 and 3 wait without prerequisites,
  job 4 has failed, job 5 needs the success of job 4 and job 6 the success of job 5.
  \<open>wf_staged_db\<close> is its invariant; in \<open>sample_db\<close> the attempt is running.
\<close>

definition sample_job :: "job_id \<Rightarrow> job_state \<Rightarrow> int option \<Rightarrow> job_record" where
  "sample_job i s ready =
     \<lparr>j_id = i, j_name = ''train'', j_state = s, j_cwd = ''/w'', j_context = None, j_args = [''run''],
      j_env = [], j_max_parallel_runs = 2, j_priority = 0, j_max_attempts = 2, j_retry_delay_ms = 1000,
      j_time_limit_ms = None, j_time_limit_set_at = None, j_retry_not_before = None, j_ready_seq = ready,
      j_attempt_count = (if i = 1 then 1 else 0), j_yield_policy = None, j_state_reason = None,
      j_created_at = 0, j_updated_at = 0,
      j_finished_at = (if job_state_is_terminal s then Some 5 else None)\<rparr>"

text \<open>An orphan of this sample was cancelled with force.\<close>

definition staged_attempt :: "attempt_state \<Rightarrow> attempt_record" where
  "staged_attempt s =
     \<lparr>a_id = 1, a_job = 1, a_number = 1, a_state = s, a_launch_token = ''t1'',
      a_max_parallel_runs = 2, a_runner_pid = Some 100, a_runner_start_time = Some 7,
      a_runner_boot_id = Some ''boot'', a_cmd_pid = Some 101, a_cmd_pgid = Some 101,
      a_cmd_start_time = Some 8, a_command_started_at = Some 10, a_exit_code = None,
      a_term_signal = None, a_cancel_requested = (s = A_Orphaned), a_cancel_force = (s = A_Orphaned),
      a_cancel_requested_at = (if s = A_Orphaned then Some 0 else None), a_message = None, a_created_at = 6, a_authorized_at = Some 7,
      a_running_at = Some 10, a_finished_at = None, a_timed_out_at = None,
      a_yield_requested_at = None, a_yield_hold = False, a_yield_reason = None,
      a_yield_delivered_at = None\<rparr>"

definition sample_edge :: "job_id \<Rightarrow> job_id \<Rightarrow> dependency_row" where
  "sample_edge p c = \<lparr>d_parent = p, d_child = c, d_condition = Dep_Succeeded, d_resolution = None,
     d_parent_outcome = None, d_resolved_at = None\<rparr>"

definition staged_db :: "attempt_state \<Rightarrow> database" where
  "staged_db s = empty_db\<lparr>
     jobs := [sample_job 1 (job_phase s) (Some 1), sample_job 2 J_Queued None, sample_job 3 J_Queued None,
              sample_job 4 J_Failed (Some 2), sample_job 5 J_Queued None, sample_job 6 J_Queued None],
     dependencies := [sample_edge 4 5, sample_edge 5 6],
     attempts := [staged_attempt s],
     run_leases := [\<lparr>l_attempt = 1, l_job = 1, l_max_parallel_runs = 2, l_acquired_at = 6, l_released_at = None\<rparr>],
     job_seq := 6, attempt_seq := 1, ready_sequence := 2\<rparr>"

definition sample_db :: database where
  "sample_db = staged_db A_Running"

lemmas sample_defs = sample_db_def staged_db_def sample_job_def staged_attempt_def sample_edge_def empty_db_def

lemma staged_db_rows:
  "job_row (staged_db s) i =
     (if i = 1 then Some (sample_job 1 (job_phase s) (Some 1)) else if i = 2 then Some (sample_job 2 J_Queued None)
      else if i = 3 then Some (sample_job 3 J_Queued None) else if i = 4 then Some (sample_job 4 J_Failed (Some 2))
      else if i = 5 then Some (sample_job 5 J_Queued None) else if i = 6 then Some (sample_job 6 J_Queued None)
      else None)"
  "attempt_row (staged_db s) a = (if a = 1 then Some (staged_attempt s) else None)"
  "edge_row (staged_db s) p c =
     (if p = 4 \<and> c = 5 then Some (sample_edge 4 5) else if p = 5 \<and> c = 6 then Some (sample_edge 5 6) else None)"
  "open_attempts (staged_db s) = {1}" "protected_job (staged_db s) = None"
  by (auto simp: sample_defs job_row_def attempt_row_def edge_row_def open_attempts_def protected_job_def)

lemma job_phase_live [simp]: "\<not> job_state_is_terminal (job_phase s)" "live_job (job_phase s)"
  by (cases s; simp add: live_job_def)+

lemma wf_tables_staged_db: "wf_tables (staged_db s)"
  by (simp add: wf_tables_def wf_table_defs sample_defs wf_job_row_def)

lemma staged_queue:
  "q_job (abs_queue (staged_db s)) i =
     (if i = 1 then Some (job_phase s) else if i = 4 then Some J_Failed
      else if i = 2 \<or> i = 3 \<or> i = 5 \<or> i = 6 then Some J_Queued else None)"
  "q_ready (abs_queue (staged_db s)) i = (if i = 1 then Some 1 else if i = 4 then Some 2 else None)"
  "q_edge (abs_queue (staged_db s)) p c =
     (if p = 4 \<and> c = 5 \<or> p = 5 \<and> c = 6 then Some (Dep_Succeeded, None) else None)"
  "q_attempt (abs_queue (staged_db s)) a = (if a = 1 then Some (1, s) else None)"
  "q_open (abs_queue (staged_db s)) = {1}" "q_protected (abs_queue (staged_db s)) = None"
  "q_seq (abs_queue (staged_db s)) = 2"
  by (simp_all add: staged_db_rows job_state_of_def sample_job_def staged_attempt_def sample_edge_def edge_of_def)
    (simp add: sample_defs)

lemma wf_staged_db:
  assumes "attempt_live s"
  shows "wf_db (staged_db s)"
proof -
  have "edges_satisfied (abs_queue (staged_db s)) 1" "edges_satisfied (abs_queue (staged_db s)) 4"
    by (simp_all add: edges_satisfied_def staged_queue del: abs_queue_sel)
  then have "q_inv (abs_queue (staged_db s))"
    using assms
    unfolding q_inv_def inv_edges_def inv_ready_def inv_ran_def inv_attempts_def inv_single_def
      inv_live_def inv_protected_def
    by (auto simp: staged_queue live_job_def simp del: abs_queue_sel split: if_splits)
  then show ?thesis by (simp add: wf_db_def wf_tables_staged_db)
qed

lemmas sample_db_rows = staged_db_rows [of A_Running, folded sample_db_def]
  and sample_queue = staged_queue [of A_Running, folded sample_db_def]
  and wf_tables_sample_db = wf_tables_staged_db [of A_Running, folded sample_db_def]
  and wf_sample_db = wf_staged_db [of A_Running, folded sample_db_def, simplified]

end
