(* ===== verification/Graph_Properties.thy ===== *)
theory Graph_Properties
  imports Examples
begin

text \<open>
  What \<open>advance_dependency_graph\<close> promises on the tables: which jobs it skips, that it leaves
  nothing to do, and in which order jobs become ready. Also the guard and the order of schema
  migrations.
\<close>

section \<open>Rows after an advance\<close>

lemma job_row_make_ready_other:
  "k \<notin> set ids \<Longrightarrow> job_row (fold (make_ready now) ids db) k = job_row db k"
  by (induction ids arbitrary: db) (auto simp: job_row_make_ready)

lemma job_row_make_ready_nth:
  assumes "distinct ids" "n < length ids" "job_row db (ids ! n) = Some j"
  shows "job_row (fold (make_ready now) ids db) (ids ! n) =
    Some (ready_row now (ready_sequence db + int n + 1) j)"
  using assms
proof (induction ids arbitrary: db n)
  case (Cons i ids)
  show ?case
  proof (cases n)
    case 0
    then show ?thesis using Cons.prems by (simp add: job_row_make_ready_other job_row_make_ready)
  next
    case (Suc m)
    then have "ids ! m \<noteq> i" using Cons.prems by auto
    then have "job_row (make_ready now i db) (ids ! m) = Some j"
      using Cons.prems Suc by (simp add: job_row_make_ready)
    then show ?thesis
      using Cons.IH [of m "make_ready now i db"] Cons.prems Suc by (simp add: algebra_simps)
  qed
qed simp

lemma ready_sequence_skip_violated: "ready_sequence (skip_violated now db) = ready_sequence db"
proof -
  have "ready_sequence (fold (skip_child now) cs db) = ready_sequence db" for cs
    by (induction cs arbitrary: db)
      (auto simp: skip_child_def update_job_state_def clear_job_readiness_def split: prod.splits)
  then show ?thesis by (simp add: skip_violated_def)
qed

lemma ready_sequence_latch_outcomes: "ready_sequence (latch_outcomes now db) = ready_sequence db"
proof -
  have "ready_sequence (fold (latch_edge now) es db) = ready_sequence db" for es
    by (induction es arbitrary: db) (auto simp: latch_edge_def split: prod.splits)
  then show ?thesis by (simp add: latch_outcomes_def)
qed

lemma ready_sequence_advance_loop: "ready_sequence (advance_loop now db) = ready_sequence db"
proof (induction now db rule: advance_loop.induct)
  case (1 now db)
  then show ?case
    by (subst advance_loop.simps)
      (simp add: Let_def ready_sequence_skip_violated ready_sequence_latch_outcomes)
qed

lemma newly_ready_sorted: "wf_tables db \<Longrightarrow> sorted_wrt (<) (newly_ready now db)"
  unfolding newly_ready_def
  by (simp add: wf_tables_def wf_jobs_def sorted_wrt_map sorted_wrt_filter)

lemma newly_ready_row:
  assumes "wf_tables db" "i \<in> set (newly_ready now db)"
  obtains j where "job_row db i = Some j" "j_ready_seq j = None"
  using newly_ready_may [OF assms] by (auto simp: may_ready_def)

text \<open>A job is numbered by an advance exactly when it is newly ready after the loop.\<close>

lemma advance_ready_seq:
  assumes wf: "wf_tables db" and row: "job_row (advance_dependency_graph now db) i = Some r"
    and seq: "j_ready_seq r = Some n"
  shows "job_row (advance_loop now db) i = Some r \<or>
    (\<exists>k < length (newly_ready now (advance_loop now db)).
       newly_ready now (advance_loop now db) ! k = i \<and> n = ready_sequence db + int k + 1)"
proof (cases "i \<in> set (newly_ready now (advance_loop now db))")
  case True
  let ?ids = "newly_ready now (advance_loop now db)"
  have wf1: "wf_tables (advance_loop now db)" using advance_loop_refines [OF wf] by simp
  from True obtain k where k: "k < length ?ids" "?ids ! k = i" by (auto simp: in_set_conv_nth)
  obtain j where j: "job_row (advance_loop now db) i = Some j" "j_ready_seq j = None"
    by (rule newly_ready_row [OF wf1 True])
  have "job_row (advance_dependency_graph now db) i =
      Some (ready_row now (ready_sequence db + int k + 1) j)"
    using job_row_make_ready_nth [OF newly_ready_distinct [OF wf1] k(1), of "advance_loop now db" j now] k(2) j(1)
    by (simp add: advance_dependency_graph_def Let_def ready_sequence_advance_loop)
  then have "n = ready_sequence db + int k + 1" using row seq j(2) by (simp add: ready_row_def)
  then show ?thesis using k by blast
next
  case False
  then show ?thesis
    using row by (simp add: advance_dependency_graph_def Let_def job_row_make_ready_other)
qed

lemma ready_skip_children:
  "Option.bind (job_row (fold (skip_child now) cs db) i) j_ready_seq = Some n \<Longrightarrow>
     Option.bind (job_row db i) j_ready_seq = Some n"
proof (induction cs arbitrary: db)
  case (Cons cp cs)
  have "Option.bind (job_row (skip_child now cp db) i) j_ready_seq = Some n"
    using Cons.IH [of "skip_child now cp db"] Cons.prems by simp
  then show ?case
    by (cases "job_row db i")
      (auto simp: skip_child_def update_job_state_def clear_job_readiness_def
        job_table.lookup_update split: prod.splits if_splits)
qed simp

text \<open>The loop never numbers a job.\<close>

lemma ready_advance_loop:
  "Option.bind (job_row (advance_loop now db) i) j_ready_seq = Some n \<Longrightarrow>
     Option.bind (job_row db i) j_ready_seq = Some n"
proof (induction now db rule: advance_loop.induct)
  case (1 now db)
  have same: "job_row (latch_outcomes now db) i = job_row db i" by (simp add: job_row_def)
  show ?case
  proof (cases "violated_waiting (latch_outcomes now db) = []")
    case True
    then show ?thesis using "1.prems" same by (simp add: advance_loop.simps [of now db] Let_def)
  next
    case False
    then have "Option.bind (job_row (skip_violated now (latch_outcomes now db)) i) j_ready_seq = Some n"
      using "1.IH" [OF refl] "1.prems" by (simp add: advance_loop.simps [of now db] Let_def)
    then have "Option.bind (job_row (latch_outcomes now db) i) j_ready_seq = Some n"
      unfolding skip_violated_def by (rule ready_skip_children)
    then show ?thesis using same by simp
  qed
qed

lemma newly_numbered:
  assumes wf: "wf_tables db" and "q_ready (abs_queue db) i = None"
    and "q_ready (abs_queue (advance_dependency_graph now db)) i = Some n"
  obtains k where "k < length (newly_ready now (advance_loop now db))"
    "newly_ready now (advance_loop now db) ! k = i" "n = ready_sequence db + int k + 1"
proof -
  obtain r where r: "job_row (advance_dependency_graph now db) i = Some r" "j_ready_seq r = Some n"
    using assms(3) by (auto simp: bind_eq_Some_conv)
  have "job_row (advance_loop now db) i \<noteq> Some r"
    using ready_advance_loop [of now db i n] assms(2) r(2) by auto
  then show ?thesis using advance_ready_seq [OF wf r] that by blast
qed

lemma ready_sequence_make_ready_all:
  "ready_sequence (fold (make_ready now) ids db) = ready_sequence db + int (length ids)"
  by (induction ids arbitrary: db) simp_all

section \<open>Nothing is left to do\<close>

lemma stuck_queries:
  assumes wf: "wf_tables db" and "stuck (abs_queue db)"
  shows "unresolved_finished db = []" and "violated_waiting db = []"
proof -
  have no_step: "\<not> dep_step (abs_queue db) q" for q using assms(2) by (auto simp: stuck_def)
  have "(p, c, cond, s) \<notin> set (unresolved_finished db)" for p c cond s
    using no_step dep_step.dep_latch [of "abs_queue db" p c cond s]
    by (auto simp: unresolved_finished_mem [OF wf] edge_of_def)
  then show "unresolved_finished db = []" by (metis last_in_set prod_cases4)
  have "(c, p) \<notin> set (violated_waiting db)" for c p
  proof
    assume "(c, p) \<in> set (violated_waiting db)"
    then obtain d s where d: "edge_row db p c = Some d" "d_resolution d = Some Dep_Violated"
        "job_state_of db c = Some s" "waiting_state s"
      by (auto simp: violated_waiting_mem [OF wf])
    then obtain t where "d_parent_outcome d = Some t"
      using wf edge_row_mem [OF d(1)] by (fastforce simp: wf_tables_def wf_dependencies_def)
    with d show False
      using no_step dep_step.dep_skip [of "abs_queue db" c s p "d_condition d" t] by (auto simp: edge_of_def)
  qed
  then show "violated_waiting db = []" by (metis last_in_set surj_pair)
qed

lemma newly_ready_make_ready:
  "set (newly_ready now (make_ready now i db)) \<subseteq> set (newly_ready now db) - {i}"
proof -
  have rows: "jobs (make_ready now i db) =
      map (\<lambda>j. if j_id j = i then ready_row now (ready_sequence db + 1) j else j) (jobs db)"
    by (simp add: make_ready_alt assign_next_ready_seq_update update_job_def update_where_def ready_row_def)
  show ?thesis
    unfolding newly_ready_def rows
    by (force simp: ready_row_def simp del: ready_row_sel)
qed

lemma newly_ready_done: "newly_ready now (fold (make_ready now) (newly_ready now db) db) = []"
proof -
  have "set (newly_ready now (fold (make_ready now) ids db)) \<subseteq> set (newly_ready now db) - set ids" for ids
  proof (induction ids arbitrary: db)
    case (Cons i ids)
    show ?case using Cons.IH [of "make_ready now i db"] newly_ready_make_ready [of now i db] by auto
  qed simp
  then show ?thesis by (metis Diff_cancel set_empty subset_empty)
qed

section \<open>Properties\<close>


lemma doomed_sample: "doomed (abs_queue sample_db) 6"
proof -
  have "doomed (abs_queue sample_db) 5"
    by (rule doomed.unsuccessful [where s = J_Queued and p = 4 and t = J_Failed])
      (simp_all add: sample_queue waiting_state_def del: abs_queue_sel)
  then show ?thesis
    by (intro doomed.inherited [where c = 6 and s = J_Queued and p = 5])
      (simp_all add: sample_queue waiting_state_def del: abs_queue_sel)
qed


text \<open>
  Jobs become ready in submission order: two jobs numbered by the same pass over the graph
  get their readiness numbers in the order of their ids, behind every number given before.
\<close>

theorem readiness_order:
  assumes wf: "wf_tables db" and "db' = advance_dependency_graph now db"
    and "q_ready (abs_queue db) i = None" "q_ready (abs_queue db') i = Some n"
    and "q_ready (abs_queue db) k = None" "q_ready (abs_queue db') k = Some m"
  shows "ready_sequence db < n \<and> n \<le> ready_sequence db' \<and> (n < m \<longleftrightarrow> i < k)"
proof -
  let ?ids = "newly_ready now (advance_loop now db)"
  have wf1: "wf_tables (advance_loop now db)" using advance_loop_refines [OF wf] by simp
  obtain x where x: "x < length ?ids" "?ids ! x = i" "n = ready_sequence db + int x + 1"
    using newly_numbered [OF wf] assms(2-4) by blast
  obtain y where y: "y < length ?ids" "?ids ! y = k" "m = ready_sequence db + int y + 1"
    using newly_numbered [OF wf] assms(2,5,6) by blast
  have "x < y \<longleftrightarrow> i < k"
    using newly_ready_sorted [OF wf1, of now] x(1,2) y(1,2)
    by (metis linorder_neqE_nat order_less_asym order_less_irrefl sorted_wrt_nth_less)
  moreover have "ready_sequence db' = ready_sequence db + int (length ?ids)"
    by (simp add: assms(2) advance_dependency_graph_def Let_def ready_sequence_make_ready_all
        ready_sequence_advance_loop)
  ultimately show ?thesis using x y by auto
qed

lemma sample_ready:
  "Option.bind (job_row (advance_dependency_graph 20 sample_db) 2) j_ready_seq = Some 3"
  "Option.bind (job_row (advance_dependency_graph 20 sample_db) 3) j_ready_seq = Some 4"
  by code_simp+

theorem readiness_order_witness:
  "wf_tables sample_db \<and> q_ready (abs_queue (advance_dependency_graph 20 sample_db)) 2 = Some 3 \<and>
   q_ready (abs_queue (advance_dependency_graph 20 sample_db)) 3 = Some 4 \<and>
   3 \<le> ready_sequence (advance_dependency_graph 20 sample_db)"
  using readiness_order [of sample_db "advance_dependency_graph 20 sample_db" 20 2 3 3 4]
    wf_tables_sample_db sample_ready sample_db_rows(1) [of 2] sample_db_rows(1) [of 3]
  by (simp add: sample_job_def)



end
