(* ===== verification/Schedule.thy ===== *)
theory Schedule
  imports Mutation_Proofs
begin

text \<open>
  Model of \<open>Coordinator::schedule\<close> (\<^verbatim>\<open>src/src/daemon/coordinator.rs\<close>): the
  interpretation of the persisted reservation, the pass itself, and the transaction that commits
  its outcome. The random launch tokens are a parameter (\<open>tok\<close>, indexed by the attempt that
  gets the token). The result is the new admission block and either the error that rolled the
  transaction back or the attempts to launch and the new database.
\<close>

section \<open>Committing the outcome of a pass\<close>

type_synonym batch = "job_id \<Rightarrow> attempt_id option"

definition start_attempt ::
  "(attempt_id \<Rightarrow> string) \<Rightarrow> millis \<Rightarrow> start \<Rightarrow> (batch \<times> attempt_id list) \<times> database \<Rightarrow>
     string + ((batch \<times> attempt_id list) \<times> database)" where
  "start_attempt tok now st acc =
     (case acc of ((batch, launched), db) \<Rightarrow>
        bindE (ok_or ''scheduled job exists'' (job_row db (start_job st))) (\<lambda>job.
        bindE (ensure (j_state job = J_Queued)
                 (''revalidation failed: job '' @ show_int (j_id job) @ '' is '' @
                  job_state_as_str (j_state job))) (\<lambda>_.
        bindE (create_attempt_with_lease job (tok (attempt_seq db + 1)) now db) (\<lambda>(a, db1).
          Inr ((batch(j_id job \<mapsto> a_id a), launched @ [a_id a]),
            append_event now (Some (j_id job)) (Some (a_id a)) ''attempt_prepared'' ''daemon''
              (Some (JObj [(''number'', JInt (a_number a)),
                 (''maxParallelRuns'', JInt (int (j_max_parallel_runs job))),
                 (''backfill'', JBool (consumes_bypass st))])) db1)))))"

definition commit_freeze ::
  "reservation_info option \<Rightarrow> int option \<Rightarrow> millis \<Rightarrow> database \<Rightarrow> string + database" where
  "commit_freeze reservation pending now db =
     (case (reservation, pending) of
        (Some res, Some cutoff) \<Rightarrow>
          Inr (append_event now (Some (ri_job_id res)) None ''backfill_cutoff_frozen'' ''daemon''
            (Some (JObj [(''backfillCutoff'', JInt cutoff)]))
            (freeze_reservation_cutoff (ri_id res) cutoff db))
      | _ \<Rightarrow> Inl ''freeze without reservation'')"

definition commit_satisfy ::
  "(int \<times> job_id) option \<Rightarrow> millis \<Rightarrow> database \<Rightarrow> string + ((int \<times> job_id) option \<times> database)" where
  "commit_satisfy current now db =
     bindE (ok_or ''satisfy without reservation'' current) (\<lambda>(rid, job).
       Inr (None, append_event now (Some job) None ''reservation_satisfied'' ''daemon'' None
         (resolve_reservation rid Res_Satisfied ''protected job started'' now db)))"

definition commit_invalidate ::
  "string \<Rightarrow> (int \<times> job_id) option \<Rightarrow> millis \<Rightarrow> database \<Rightarrow> string + ((int \<times> job_id) option \<times> database)" where
  "commit_invalidate reason current now db =
     bindE (ok_or ''invalidate without reservation'' current) (\<lambda>(rid, job).
       Inr (None, append_event now (Some job) None ''reservation_invalidated'' ''daemon''
         (Some (JObj [(''reason'', JStr reason)]))
         (resolve_reservation rid Res_Invalidated reason now db)))"

definition commit_create ::
  "new_reservation \<Rightarrow> start list \<Rightarrow> (attempt_id \<times> active_lease) list \<Rightarrow> batch \<Rightarrow> millis \<Rightarrow>
     database \<Rightarrow> string + ((int \<times> job_id) option \<times> database)" where
  "commit_create nr starts leases batch now db =
     (let lease_attempt_by_job = map_of (rev (map (\<lambda>(a, l). (lease_job l, a)) leases));
          blockers = map fst leases @
            List.map_filter (\<lambda>s. if start_bypasses s \<noteq> Some (nr_job nr) then batch (start_job s) else None)
              starts;
          consumed = sorted_list_of_set (nr_initial_consumed nr)
      in bindE (create_reservation (nr_job nr) SCHEDULER_SEMANTICS_VERSION blockers now db) (\<lambda>(rid, db1).
           Inr (Some (rid, nr_job nr),
             append_event now (Some (nr_job nr)) None ''reservation_created'' ''daemon''
               (Some (JObj [(''initialBlockers'', JArr (map JInt blockers)),
                  (''initialConsumed'', JArr (map JInt consumed))]))
               (fold (\<lambda>job db. record_backfill rid job ''initial_active''
                    (case lease_attempt_by_job job of Some a \<Rightarrow> Some a | None \<Rightarrow> batch job) now db)
                 consumed db1))))"

definition commit_backfill ::
  "(int \<times> job_id) option \<Rightarrow> (int \<times> job_id) option \<Rightarrow> batch \<Rightarrow> millis \<Rightarrow> start \<Rightarrow> database \<Rightarrow>
     string + database" where
  "commit_backfill current old batch now st db =
     (case start_bypasses st of
        None \<Rightarrow> Inr db
      | Some bypassed \<Rightarrow>
          bindE (ok_or ''backfill without matching reservation''
                   (List.find (\<lambda>(_, job). job = bypassed)
                     (List.map_filter id [current, old]))) (\<lambda>(rid, _).
            Inr (append_event now (Some (start_job st)) (batch (start_job st)) ''backfill_admitted'' ''daemon''
              (Some (JObj [(''bypassedProtectedJob'', JInt bypassed)]))
              (record_backfill rid (start_job st) ''admitted'' (batch (start_job st)) now db))))"

definition commit_reservation ::
  "millis \<Rightarrow> (attempt_id \<times> active_lease) list \<Rightarrow> reservation_info option \<Rightarrow>
     int option \<Rightarrow> bool \<Rightarrow> pass_outcome \<Rightarrow> batch \<Rightarrow> database \<Rightarrow> string + database" where
  "commit_reservation now leases reservation pending freeze out batch db =
     bindE (if freeze then commit_freeze reservation pending now db else Inr db) (\<lambda>db2.
     let old = map_option (\<lambda>res. (ri_id res, ri_job_id res)) reservation in
     bindE (if po_satisfy_reservation out then commit_satisfy old now db2 else Inr (old, db2))
       (\<lambda>(cur3, db3).
     bindE (case po_invalidate_reservation out of
              Some reason \<Rightarrow> commit_invalidate reason cur3 now db3
            | None \<Rightarrow> Inr (cur3, db3)) (\<lambda>(cur4, db4).
     bindE (case po_create_reservation out of
              Some nr \<Rightarrow> commit_create nr (po_starts out) leases batch now db4
            | None \<Rightarrow> Inr (cur4, db4)) (\<lambda>(cur5, db5).
       foldE (commit_backfill cur5 old batch now) (po_starts out) db5))))"

definition commit_pass ::
  "(attempt_id \<Rightarrow> string) \<Rightarrow> millis \<Rightarrow> (attempt_id \<times> active_lease) list \<Rightarrow> reservation_info option \<Rightarrow>
     int option \<Rightarrow> bool \<Rightarrow> pass_outcome \<Rightarrow> database \<Rightarrow> string + (attempt_id list \<times> database)" where
  "commit_pass tok now leases reservation pending freeze out db =
     bindE (foldE (start_attempt tok now) (po_starts out) ((\<lambda>_. None, []), db)) (\<lambda>((batch, launched), db1).
     bindE (commit_reservation now leases reservation pending freeze out batch db1) (\<lambda>db2.
       Inr (launched, db2)))"

section \<open>The pass\<close>

definition reservation_unsupported :: "database \<Rightarrow> bool" where
  "reservation_unsupported db =
     (case active_reservation db of
        Some res \<Rightarrow> (case backfill_frontier db res of Unsupported _ \<Rightarrow> True | _ \<Rightarrow> False)
      | None \<Rightarrow> False)"

text \<open>
  The snapshot handed to the pass and the cutoff to pin, or the reason why admission is blocked.
\<close>

definition interpret_reservation ::
  "database \<Rightarrow> reservation_info option \<Rightarrow> string + (reservation_snapshot option \<times> int option)" where
  "interpret_reservation db reservation =
     (case reservation of
        None \<Rightarrow> Inr (None, None)
      | Some res \<Rightarrow>
          (let snap = (\<lambda>cutoff. Some \<lparr>snap_job = ri_job_id res, snap_cutoff_seq = cutoff,
                 snap_consumed = ri_consumed res\<rparr>) in
           case backfill_frontier db res of
             OpenWindow \<Rightarrow> Inr (snap None, None)
           | Frozen cutoff \<Rightarrow> Inr (snap (Some cutoff), None)
           | FreezePending cutoff \<Rightarrow> Inr (snap (Some cutoff), Some cutoff)
           | Unsupported version \<Rightarrow>
               Inl (''active reservation '' @ show_int (ri_id res) @ '' uses scheduler semantics version '' @
                 show_int version @ '' (daemon implements '' @ show_int SCHEDULER_SEMANTICS_VERSION @
                 ''); admission blocked until an operator migrates or resolves it'')))"

definition schedule ::
  "(attempt_id \<Rightarrow> string) \<Rightarrow> millis \<Rightarrow> string option \<Rightarrow> database \<Rightarrow>
     string option \<times> (string + (attempt_id list \<times> database))" where
  "schedule tok now blocked db =
     (if blocked \<noteq> None \<and> reservation_unsupported db then (blocked, Inr ([], db))
      else if is_paused db then (None, Inr ([], db))
      else
        (let leases = active_leases db;
             reservation = active_reservation db
         in case interpret_reservation db reservation of
              Inl reason \<Rightarrow> (Some reason, Inr ([], db))
            | Inr (snapshot, pending) \<Rightarrow>
                (None,
                 bindE (plan_pass (map snd leases) (eligible_candidates db now) snapshot) (\<lambda>out.
                   let freeze = (pending \<noteq> None \<and> \<not> po_satisfy_reservation out \<and>
                                 po_invalidate_reservation out = None)
                   in if po_starts out = [] \<and> \<not> po_satisfy_reservation out \<and>
                         po_invalidate_reservation out = None \<and> po_create_reservation out = None \<and>
                         \<not> freeze
                      then Inr ([], db)
                      else commit_pass tok now leases reservation pending freeze out db))))"

end
