(* ===== verification/Reconcile.thy ===== *)
theory Reconcile
  imports Schedule Artifacts
begin

text \<open>
  Model of the reconciliation half of \<^verbatim>\<open>src/src/daemon/coordinator.rs\<close>: how the
  coordinator turns the artifacts of an attempt directory and the process table into committed
  state, and how it launches runners. The coordinator is a record; the attempt directories, the
  signals it sends and the runners it spawns are part of the state, so that every effect of a
  handler is visible in its result.

  What the surroundings answer while one message is handled is a value of \<open>world\<close>: the clock
  readings (\<open>now_ms\<close> and \<open>Instant::now\<close>), the view of \<open>/proc\<close>, the random launch tokens,
  and the failures of the file system and of process creation.

  A method returning \<open>Result<()>\<close> gives the error, if any, together with the state it leaves:
  an error rolls back the open transaction, but not the effects before it.
\<close>

section \<open>The coordinator and its surroundings\<close>

record world =
  w_now :: millis
  w_instant :: nat
  w_proc :: proc_view
  w_write_fault :: "attempt_id \<Rightarrow> string \<Rightarrow> disk_fault option"
  w_mkdir_error :: "attempt_id \<Rightarrow> string option"
  w_spawn_error :: "attempt_id \<Rightarrow> string option"
  w_token :: "attempt_id \<Rightarrow> string"

record coordinator =
  co_db :: database
  co_config :: config
  co_paths :: paths
  co_started_at :: millis
  co_admission_blocked :: "string option"
  co_spawned :: "attempt_id \<Rightarrow> nat option"
  co_orphan_term_sent :: "attempt_id set"
  co_revisions :: "int list"
  co_published_revision :: int
  co_published_admission_blocked :: bool
  co_dirs :: "attempt_id \<Rightarrow> attempt_dir"
  co_signals :: "(int \<times> signal) list"
  co_runners :: "attempt_id list"

type_synonym outcome = "string option \<times> coordinator"

definition set_db :: "database \<Rightarrow> coordinator \<Rightarrow> coordinator" where
  "set_db db co = co\<lparr>co_db := db\<rparr>"

definition update_dir :: "attempt_id \<Rightarrow> (attempt_dir \<Rightarrow> attempt_dir) \<Rightarrow> coordinator \<Rightarrow> coordinator" where
  "update_dir a f co = co\<lparr>co_dirs := (co_dirs co)(a := f (co_dirs co a))\<rparr>"

definition create_dir :: "world \<Rightarrow> attempt_id \<Rightarrow> attempt_dir \<Rightarrow> attempt_dir" where
  "create_dir w a dir = (if w_mkdir_error w a = None then dir\<lparr>ad_exists := True\<rparr> else dir)"

definition write_file ::
  "world \<Rightarrow> attempt_id \<Rightarrow> string \<Rightarrow> bool \<Rightarrow> bool \<Rightarrow> (attempt_dir \<Rightarrow> attempt_dir) \<Rightarrow> attempt_dir \<Rightarrow>
     write_error option \<times> attempt_dir" where
  "write_file w a name = store_artifact (w_write_fault w a name) name"

definition write_cancel :: "world \<Rightarrow> attempt_id \<Rightarrow> string \<Rightarrow> bool \<Rightarrow> millis option \<Rightarrow> attempt_dir \<Rightarrow> attempt_dir" where
  "write_cancel w a token force requested_at dir =
     snd (write_file w a CANCEL_FILE False (ad_cancel dir \<noteq> Absent)
       (\<lambda>d. d\<lparr>ad_cancel := Present \<lparr>caf_token = token, caf_force = force,
          caf_requested_at = requested_at\<rparr>\<rparr>) dir)"

definition write_start :: "world \<Rightarrow> attempt_id \<Rightarrow> string \<Rightarrow> attempt_dir \<Rightarrow> attempt_dir" where
  "write_start w a token dir =
     snd (write_file w a START_FILE True (ad_start dir \<noteq> Absent)
       (\<lambda>d. d\<lparr>ad_start := Present \<lparr>sf_token = token\<rparr>\<rparr>) dir)"

definition publish_time_limit ::
  "world \<Rightarrow> attempt_id \<Rightarrow> string \<Rightarrow> nat option \<Rightarrow> millis \<Rightarrow> coordinator \<Rightarrow> coordinator" where
  "publish_time_limit w a token time_limit_ms updated_at =
     update_dir a (\<lambda>dir.
       let dir = create_dir w a dir in
       snd (write_file w a LIMIT_FILE False (ad_limit dir \<noteq> Absent)
         (\<lambda>d. d\<lparr>ad_limit := Present \<lparr>lf_token = token, lf_time_limit_ms = time_limit_ms,
            lf_updated_at = Some updated_at\<rparr>\<rparr>) dir))"

definition published_time_limit_is_current ::
  "attempt_dir \<Rightarrow> string \<Rightarrow> nat option \<Rightarrow> millis option \<Rightarrow> bool" where
  "published_time_limit_is_current dir token desired set_at =
     (case ad_limit dir of
        Present l \<Rightarrow> lf_token l = token \<and> lf_time_limit_ms l = desired \<and> lf_updated_at l = set_at
      | Absent \<Rightarrow>
          (case ad_command dir of
             Present c \<Rightarrow> if cf_token c = token then cf_time_limit_ms c = desired \<and> set_at = None else True
           | _ \<Rightarrow> True)
      | Corrupt _ \<Rightarrow> False)"

definition publish_yield :: "world \<Rightarrow> attempt_id \<Rightarrow> string \<Rightarrow> millis \<Rightarrow> coordinator \<Rightarrow> coordinator" where
  "publish_yield w a token requested_at =
     update_dir a (\<lambda>dir. snd (write_file w a YIELD_FILE False (ad_yield dir \<noteq> Absent)
       (\<lambda>d. d\<lparr>ad_yield := Present \<lparr>yf_token = token, yf_requested_at = requested_at\<rparr>\<rparr>) dir))"

fun perform :: "world \<Rightarrow> publish \<Rightarrow> coordinator \<Rightarrow> coordinator" where
  "perform w (PubCancel a token force requested_at) co =
     update_dir a (\<lambda>dir. write_cancel w a token force (Some requested_at) (create_dir w a dir)) co"
| "perform w (PubTimeLimit a token limit updated_at) co = publish_time_limit w a token limit updated_at co"
| "perform w (PubYield a token requested_at) co = publish_yield w a token requested_at co"

section \<open>The end of an attempt\<close>

text \<open>What an attempt's end does to its job (the \<open>match\<close> of \<open>finalize_attempt_and_job\<close>).\<close>

definition finalize_job ::
  "millis \<Rightarrow> attempt_record \<Rightarrow> attempt_state \<Rightarrow> string option \<Rightarrow> string \<Rightarrow> job_record \<Rightarrow> database \<Rightarrow>
     string + database" where
  "finalize_job now a state message actor job db =
     (let i = j_id job in
      case state of
        A_Succeeded \<Rightarrow>
          Inr (append_event now (Some i) None ''job_succeeded'' actor None
            (update_job_state i J_Succeeded None now db))
      | A_Cancelled \<Rightarrow>
          Inr (append_event now (Some i) None ''job_cancelled'' actor None
            (update_job_state i J_Cancelled message now db))
      | A_Lost \<Rightarrow>
          if a_yield_delivered_at a \<noteq> None \<and> \<not> a_cancel_requested a then
            Inr (append_event now (Some i) None ''job_held'' actor None
              (clear_job_readiness i now
                (set_job_retry_not_before i None now
                  (update_job_state i J_Held
                    (Some ''runner died after delivering a yield request; the command's outcome is unknown (release to resume, or cancel)'')
                    now db))))
          else
            Inr (append_event now (Some i) None ''job_lost'' actor None
              (update_job_state i J_Lost message now db))
      | A_Yielded \<Rightarrow>
          if a_cancel_requested a then
            Inr (append_event now (Some i) None ''job_cancelled'' actor None
              (update_job_state i J_Cancelled message now db))
          else
            Inr (append_event now (Some i) (Some (a_id a)) ''job_yielded'' actor
                (Some (JObj [(''reason'', json_opt JStr (a_yield_reason a)), (''hold'', JBool (a_yield_hold a))]))
              (clear_job_readiness i now
                (set_job_retry_not_before i None now
                  (update_job_state i (if a_yield_hold a then J_Held else J_Queued)
                    (Some (case a_yield_reason a of Some r \<Rightarrow> ''yielded: '' @ r | None \<Rightarrow> ''yielded''))
                    now db))))
      | A_Failed \<Rightarrow>
          (let attempts_used = j_attempt_count job - yield_count db i in
           if attempts_used < j_max_attempts job \<and> \<not> a_cancel_requested a then
             (let not_before = (if j_retry_delay_ms job > 0
                                then Some (saturating_add now (j_retry_delay_ms job)) else None)
              in Inr (append_event now (Some i) (Some (a_id a)) ''retry_scheduled'' ''daemon''
                  (Some (JObj [(''attemptsUsed'', JInt attempts_used),
                     (''maxAttempts'', JInt (j_max_attempts job)),
                     (''notBefore'', json_opt JInt not_before)]))
                (clear_job_readiness i now
                  (set_job_retry_not_before i not_before now
                    (update_job_state i J_Queued message now db)))))
           else
             Inr (append_event now (Some i) None ''job_failed'' actor None
               (update_job_state i J_Failed message now db)))
      | _ \<Rightarrow> Inl ''internal error: entered unreachable code: finalize called with non-terminal state'')"

text \<open>The attempt itself: its terminal state, its lease, and their events.\<close>

definition close_attempt ::
  "millis \<Rightarrow> attempt_record \<Rightarrow> attempt_state \<Rightarrow> int option \<Rightarrow> int option \<Rightarrow> string option \<Rightarrow> string \<Rightarrow>
     database \<Rightarrow> database" where
  "close_attempt now a state exit_code term_signal message actor db =
     (let db1 = append_event now (Some (a_job a)) (Some (a_id a))
                  (''attempt_'' @ attempt_state_as_str state) actor
                  (map_option (\<lambda>m. JObj [(''message'', JStr m)]) message)
                  (release_lease (a_id a) now
                    (finalize_attempt (a_id a) state exit_code term_signal message now db))
      in if a_yield_requested_at a \<noteq> None \<and> state \<noteq> A_Yielded then
           append_event now (Some (a_job a)) (Some (a_id a)) ''yield_unfulfilled'' actor
             (Some (JObj [(''delivered'', JBool (a_yield_delivered_at a \<noteq> None))])) db1
         else db1)"

definition finalize_tx ::
  "millis \<Rightarrow> attempt_record \<Rightarrow> attempt_state \<Rightarrow> int option \<Rightarrow> int option \<Rightarrow> string option \<Rightarrow> string \<Rightarrow>
     database \<Rightarrow> string + database" where
  "finalize_tx now a state exit_code term_signal message actor db =
     (let db2 = close_attempt now a state exit_code term_signal message actor db
      in bindE (ok_or ''job of finalized attempt'' (job_row db2 (a_job a))) (\<lambda>job.
         bindE (if job_state_is_terminal (j_state job) then Inr db2
                else finalize_job now a state message actor job db2) (\<lambda>db3.
           Inr (advance_dependency_graph now db3))))"

definition finalize_attempt_and_job ::
  "world \<Rightarrow> attempt_record \<Rightarrow> attempt_state \<Rightarrow> int option \<Rightarrow> int option \<Rightarrow> string option \<Rightarrow> string \<Rightarrow>
     coordinator \<Rightarrow> outcome" where
  "finalize_attempt_and_job w a state exit_code term_signal message actor co =
     (case finalize_tx (w_now w) a state exit_code term_signal message actor (co_db co) of
        Inl e \<Rightarrow> (Some e, co)
      | Inr db \<Rightarrow>
          (None, co\<lparr>co_db := db, co_spawned := (co_spawned co)(a_id a := None),
             co_orphan_term_sent := co_orphan_term_sent co - {a_id a}\<rparr>))"

definition result_state :: "result_file \<Rightarrow> attempt_state \<times> string option" where
  "result_state result =
     (case rf_outcome result of
        RO_Exited \<Rightarrow>
          if rf_exit_code result = Some 0 then (A_Succeeded, rf_message result)
          else
            (let describe = (case (rf_exit_code result, rf_term_signal result) of
                   (Some code, _) \<Rightarrow> ''command exited with code '' @ show_int code
                 | (None, Some signal) \<Rightarrow> ''command terminated by signal '' @ show_int signal
                 | (None, None) \<Rightarrow> ''command exited abnormally'')
             in (A_Failed, Some (case rf_message result of
                   Some extra \<Rightarrow> describe @ '' ('' @ extra @ '')''
                 | None \<Rightarrow> describe)))
      | RO_LaunchFailed \<Rightarrow> (A_Failed, rf_message result)
      | RO_AuthorizationTimeout \<Rightarrow> (A_Failed, rf_message result)
      | RO_TimedOut \<Rightarrow> (A_Failed, rf_message result)
      | RO_Cancelled \<Rightarrow> (A_Cancelled, rf_message result)
      | RO_Yielded \<Rightarrow> (A_Yielded, rf_message result))"

definition finalize_from_result :: "world \<Rightarrow> attempt_record \<Rightarrow> result_file \<Rightarrow> coordinator \<Rightarrow> outcome" where
  "finalize_from_result w a result co =
     (let (state, message) = result_state result
      in finalize_attempt_and_job w a state (rf_exit_code result) (rf_term_signal result) message
           ''runner'' co)"

definition quarantine_tx :: "millis \<Rightarrow> attempt_record \<Rightarrow> string \<Rightarrow> database \<Rightarrow> database" where
  "quarantine_tx now a reason db =
     append_event now (Some (a_job a)) (Some (a_id a)) ''attempt_quarantined'' ''daemon''
       (Some (JObj [(''reason'', JStr reason)]))
       (update_job_state (a_job a) J_NeedsAttention (Some (''attempt quarantined: '' @ reason)) now
         (set_attempt_state (a_id a) A_Quarantined (Some reason) db))"

definition quarantine :: "world \<Rightarrow> attempt_record \<Rightarrow> string \<Rightarrow> coordinator \<Rightarrow> outcome" where
  "quarantine w a reason co =
     (None, if a_state a = A_Quarantined then co else set_db (quarantine_tx (w_now w) a reason (co_db co)) co)"

section \<open>Launching a runner\<close>

definition command_env :: "job_record \<Rightarrow> attempt_record \<Rightarrow> (string \<times> string) list" where
  "command_env job a =
     (let env = btree_insert str_less ''MLQ_ATTEMPT'' (show_int (a_number a))
                  (btree_insert str_less ''MLQ_JOB_ID'' (show_int (j_id job)) (j_env job))
      in case j_yield_policy job of
           None \<Rightarrow> env
         | Some policy \<Rightarrow>
             btree_insert str_less ''MLQ_YIELD_EXIT_CODE'' (show_nat (yp_exit_code policy))
               (btree_insert str_less ''MLQ_YIELD_SIGNAL'' (yield_signal_as_str (yp_signal policy)) env))"

definition command_record :: "config \<Rightarrow> job_record \<Rightarrow> attempt_record \<Rightarrow> command_file" where
  "command_record cfg job a =
     \<lparr>cf_attempt_id = a_id a, cf_job_id = j_id job, cf_token = a_launch_token a, cf_argv = j_args job,
      cf_cwd = j_cwd job, cf_env = command_env job a, cf_start_wait_ms = cfg_runner_start_wait_ms cfg,
      cf_cancel_grace_ms = cfg_cancel_grace_ms cfg, cf_poll_ms = cfg_runner_poll_ms cfg,
      cf_time_limit_ms = map_option as_u64 (j_time_limit_ms job), cf_yield_policy = j_yield_policy job\<rparr>"

text \<open>The first artifact of a previous life, if any.\<close>

definition stale_file :: "attempt_dir \<Rightarrow> string option" where
  "stale_file dir =
     (if ad_identity dir \<noteq> Absent then Some IDENTITY_FILE
      else if ad_start dir \<noteq> Absent then Some START_FILE
      else if ad_exec dir \<noteq> Absent then Some EXEC_FILE
      else if ad_result dir \<noteq> Absent then Some RESULT_FILE
      else None)"

definition prepare_command ::
  "world \<Rightarrow> config \<Rightarrow> job_record \<Rightarrow> attempt_record \<Rightarrow> attempt_dir \<Rightarrow> string option \<times> attempt_dir" where
  "prepare_command w cfg job a dir =
     (case ad_command dir of
        Present existing \<Rightarrow>
          (if cf_token existing = a_launch_token a then None
           else Some ''attempt directory reused with a different token'', dir)
      | Corrupt err \<Rightarrow> (Some (''corrupt command artifact: '' @ err), dir)
      | Absent \<Rightarrow>
          (case stale_file dir of
             Some stale \<Rightarrow>
               (Some (''attempt directory contains stale '' @ stale @ '' without a command record''), dir)
           | None \<Rightarrow>
               (let (err, dir') = write_file w (a_id a) COMMAND_FILE True False
                      (\<lambda>d. d\<lparr>ad_command := Present (command_record cfg job a)\<rparr>) dir
                in (map_option write_error_text err, dir'))))"

definition try_launch :: "world \<Rightarrow> attempt_id \<Rightarrow> coordinator \<Rightarrow> outcome" where
  "try_launch w i co =
     (case attempt_row (co_db co) i of
        None \<Rightarrow> (Some ''attempt to launch exists'', co)
      | Some a \<Rightarrow>
          (case job_row (co_db co) (a_job a) of
             None \<Rightarrow> (Some ''job of attempt exists'', co)
           | Some job \<Rightarrow>
               if \<not> ad_exists (co_dirs co (a_id a)) \<and> w_mkdir_error w (a_id a) \<noteq> None
               then (w_mkdir_error w (a_id a), co)
               else
                 (let (err, dir) = prepare_command w (co_config co) job a
                        ((co_dirs co (a_id a))\<lparr>ad_exists := True\<rparr>);
                      co = update_dir (a_id a) (\<lambda>_. dir) co
                  in if err \<noteq> None then (err, co)
                     else
                       (case w_spawn_error w (a_id a) of
                          Some e \<Rightarrow> (Some e, co)
                        | None \<Rightarrow>
                            (None, co\<lparr>co_runners := co_runners co @ [a_id a],
                               co_db := append_event (w_now w) (Some (j_id job)) (Some (a_id a))
                                 ''runner_spawned'' ''daemon'' None (co_db co)\<rparr>)))))"

definition launch :: "world \<Rightarrow> attempt_id \<Rightarrow> coordinator \<Rightarrow> coordinator" where
  "launch w i co =
     (case try_launch w i (co\<lparr>co_spawned := (co_spawned co)(i \<mapsto> w_instant w)\<rparr>) of
        (None, co) \<Rightarrow> co
      | (Some err, co) \<Rightarrow>
          (case attempt_row (co_db co) i of
             None \<Rightarrow> co
           | Some a \<Rightarrow>
               if attempt_state_is_terminal (a_state a) then co
               else snd (finalize_attempt_and_job w a A_Failed None None
                      (Some (''runner spawn failed: '' @ err)) ''daemon'' co)))"

section \<open>One attempt\<close>

definition observe_yield_delivery :: "attempt_record \<Rightarrow> coordinator \<Rightarrow> attempt_record \<times> coordinator" where
  "observe_yield_delivery a co =
     (if a_yield_requested_at a = None \<or> a_yield_delivered_at a \<noteq> None then (a, co)
      else
        (case ad_yield_sent (co_dirs co (a_id a)) of
           Present sent \<Rightarrow>
             if ysf_token sent = a_launch_token a then
               (a\<lparr>a_yield_delivered_at := Some (ysf_sent_at sent)\<rparr>,
                set_db (set_attempt_yield_delivered (a_id a) (ysf_sent_at sent) (co_db co)) co)
             else (a, co)
         | _ \<Rightarrow> (a, co)))"

definition republish_cancel :: "world \<Rightarrow> attempt_record \<Rightarrow> coordinator \<Rightarrow> coordinator" where
  "republish_cancel w a co =
     (if a_cancel_requested a \<and> \<not> attempt_state_is_terminal (a_state a) \<and>
         \<not> (case ad_cancel (co_dirs co (a_id a)) of
              Present c \<Rightarrow> caf_token c = a_launch_token a \<and> caf_force c = a_cancel_force a \<and>
                caf_requested_at c = a_cancel_requested_at a
            | _ \<Rightarrow> False)
      then update_dir (a_id a)
        (write_cancel w (a_id a) (a_launch_token a) (a_cancel_force a) (a_cancel_requested_at a)) co
      else co)"

definition republish_yield :: "world \<Rightarrow> attempt_record \<Rightarrow> coordinator \<Rightarrow> coordinator" where
  "republish_yield w a co =
     (case a_yield_requested_at a of
        None \<Rightarrow> co
      | Some requested_at \<Rightarrow>
          if a_state a = A_Running \<and>
             \<not> (case ad_yield (co_dirs co (a_id a)) of
                  Present y \<Rightarrow> yf_token y = a_launch_token a \<and> yf_requested_at y = requested_at
                | _ \<Rightarrow> False)
          then publish_yield w (a_id a) (a_launch_token a) requested_at co
          else co)"

definition republish_time_limit :: "world \<Rightarrow> attempt_record \<Rightarrow> coordinator \<Rightarrow> coordinator" where
  "republish_time_limit w a co =
     (case job_row (co_db co) (a_job a) of
        None \<Rightarrow> co
      | Some job \<Rightarrow>
          (let desired = map_option as_u64 (j_time_limit_ms job); set_at = j_time_limit_set_at job in
           if published_time_limit_is_current (co_dirs co (a_id a)) (a_launch_token a) desired set_at then co
           else (case set_at of
                   None \<Rightarrow> co
                 | Some at \<Rightarrow> publish_time_limit w (a_id a) (a_launch_token a) desired at co)))"

definition authorize :: "world \<Rightarrow> attempt_record \<Rightarrow> identity_file \<Rightarrow> coordinator \<Rightarrow> outcome" where
  "authorize w a idf co =
     (case job_row (co_db co) (a_job a) of
        None \<Rightarrow> (Some ''job of live attempt'', co)
      | Some job \<Rightarrow>
          if j_state job \<noteq> J_Starting then (None, co)
          else
            (None, update_dir (a_id a) (write_start w (a_id a) (a_launch_token a))
              (set_db (append_event (w_now w) (Some (a_job a)) (Some (a_id a)) ''attempt_authorized'' ''daemon''
                   (Some (JObj [(''runnerPid'', JInt (if_runner_pid idf))]))
                 (set_attempt_authorized (a_id a) (w_now w)
                   (set_attempt_runner_identity (a_id a) (if_runner_pid idf) (if_runner_start_time idf)
                     (if_boot_id idf) (co_db co)))) co)))"

definition grace_elapsed :: "world \<Rightarrow> coordinator \<Rightarrow> nat \<Rightarrow> bool" where
  "grace_elapsed w co spawned_at \<longleftrightarrow> w_instant w - spawned_at > cfg_runner_identity_grace_ms (co_config co)"

definition reconcile_prepared :: "world \<Rightarrow> attempt_record \<Rightarrow> coordinator \<Rightarrow> outcome" where
  "reconcile_prepared w a co =
     (case co_spawned co (a_id a) of
        None \<Rightarrow> (None, launch w (a_id a) co)
      | Some spawned_at \<Rightarrow>
          (case ad_identity (co_dirs co (a_id a)) of
             Present idf \<Rightarrow>
               if if_token idf \<noteq> a_launch_token a then quarantine w a ''identity artifact token mismatch'' co
               else if a_cancel_requested a then (None, co)
               else if \<not> identity_alive (w_proc w) (if_runner_pid idf) (if_runner_start_time idf) (if_boot_id idf)
               then (if grace_elapsed w co spawned_at
                     then finalize_attempt_and_job w a A_Failed None None
                       (Some ''runner died before launch authorization'') ''daemon'' co
                     else (None, co))
               else authorize w a idf co
           | Absent \<Rightarrow>
               if grace_elapsed w co spawned_at
               then finalize_attempt_and_job w a A_Failed None None
                 (Some ''runner never published its identity'') ''daemon'' co
               else (None, co)
           | Corrupt err \<Rightarrow> quarantine w a (''corrupt identity artifact: '' @ err) co))"

text \<open>The recorded runner identity, and whether it is alive.\<close>

definition runner_identity :: "attempt_record \<Rightarrow> (int \<times> int \<times> string) option" where
  "runner_identity a =
     (case (a_runner_pid a, a_runner_start_time a, a_runner_boot_id a) of
        (Some pid, Some start_time, Some boot) \<Rightarrow> Some (pid, start_time, boot)
      | _ \<Rightarrow> None)"

definition reconcile_authorized :: "world \<Rightarrow> attempt_record \<Rightarrow> coordinator \<Rightarrow> outcome" where
  "reconcile_authorized w a co =
     (let runner_dead = (case runner_identity a of
              Some (pid, start_time, boot) \<Rightarrow> \<not> identity_alive (w_proc w) pid start_time boot
            | None \<Rightarrow> False);
          start_exists = ad_start (co_dirs co (a_id a)) \<noteq> Absent
      in if runner_dead \<and> \<not> start_exists
         then finalize_attempt_and_job w a A_Failed None None
           (Some ''runner died before launch authorization was published'') ''daemon'' co
         else
           (let co = (if start_exists then co
                      else update_dir (a_id a) (write_start w (a_id a) (a_launch_token a)) co)
            in case ad_exec (co_dirs co (a_id a)) of
                 Present ex \<Rightarrow>
                   if xf_token ex = a_launch_token a then
                     (None, set_db (append_event (w_now w) (Some (a_job a)) (Some (a_id a)) ''attempt_running'' ''runner''
                          (Some (JObj [(''pid'', JInt (xf_pid ex)), (''pgid'', JInt (xf_pgid ex))]))
                        (update_job_state (a_job a) J_Running None (w_now w)
                          (set_attempt_running (a_id a) (xf_pid ex) (xf_pgid ex) (xf_start_time ex)
                            (case xf_started_at ex of Some t \<Rightarrow> t | None \<Rightarrow> w_now w) (w_now w) (co_db co)))) co)
                   else quarantine w a ''exec artifact token mismatch'' co
               | Corrupt err \<Rightarrow> quarantine w a (''corrupt exec artifact: '' @ err) co
               | Absent \<Rightarrow>
                   if runner_dead then quarantine w a
                     ''runner died between authorization and exec handshake; command state unknown'' co
                   else (None, co)))"

definition orphan_tx :: "millis \<Rightarrow> attempt_record \<Rightarrow> database \<Rightarrow> database" where
  "orphan_tx now a db =
     append_event now (Some (a_job a)) (Some (a_id a)) ''attempt_orphaned'' ''daemon'' None
       (update_job_state (a_job a) J_NeedsAttention
         (Some ''attempt orphaned: runner died while the command may still run'') now
         (set_attempt_state (a_id a) A_Orphaned (Some ''runner died'') db))"

definition reconcile_running :: "world \<Rightarrow> attempt_record \<Rightarrow> coordinator \<Rightarrow> outcome" where
  "reconcile_running w a co =
     (if (case runner_identity a of
            Some (pid, start_time, boot) \<Rightarrow> identity_alive (w_proc w) pid start_time boot
          | None \<Rightarrow> False)
      then (None, co)
      else (None, set_db (orphan_tx (w_now w) a (co_db co)) co))"

section \<open>Orphans\<close>

definition send_signal :: "int \<Rightarrow> signal \<Rightarrow> coordinator \<Rightarrow> coordinator" where
  "send_signal pgid s co = co\<lparr>co_signals := co_signals co @ [(pgid, s)]\<rparr>"

text \<open>The one \<open>SIGTERM\<close> that an orphan gets from this daemon.\<close>

definition orphan_term :: "attempt_id \<Rightarrow> int \<Rightarrow> coordinator \<Rightarrow> coordinator" where
  "orphan_term a pgid co =
     (if a \<in> co_orphan_term_sent co then co
      else send_signal pgid SIGTERM (co\<lparr>co_orphan_term_sent := insert a (co_orphan_term_sent co)\<rparr>))"

definition kill_if :: "bool \<Rightarrow> int \<Rightarrow> coordinator \<Rightarrow> coordinator" where
  "kill_if b pgid co = (if b then send_signal pgid SIGKILL co else co)"

definition past_grace :: "world \<Rightarrow> coordinator \<Rightarrow> millis \<Rightarrow> bool" where
  "past_grace w co anchor \<longleftrightarrow> saturating_sub (w_now w) anchor \<ge> as_i64 (cfg_cancel_grace_ms (co_config co))"

definition orphan_deadline :: "attempt_record \<Rightarrow> job_record \<Rightarrow> timeout_file option \<Rightarrow> millis option" where
  "orphan_deadline a job committed =
     (case committed of
        Some file \<Rightarrow> Some (tf_deadline file)
      | None \<Rightarrow>
          (case a_timed_out_at a of
             Some t \<Rightarrow> Some t
           | None \<Rightarrow>
               (case (a_command_started_at a, j_time_limit_ms job) of
                  (Some started_at, Some limit) \<Rightarrow> checked_add started_at limit
                | _ \<Rightarrow> None)))"

text \<open>Whether the timeout, not a cancellation, decides how the attempt ends.\<close>

definition timeout_classifies :: "attempt_record \<Rightarrow> job_record \<Rightarrow> bool \<Rightarrow> millis option \<Rightarrow> bool \<Rightarrow> bool" where
  "timeout_classifies a job committed deadline deadline_expired =
     (if committed \<or> a_timed_out_at a \<noteq> None then True
      else
        (case deadline of
           None \<Rightarrow> False
         | Some d \<Rightarrow>
             deadline_expired \<and>
             (if a_cancel_requested a
              then (case a_cancel_requested_at a of
                      None \<Rightarrow> False
                    | Some cancelled_at \<Rightarrow> timeout_wins_over_cancel cancelled_at d (j_time_limit_set_at job))
              else True)))"

text \<open>How a drained orphan ends.\<close>

definition drained_outcome :: "attempt_record \<Rightarrow> bool \<Rightarrow> attempt_state \<times> string" where
  "drained_outcome a timed_out =
     (if timed_out then (A_Failed, ''time limit exceeded; orphaned process group drained'')
      else if a_cancel_requested a then (A_Cancelled, ''cancelled; orphaned process group drained'')
      else (A_Lost, ''runner died; command exit status unknown''))"

definition write_timeout :: "world \<Rightarrow> attempt_record \<Rightarrow> millis \<Rightarrow> millis \<Rightarrow> coordinator \<Rightarrow> coordinator" where
  "write_timeout w a deadline anchor =
     update_dir (a_id a) (\<lambda>dir. snd (write_file w (a_id a) TIMEOUT_FILE True (ad_timeout dir \<noteq> Absent)
       (\<lambda>d. d\<lparr>ad_timeout := Present \<lparr>tf_token = a_launch_token a, tf_deadline = deadline,
          tf_observed_at = anchor\<rparr>\<rparr>) dir))"

text \<open>Signals to an orphan whose group is still alive.\<close>

definition terminate_orphan ::
  "world \<Rightarrow> attempt_record \<Rightarrow> job_record \<Rightarrow> int \<Rightarrow> timeout_file option \<Rightarrow> coordinator \<Rightarrow> coordinator" where
  "terminate_orphan w a job pgid committed co =
     (let deadline = orphan_deadline a job committed;
          deadline_expired = (committed \<noteq> None \<or> (case deadline of None \<Rightarrow> False | Some d \<Rightarrow> w_now w \<ge> d));
          classifies = timeout_classifies a job (committed \<noteq> None) deadline deadline_expired
      in case (deadline_expired, deadline) of
           (True, Some d) \<Rightarrow>
             if classifies then
               (let co = (if a_timed_out_at a = None
                          then set_db (set_attempt_timed_out (a_id a) d (co_db co)) co else co);
                    anchor = (case committed of
                        Some file \<Rightarrow> tf_observed_at file
                      | None \<Rightarrow> timeout_kill_anchor d (j_time_limit_set_at job) None);
                    co = (if committed = None then write_timeout w a d anchor co else co)
                in kill_if (past_grace w co anchor) pgid (orphan_term (a_id a) pgid co))
             else
               (let anchor = timeout_kill_anchor d (j_time_limit_set_at job) None
                in kill_if (past_grace w co anchor) pgid (orphan_term (a_id a) pgid co))
         | _ \<Rightarrow>
             if a_cancel_requested a then
               kill_if (a_cancel_force a \<and>
                   (case a_cancel_requested_at a of
                      None \<Rightarrow> False
                    | Some at \<Rightarrow> w_now w - at \<ge> as_i64 (cfg_cancel_grace_ms (co_config co))))
                 pgid (orphan_term (a_id a) pgid co)
             else co)"

definition reconcile_orphaned :: "world \<Rightarrow> attempt_record \<Rightarrow> coordinator \<Rightarrow> outcome" where
  "reconcile_orphaned w a co =
     (case (a_cmd_pgid a, a_runner_boot_id a) of
        (Some pgid, Some boot) \<Rightarrow>
          (case job_row (co_db co) (a_job a) of
             None \<Rightarrow> (Some ''job of orphaned attempt'', co)
           | Some job \<Rightarrow>
               (let decide = (\<lambda>committed.
                   if \<not> group_possibly_alive (w_proc w) pgid boot (a_cmd_start_time a) then
                     (let (state, message) = drained_outcome a (committed \<noteq> None \<or> a_timed_out_at a \<noteq> None)
                      in finalize_attempt_and_job w a state None None (Some message) ''daemon'' co)
                   else (None, terminate_orphan w a job pgid committed co))
                in case ad_timeout (co_dirs co (a_id a)) of
                     Present file \<Rightarrow>
                       if tf_token file = a_launch_token a then decide (Some file)
                       else quarantine w a ''timeout artifact token mismatch'' co
                   | Corrupt err \<Rightarrow> quarantine w a (''corrupt timeout artifact: '' @ err) co
                   | Absent \<Rightarrow> decide None))
      | _ \<Rightarrow> quarantine w a ''orphaned attempt lacks command identity'' co)"

section \<open>The cycle\<close>

definition reconcile_state :: "world \<Rightarrow> attempt_record \<Rightarrow> coordinator \<Rightarrow> outcome" where
  "reconcile_state w a co =
     (case a_state a of
        A_Prepared \<Rightarrow> reconcile_prepared w a co
      | A_Authorized \<Rightarrow> reconcile_authorized w a co
      | A_Running \<Rightarrow> reconcile_running w a co
      | A_Orphaned \<Rightarrow> reconcile_orphaned w a co
      | _ \<Rightarrow> (None, co))"

definition reconcile_attempt :: "world \<Rightarrow> attempt_record \<Rightarrow> coordinator \<Rightarrow> outcome" where
  "reconcile_attempt w a co =
     (case ad_result (co_dirs co (a_id a)) of
        Present result \<Rightarrow>
          if rf_token result = a_launch_token a then finalize_from_result w a result co
          else quarantine w a ''result artifact token mismatch'' co
      | Corrupt err \<Rightarrow> quarantine w a (''corrupt result artifact: '' @ err) co
      | Absent \<Rightarrow>
          (let co = republish_yield w a (republish_cancel w a co);
               co = (if a_state a = A_Prepared \<or> a_state a = A_Authorized \<or> a_state a = A_Running
                     then republish_time_limit w a co else co)
           in reconcile_state w a co))"

text \<open>Errors of one attempt are logged and do not stop the others.\<close>

definition reconcile_one :: "world \<Rightarrow> attempt_record \<Rightarrow> coordinator \<Rightarrow> coordinator" where
  "reconcile_one w a co =
     (let (a, co) = observe_yield_delivery a co in snd (reconcile_attempt w a co))"

definition prune :: "attempt_record list \<Rightarrow> coordinator \<Rightarrow> coordinator" where
  "prune rows co =
     (let live = a_id ` set rows
      in co\<lparr>co_spawned := (\<lambda>i. if i \<in> live then co_spawned co i else None),
           co_orphan_term_sent := co_orphan_term_sent co \<inter> live\<rparr>)"

definition reconcile_all :: "world \<Rightarrow> coordinator \<Rightarrow> coordinator" where
  "reconcile_all w co =
     (let rows = non_terminal_attempts (co_db co)
      in fold (reconcile_one w) rows (prune rows co))"

end
