(* ===== verification/Coordinator.thy ===== *)
theory Coordinator
  imports Reconcile
begin

text \<open>
  Model of the request handling and the message loop of
  \<^verbatim>\<open>src/src/daemon/coordinator.rs\<close>. What the handlers use of code outside the
  repository is the record \<open>services\<close>: the digests of the canonical request (serde and
  SHA-256), the codec of stored replies, the discovery of a job's repository (file system), the
  process id and the package version.
\<close>

record services =
  svc_digest :: "op \<Rightarrow> string"
  svc_legacy_digest :: "legacy_v5_submit_params \<Rightarrow> string"
  svc_encode :: "reply \<Rightarrow> string + string"
  svc_decode :: "string \<Rightarrow> string + reply"
  svc_discover :: "string \<Rightarrow> job_context option"
  svc_fs :: fs_view
  svc_pid :: nat
  svc_version :: string

section \<open>The cycle\<close>

definition run_schedule :: "world \<Rightarrow> coordinator \<Rightarrow> coordinator" where
  "run_schedule w co =
     (let (blocked, result) = schedule (w_token w) (w_now w) (co_admission_blocked co) (co_db co);
          co = co\<lparr>co_admission_blocked := blocked\<rparr>
      in case result of
           Inl _ \<Rightarrow> co
         | Inr (launched, db) \<Rightarrow> fold (launch w) launched (set_db db co))"

definition advance_cycle :: "world \<Rightarrow> coordinator \<Rightarrow> coordinator" where
  "advance_cycle w co = set_db (advance_dependency_graph (w_now w) (co_db co)) co"

definition tick :: "world \<Rightarrow> coordinator \<Rightarrow> coordinator" where
  "tick w co = run_schedule w (advance_cycle w (reconcile_all w co))"

definition publish_revision :: "coordinator \<Rightarrow> coordinator" where
  "publish_revision co =
     (let blocked = (co_admission_blocked co \<noteq> None); revision = latest_event_id (co_db co) in
      if revision \<noteq> co_published_revision co \<or> blocked \<noteq> co_published_admission_blocked co
      then co\<lparr>co_published_revision := revision, co_published_admission_blocked := blocked,
             co_revisions := co_revisions co @ [revision]\<rparr>
      else co)"

definition new_coordinator ::
  "services \<Rightarrow> world \<Rightarrow> config \<Rightarrow> paths \<Rightarrow> (attempt_id \<Rightarrow> attempt_dir) \<Rightarrow> database \<Rightarrow> string + coordinator" where
  "new_coordinator svc w cfg p dirs db =
     bindE (ok_or ''reading boot id'' (boot_id (w_proc w))) (\<lambda>_.
       let db = backfill_job_context (svc_discover svc) db; revision = latest_event_id db in
       Inr \<lparr>co_db = db, co_config = cfg, co_paths = p, co_started_at = w_now w,
         co_admission_blocked = None, co_spawned = (\<lambda>_. None), co_orphan_term_sent = {},
         co_revisions = [revision], co_published_revision = revision,
         co_published_admission_blocked = False, co_dirs = dirs, co_signals = [], co_runners = []\<rparr>)"

section \<open>Reads\<close>

definition PAGE_SIZE :: nat where
  "PAGE_SIZE = 256"

definition subscribe_job :: "world \<Rightarrow> job_id \<Rightarrow> int option \<Rightarrow> coordinator \<Rightarrow> reply api_result" where
  "subscribe_job w job aft co =
     (let db = co_db co in
      bindE (ensure (\<not> (case aft of None \<Rightarrow> False | Some c \<Rightarrow> c < 0))
               (api_error INVALID_ARGUMENT ''subscribe_job requires after >= 0'')) (\<lambda>_.
      bindE (get_job db job) (\<lambda>row.
      bindE (internal (job_view db (co_paths co) (w_now w) row False)) (\<lambda>v.
      let snapshot = (case attempt_by_number db job (j_attempt_count row) of
            None \<Rightarrow> v
          | Some a \<Rightarrow> v\<lparr>jv_attempts := jv_attempts v @ [attempt_view (co_paths co) a]\<rparr>);
          (cursor, evs, has_more) = (case aft of
            None \<Rightarrow> (latest_event_id db, [], False)
          | Some c \<Rightarrow>
              (let rows = job_events_after db job c (PAGE_SIZE + 1);
                   more = (length rows > PAGE_SIZE);
                   page = (if more then butlast rows else rows)
               in (if page = [] then c else ei_id (last page), map event_view page, more)))
      in Inr (R_JobUpdate \<lparr>ju_job = snapshot, ju_cursor = cursor, ju_events = evs,
                ju_has_more = has_more\<rparr>)))))"

definition show_job :: "world \<Rightarrow> job_id \<Rightarrow> coordinator \<Rightarrow> reply api_result" where
  "show_job w job co =
     bindE (get_job (co_db co) job) (\<lambda>row.
     bindE (internal (job_view (co_db co) (co_paths co) (w_now w) row True)) (\<lambda>v. Inr (R_Job v)))"

definition read_logs :: "job_id \<Rightarrow> int option \<Rightarrow> coordinator \<Rightarrow> reply api_result" where
  "read_logs job number co =
     bindE (ok_or (api_error NOT_FOUND (''job '' @ show_int job @ '' has no matching attempt (has it started?)''))
        (case number of
           Some n \<Rightarrow> attempt_by_number (co_db co) job n
         | None \<Rightarrow>
             (let rows = attempts_for_job (co_db co) job in if rows = [] then None else Some (last rows)))) (\<lambda>a.
       let dir = attempt_dir_path (co_paths co) (a_id a) in
       Inr (R_LogPaths \<lparr>lv_job = job, lv_attempt = a_id a, lv_attempt_number = a_number a,
         lv_attempt_state = attempt_state_as_str (a_state a), lv_exit_code = a_exit_code a,
         lv_term_signal = a_term_signal a, lv_message = a_message a,
         lv_stdout = path_join dir STDOUT_LOG_FILE, lv_stderr = path_join dir STDERR_LOG_FILE\<rparr>))"

definition handle_read :: "services \<Rightarrow> world \<Rightarrow> op \<Rightarrow> coordinator \<Rightarrow> reply api_result" where
  "handle_read svc w o' co =
     (let db = co_db co; p = co_paths co; blocked = (co_admission_blocked co \<noteq> None) in
      case o' of
        Status \<Rightarrow> bindE (internal (status_view db p (w_now w) blocked)) (\<lambda>v. Inr (R_Status v))
      | Subscribe \<Rightarrow> bindE (internal (status_view db p (w_now w) blocked)) (\<lambda>v. Inr (R_Status v))
      | SubscribeJob job aft \<Rightarrow> subscribe_job w job aft co
      | FollowTtsSnapshot \<Rightarrow> Inr (R_FollowTtsSnapshot (follow_tts_snapshot db))
      | Events aft limit \<Rightarrow>
          bindE (ensure (0 \<le> aft \<and> 1 \<le> limit \<and> limit \<le> 1000)
                   (api_error INVALID_ARGUMENT ''events requires after >= 0 and limit between 1 and 1000'')) (\<lambda>_.
            Inr (R_Events (map event_view (events_after db aft limit))))
      | Show job \<Rightarrow> show_job w job co
      | See None \<Rightarrow>
          bindE (ok_or (api_error NOT_FOUND ''no jobs'') (latest_job_id db)) (\<lambda>job. show_job w job co)
      | See (Some job) \<Rightarrow> show_job w job co
      | Logs job number \<Rightarrow> read_logs job number co
      | DaemonStatus \<Rightarrow>
          Inr (R_DaemonStatus \<lparr>dsv_pid = svc_pid svc, dsv_version = svc_version svc,
            dsv_protocol_version = PROTOCOL_VERSION,
            dsv_scheduler_semantics_version = SCHEDULER_SEMANTICS_VERSION,
            dsv_started_at = co_started_at co, dsv_db_path = db_path p, dsv_socket_path = socket_path p,
            dsv_active_leases = length (active_leases db) mod 4294967296,
            dsv_queued_jobs = count_jobs_in_state db J_Queued, dsv_admission_blocked = blocked,
            dsv_paused = is_paused db\<rparr>)
      | RecoverList \<Rightarrow>
          Inr (R_RecoverList (map (attempt_view p)
            (filter (\<lambda>a. a_state a = A_Orphaned \<or> a_state a = A_Quarantined) (non_terminal_attempts db))))
      | _ \<Rightarrow> Inl (api_error INTERNAL ''mutation routed to read handler''))"

section \<open>Mutations\<close>

text \<open>A key that was used before: the stored reply, or a conflict.\<close>

definition replay_operation :: "services \<Rightarrow> op \<Rightarrow> string \<Rightarrow> string \<times> string \<Rightarrow> reply api_result" where
  "replay_operation svc o' key stored =
     (case stored of (stored_hash, stored_response) \<Rightarrow>
        bindE (ensure (stored_hash = request_hash (svc_digest svc) o' \<or>
                       legacy_v5_request_hash (svc_legacy_digest svc) o' = Some stored_hash)
                 (api_error IDEMPOTENCY_CONFLICT (''idempotency key '' @ show_debug key @
                   '' was already used with a different request''))) (\<lambda>_.
          case svc_decode svc stored_response of
            Inl err \<Rightarrow> Inl (api_error INTERNAL (''stored response corrupt: '' @ err))
          | Inr reply \<Rightarrow> Inr reply))"

text \<open>The checks that run before the transaction opens.\<close>

definition check_mutation :: "services \<Rightarrow> config \<Rightarrow> op \<Rightarrow> unit api_result" where
  "check_mutation svc cfg o' =
     (case o' of
        Submit params \<Rightarrow> validate_submission_fs (svc_fs svc) params
      | Yield _ _ _ interactive \<Rightarrow>
          ensure (interactive \<or> cfg_allow_noninteractive_yield cfg)
            (api_error INVALID_ARGUMENT
              ''yield is an operator action and requires an interactive terminal; ask the operator to run `mlq yield`, or set allow_noninteractive_yield = true in the daemon config'')
      | _ \<Rightarrow> Inr ())"

text \<open>The transaction: the mutation together with the record of its reply.\<close>

definition mutation_tx ::
  "services \<Rightarrow> world \<Rightarrow> paths \<Rightarrow> op \<Rightarrow> string \<Rightarrow> database \<Rightarrow> ((reply \<times> publish list) \<times> database) api_result" where
  "mutation_tx svc w p o' key db =
     (let context = (case o' of Submit params \<Rightarrow> svc_discover svc (sp_cwd params) | _ \<Rightarrow> None) in
      bindE (apply_mutation p (w_proc w) o' (w_now w) context db) (\<lambda>((reply, actions), db1).
      bindE (internal (svc_encode svc reply)) (\<lambda>encoded.
      bindE (internal (insert_operation key (op_kind o') (request_hash (svc_digest svc) o') encoded (w_now w) db1)) (\<lambda>db2.
        Inr ((reply, actions), db2)))))"

definition handle_mutation ::
  "services \<Rightarrow> world \<Rightarrow> op \<Rightarrow> string \<Rightarrow> coordinator \<Rightarrow> reply api_result \<times> coordinator" where
  "handle_mutation svc w o' key co =
     (case lookup_operation (co_db co) key of
        Some stored \<Rightarrow> (replay_operation svc o' key stored, co)
      | None \<Rightarrow>
          (case bindE (check_mutation svc (co_config co) o') (\<lambda>_. mutation_tx svc w (co_paths co) o' key (co_db co)) of
             Inl e \<Rightarrow> (Inl e, co)
           | Inr ((reply, actions), db) \<Rightarrow>
               (Inr reply, tick w (fold (perform w) actions (set_db db co)))))"

definition handle_request :: "services \<Rightarrow> world \<Rightarrow> request \<Rightarrow> coordinator \<Rightarrow> response \<times> coordinator" where
  "handle_request svc w rq co =
     (let (result, co) =
        (if rq_protocol_version rq \<noteq> PROTOCOL_VERSION then
           (Inl (api_error UNSUPPORTED_PROTOCOL (''protocol version '' @ show_nat (rq_protocol_version rq) @
              '' is not supported (daemon speaks '' @ show_nat PROTOCOL_VERSION @ '')'')), co)
         else if is_mutation (rq_op rq) then
           (case rq_idempotency_key rq of
              Some key \<Rightarrow>
                if key \<noteq> [] then handle_mutation svc w (rq_op rq) key co
                else (Inl (api_error MISSING_IDEMPOTENCY_KEY
                       ''mutating operations require a durable idempotency key''), co)
            | None \<Rightarrow> (Inl (api_error MISSING_IDEMPOTENCY_KEY
                ''mutating operations require a durable idempotency key''), co))
         else (handle_read svc w (rq_op rq) co, co))
      in (case result of
            Inr reply \<Rightarrow> \<lparr>rs_request_id = rq_request_id rq, rs_reply = Some reply, rs_error = None\<rparr>
          | Inl err \<Rightarrow> \<lparr>rs_request_id = rq_request_id rq, rs_reply = None, rs_error = Some err\<rparr>, co))"

section \<open>The message loop\<close>

datatype msg = Request request | Tick | Shutdown

text \<open>
  \<open>run_loop\<close> handles the messages of the channel in order, each with what the surroundings
  answer during it, and collects the replies; the end of the list is the closed channel.
\<close>

fun run_loop :: "services \<Rightarrow> (msg \<times> world) list \<Rightarrow> coordinator \<Rightarrow> response list \<times> coordinator" where
  "run_loop svc [] co = ([], co)"
| "run_loop svc ((Request rq, w) # ms) co =
     (let (resp, co) = handle_request svc w rq co;
          (resps, co) = run_loop svc ms (publish_revision co)
      in (resp # resps, co))"
| "run_loop svc ((Tick, w) # ms) co = run_loop svc ms (publish_revision (tick w co))"
| "run_loop svc ((Shutdown, w) # ms) co = ([], co)"

definition run :: "services \<Rightarrow> world \<Rightarrow> (msg \<times> world) list \<Rightarrow> coordinator \<Rightarrow> response list \<times> coordinator" where
  "run svc w ms co = run_loop svc ms (publish_revision (tick w co))"

end
