(* ===== verification/Audit_Trail.thy ===== *)
theory Audit_Trail
  imports Mutation_Proofs
begin

text \<open>
  The audit trail. No update of the database rewrites the event log or the record of handled
  operations: \<open>audited\<close> says that a transaction leaves the operations alone and only appends
  events, numbered consecutively. Every update of \<open>Database\<close> has a rule in
  \<open>audit_intros\<close>, and every mutation is shown to be audited from these rules.
\<close>

named_theorems audit_intros \<open>updates that keep the audit trail\<close>

text \<open>The event log grows at its end, by consecutive numbers.\<close>

definition logged :: "database \<Rightarrow> database \<Rightarrow> bool" where
  "logged db db' \<longleftrightarrow>
     event_seq db \<le> event_seq db' \<and>
     (\<exists>es. events db' = events db @ es \<and> map e_id es = [event_seq db + 1 .. event_seq db'])"

definition audited :: "database \<Rightarrow> database \<Rightarrow> bool" where
  "audited db db' \<longleftrightarrow> operations db' = operations db \<and> logged db db'"

lemma logged_trans:
  assumes "logged db db1" "logged db1 db2"
  shows "logged db db2"
proof -
  from assms obtain es es' where
    "events db1 = events db @ es" "map e_id es = [event_seq db + 1 .. event_seq db1]"
    "events db2 = events db1 @ es'" "map e_id es' = [event_seq db1 + 1 .. event_seq db2]"
    and le: "event_seq db \<le> event_seq db1" "event_seq db1 \<le> event_seq db2"
    by (auto simp: logged_def)
  moreover have "[event_seq db + 1 .. event_seq db2] =
      [event_seq db + 1 .. event_seq db1] @ [event_seq db1 + 1 .. event_seq db2]"
    using le upto_split2 [of "event_seq db + 1" "event_seq db1" "event_seq db2"]
    by (cases "event_seq db = event_seq db1") simp_all
  ultimately show ?thesis by (auto simp: logged_def)
qed

lemma audited_refl [audit_intros]: "audited db db"
  by (simp add: audited_def logged_def)

lemma audited_trans: "audited db db1 \<Longrightarrow> audited db1 db2 \<Longrightarrow> audited db db2"
  by (auto simp: audited_def intro: logged_trans)

lemma audited_frame:
  "audited db db1 \<Longrightarrow> operations db2 = operations db1 \<Longrightarrow> events db2 = events db1 \<Longrightarrow>
     event_seq db2 = event_seq db1 \<Longrightarrow> audited db db2"
  by (simp add: audited_def logged_def)

lemma audited_event [audit_intros]:
  assumes "audited db db1"
  shows "audited db (append_event now ji ai ty ac de db1)"
proof -
  have "audited db1 (append_event now ji ai ty ac de db1)"
    by (auto simp: audited_def logged_def append_event_def)
  with assms show ?thesis by (rule audited_trans)
qed

section \<open>Updates\<close>

lemma audited_updates [audit_intros]:
  assumes "audited db db1"
  shows "audited db (update_job i f db1)" "audited db (update_attempt a g db1)"
    "audited db (update_lease a h db1)" "audited db (freeze_reservation_cutoff rid c db1)"
    "audited db (resolve_reservation rid st reason now db1)"
    "audited db (record_backfill r j why at now db1)" "audited db (latch_edge now e db1)"
    "audited db (snd (set_paused p now db1))"
  by (rule audited_frame [OF assms];
      simp add: freeze_reservation_cutoff_def resolve_reservation_def record_backfill_def
        latch_edge_def set_paused_def split: prod.splits)+

lemma audited_row_updates [audit_intros]:
  assumes "audited db db1"
  shows "audited db (update_job_state i s reason now db1)"
    "audited db (set_job_retry_not_before i at now db1)"
    "audited db (clear_job_readiness i now db1)"
    "audited db (set_job_priority i v now db1)"
    "audited db (set_job_context i ctx db1)"
    "audited db (release_lease a now db1)"
    "audited db (set_attempt_runner_identity a pid t boot db1)"
    "audited db (set_attempt_authorized a now db1)"
    "audited db (set_attempt_running a pid g t c now db1)"
    "audited db (set_attempt_timed_out a dl db1)"
    "audited db (set_attempt_state a st msg db1)"
    "audited db (finalize_attempt a st ec ts msg now db1)"
    "audited db (set_attempt_yield_requested a why hold now db1)"
    "audited db (set_attempt_yield_delivered a at' db1)"
    "audited db (set_attempt_cancel_requested a force now db1)"
  unfolding update_job_state_def set_job_retry_not_before_def clear_job_readiness_def
    set_job_priority_def set_job_context_def release_lease_def set_attempt_runner_identity_def
    set_attempt_authorized_def set_attempt_running_def set_attempt_timed_out_def
    set_attempt_state_def finalize_attempt_def set_attempt_yield_requested_def
    set_attempt_yield_delivered_def set_attempt_cancel_requested_def
  by (intro audited_updates assms)+

lemma audited_fold:
  "(\<And>x db1. audited db db1 \<Longrightarrow> audited db (f x db1)) \<Longrightarrow> audited db db1 \<Longrightarrow> audited db (fold f xs db1)"
  by (induction xs arbitrary: db1) simp_all

lemma audited_foldE:
  "(\<And>x db1 db2. audited db db1 \<Longrightarrow> f x db1 = Inr db2 \<Longrightarrow> audited db db2) \<Longrightarrow> audited db db1 \<Longrightarrow>
     foldE f xs db1 = Inr db2 \<Longrightarrow> audited db db2"
  by (rule foldE_invariant) auto

lemma audited_latch_outcomes [audit_intros]: "audited db db1 \<Longrightarrow> audited db (latch_outcomes now db1)"
  unfolding latch_outcomes_def by (rule audited_fold) (rule audit_intros)

lemma audited_skip_violated [audit_intros]: "audited db db1 \<Longrightarrow> audited db (skip_violated now db1)"
  unfolding skip_violated_def
  by (rule audited_fold) (auto simp: skip_child_def split: prod.splits intro!: audit_intros)

lemma audited_advance_loop [audit_intros]: "audited db db1 \<Longrightarrow> audited db (advance_loop now db1)"
proof (induction now db1 rule: advance_loop.induct)
  case (1 now db1)
  then show ?case
    by (subst advance_loop.simps) (auto simp: Let_def intro: audit_intros)
qed

lemma audited_assign [audit_intros]: "audited db db1 \<Longrightarrow> audited db (snd (assign_next_ready_seq i now db1))"
  by (rule audited_frame) (simp_all add: assign_next_ready_seq_def Let_def)

lemma audited_make_ready [audit_intros]: "audited db db1 \<Longrightarrow> audited db (make_ready now i db1)"
  unfolding make_ready_alt by (intro audit_intros)

lemma audited_advance [audit_intros]: "audited db db1 \<Longrightarrow> audited db (advance_dependency_graph now db1)"
  unfolding advance_dependency_graph_def Let_def by (intro audited_fold audit_intros)

lemma audited_invalidate [audit_intros]:
  "audited db db1 \<Longrightarrow> audited db (invalidate_reservation_if_protected job reason now db1)"
  by (auto simp: invalidate_reservation_if_protected_def split: option.splits intro!: audit_intros)

lemma audited_create_reservation:
  "create_reservation job ver blockers now db1 = Inr (rid, db2) \<Longrightarrow> audited db db1 \<Longrightarrow> audited db db2"
  by (auto simp: create_reservation_def Let_def result_eqs intro: audited_frame)

lemma audited_create_attempt:
  "create_attempt_with_lease job tok now db1 = Inr (row, db2) \<Longrightarrow> audited db db1 \<Longrightarrow> audited db db2"
  by (auto simp: create_attempt_with_lease_def Let_def result_eqs intro: audited_frame)

lemma audited_checked_updates:
  "set_job_max_parallel_runs i v now db1 = Inr db2 \<Longrightarrow> audited db db1 \<Longrightarrow> audited db db2"
  "set_job_time_limit i l now db1 = Inr db2 \<Longrightarrow> audited db db1 \<Longrightarrow> audited db db2"
  "set_active_attempt_max_parallel_runs a v db1 = Inr db2 \<Longrightarrow> audited db db1 \<Longrightarrow> audited db db2"
  by (auto simp: set_job_max_parallel_runs_def set_job_time_limit_def
      set_active_attempt_max_parallel_runs_def result_eqs intro: audited_frame)

lemma audited_insert_job:
  assumes "insert_job p now db = Inr (job, db')"
  shows "audited db db'"
proof -
  from assms obtain delay limit db2 where
    f: "foldE (insert_dependency (job_seq db + 1)) (collapse_dependencies (sp_dependencies p))
      (db\<lparr>jobs := jobs db @ [new_job_row (job_seq db + 1) p delay limit now], job_seq := job_seq db + 1\<rparr>) = Inr db2"
    and r: "Inr (job_seq db + 1, if collapse_dependencies (sp_dependencies p) = []
      then snd (assign_next_ready_seq (job_seq db + 1) now db2) else db2) = Inr (job, db')"
    unfolding insert_job_def Let_def bindE_eq_Inr by blast
  have "audited db (db\<lparr>jobs := jobs db @ [row], job_seq := job_seq db + 1\<rparr>)" for row
    by (rule audited_frame [OF audited_refl]) simp_all
  moreover have "audited db d2" if "audited db d1" "insert_dependency c pc d1 = Inr d2" for c pc d1 d2
    using that by (auto simp: insert_dependency_def result_eqs intro: audited_frame)
  ultimately have "audited db db2" by (intro audited_foldE [OF _ _ f])
  then show ?thesis using r audited_assign by (auto split: if_splits)
qed

section \<open>Mutations\<close>

lemma audited_cancel_job:
  "cancel_job job force now db = Inr (acts, db') \<Longrightarrow> audited db db'"
  unfolding cancel_job_def bindE_eq_Inr Let_def
  by (elim exE conjE, auto simp: bindE_eq_Inr split: if_splits attempt_state.splits intro!: audit_intros)
    (metis attempt_state.exhaust)+

lemma audited_yield_job:
  "yield_job job reason hold interactive now db = Inr (act, db') \<Longrightarrow> audited db db'"
  by (auto simp: yield_job_def Let_def bindE_eq_Inr ensure_eq_Inr ok_or_eq_Inr split: option.splits
      intro!: audit_intros)

lemma audited_set_max_parallel_runs:
  "apply_set_max_parallel_runs paths now job v db = Inr (r, db') \<Longrightarrow> audited db db'"
  by (auto simp: apply_set_max_parallel_runs_def result_eqs Let_def internal_eq_Inr
      split: if_splits dest!: finish_mutation_ok
      intro!: audit_intros elim!: audited_checked_updates)

lemma audited_pause: "apply_pause paused now db = Inr (r, db') \<Longrightarrow> audited db db'"
  using audited_updates(8) [OF audited_refl, of db paused now]
  by (auto simp: apply_pause_def split: prod.splits if_splits intro: audit_intros)

lemma audited_apply_mutation:
  assumes ok: "apply_mutation paths pv o' now ctx db = Inr (r, db')"
  shows "audited db db'"
proof (cases o')
  case (Submit p)
  then show ?thesis
    using ok
    by (auto simp: apply_mutation_def apply_submit_def result_eqs internal_eq_Inr Let_def
        intro!: audit_intros dest: audited_insert_job)
next
  case (Cancel job force)
  then show ?thesis
    using ok by (auto simp: apply_mutation_def bindE_eq_Inr dest!: finish_mutation_ok audited_cancel_job)
next
  case (Yield job reason hold interactive)
  then show ?thesis
    using ok by (auto simp: apply_mutation_def bindE_eq_Inr dest!: finish_mutation_ok audited_yield_job)
next
  case (SetMaxParallelRuns job v)
  then show ?thesis using ok by (auto simp: apply_mutation_def dest: audited_set_max_parallel_runs)
next
  case (SetTimeLimit job limit)
  then show ?thesis
    using ok
    by (auto simp: apply_mutation_def apply_set_time_limit_def result_eqs Let_def internal_eq_Inr
        split: if_splits dest!: finish_mutation_ok intro!: audit_intros elim!: audited_checked_updates)
next
  case (RecoverResolve job number "as")
  obtain s js where "resolved_states as = (s, js)" by fastforce
  with RecoverResolve show ?thesis
    using ok
    by (auto simp: apply_mutation_def apply_recover_resolve_def bindE_eq_Inr Let_def
        split: prod.splits dest!: finish_mutation_ok intro!: audit_intros)
qed (use ok in \<open>auto simp: apply_mutation_def apply_hold_def apply_release_def apply_retry_def
      apply_set_priority_def result_eqs Let_def
      split: if_splits prod.splits dest!: finish_mutation_ok dest: audited_pause intro!: audit_intros\<close>)

end
