(* ===== verification/Schedule_Proofs.thy ===== *)
theory Schedule_Proofs
  imports Schedule Audit_Trail
begin

text \<open>
  The scheduling transaction never fails, refines the abstract queue, and never oversubscribes:
  the laws of the admission policy (\<open>admission_policy\<close>, interpreted for \<open>plan_pass\<close>)
  are turned into facts about the committed leases and reservations.
\<close>

section \<open>Candidates\<close>

lemma eligible_candidates_mem:
  "c \<in> set (eligible_candidates db now) \<longleftrightarrow>
     (\<exists>j\<in>set (jobs db). j_state j = J_Queued \<and> j_ready_seq j = Some (cand_ready_seq c) \<and>
        (case j_retry_not_before j of None \<Rightarrow> True | Some t \<Rightarrow> t \<le> now) \<and>
        cand_job c = j_id j \<and> cand_limit c = j_max_parallel_runs j \<and> cand_priority c = j_priority j)"
proof -
  have "(case j_ready_seq j of
            None \<Rightarrow> None
          | Some seq \<Rightarrow>
              if j_state j = J_Queued \<and>
                 (case j_retry_not_before j of None \<Rightarrow> True | Some t \<Rightarrow> t \<le> now)
              then Some \<lparr>cand_job = j_id j, cand_ready_seq = seq,
                     cand_limit = j_max_parallel_runs j, cand_priority = j_priority j\<rparr>
              else None) = Some c \<longleftrightarrow>
      j_state j = J_Queued \<and> j_ready_seq j = Some (cand_ready_seq c) \<and>
        (case j_retry_not_before j of None \<Rightarrow> True | Some t \<Rightarrow> t \<le> now) \<and>
        cand_job c = j_id j \<and> cand_limit c = j_max_parallel_runs j \<and> cand_priority c = j_priority j" for j
    by (cases c; cases "j_ready_seq j") auto
  then show ?thesis
    unfolding eligible_candidates_def set_order_by set_map_filter by blast
qed

lemma eligible_candidates_distinct:
  assumes "wf_tables db"
  shows "distinct (map cand_job (eligible_candidates db now))"
  unfolding eligible_candidates_def distinct_order_by
  by (rule distinct_map_filter_key [OF wf_tables_distinct(1) [OF assms]])
    (auto split: option.splits if_splits)

lemma eligible_job_row:
  assumes "wf_tables db" and "c \<in> set (eligible_candidates db now)"
  obtains j where "job_row db (cand_job c) = Some j" "j_state j = J_Queued"
    "j_ready_seq j = Some (cand_ready_seq c)" "cand_limit c = j_max_parallel_runs j"
    "cand_priority c = j_priority j"
proof -
  from assms(2) obtain j where j: "j \<in> set (jobs db)" "j_state j = J_Queued"
    "j_ready_seq j = Some (cand_ready_seq c)" "cand_job c = j_id j"
    "cand_limit c = j_max_parallel_runs j" "cand_priority c = j_priority j"
    unfolding eligible_candidates_mem by blast
  have "job_row db (cand_job c) = Some j"
    using job_table.lookup_unique [OF wf_tables_distinct(1) [OF assms(1)] j(1)] j(4) by simp
  with j show ?thesis by (intro that)
qed

lemma ready_seq_unique:
  assumes "wf_db db" "job_row db i = Some r" "j_ready_seq r = Some n"
    "job_row db k = Some s" "j_ready_seq s = Some n"
  shows "i = k"
proof -
  have "q_ready (abs_queue db) i = Some n" "q_ready (abs_queue db) k = Some n"
    using assms(2-5) by simp_all
  then show ?thesis
    using assms(1) unfolding wf_db_def q_inv_def inv_ready_def by blast
qed

lemma eligible_candidates_sorted:
  assumes "wf_db db"
  shows "pass_sorted (eligible_candidates db now)"
proof -
  have wft: "wf_tables db" using assms by (rule wf_db_tables)
  have rank: "candidate_before = ranks_before"
    by (auto simp: fun_eq_iff candidate_before_def ranks_before_def)
  let ?cs = "List.map_filter (\<lambda>j.
          case j_ready_seq j of
            None \<Rightarrow> None
          | Some seq \<Rightarrow>
              if j_state j = J_Queued \<and>
                 (case j_retry_not_before j of None \<Rightarrow> True | Some t \<Rightarrow> t \<le> now)
              then Some \<lparr>cand_job = j_id j, cand_ready_seq = seq,
                     cand_limit = j_max_parallel_runs j, cand_priority = j_priority j\<rparr>
              else None) (jobs db)"
  have mem: "set ?cs = set (eligible_candidates db now)"
    by (simp add: eligible_candidates_def)
  have "distinct (map cand_job ?cs)"
    using eligible_candidates_distinct [OF wft, of now]
    by (simp add: eligible_candidates_def distinct_order_by)
  then have "distinct ?cs" unfolding distinct_map by blast
  moreover have "ranks_before x y \<or> ranks_before y x"
    if "x \<in> set ?cs" "y \<in> set ?cs" "x \<noteq> y" for x y
  proof -
    have "cand_ready_seq x \<noteq> cand_ready_seq y"
    proof
      assume eq: "cand_ready_seq x = cand_ready_seq y"
      from that mem have "x \<in> set (eligible_candidates db now)" "y \<in> set (eligible_candidates db now)"
        by auto
      from eligible_job_row [OF wft this(1)] obtain i where
        "job_row db (cand_job x) = Some i" "j_ready_seq i = Some (cand_ready_seq x)" by blast
      moreover from eligible_job_row [OF wft \<open>y \<in> set (eligible_candidates db now)\<close>] obtain j where
        "job_row db (cand_job y) = Some j" "j_ready_seq j = Some (cand_ready_seq y)" by blast
      ultimately have "cand_job x = cand_job y"
        using ready_seq_unique [OF assms] eq by simp
      then show False
        using \<open>distinct (map cand_job ?cs)\<close> that
        unfolding distinct_map by (blast dest: inj_onD)
    qed
    then show ?thesis by (auto simp: ranks_before_def)
  qed
  ultimately show ?thesis
    unfolding pass_sorted_wrt eligible_candidates_def rank
    by (intro sorted_order_by transp_ranks_before) auto
qed

section \<open>The attempts of a pass\<close>

lemma create_attempt_frame:
  assumes "create_attempt_with_lease job tok now db = Inr (row, db')"
  shows "reservations db' = reservations db" "backfills db' = backfills db"
    "dependencies db' = dependencies db" "ready_sequence db' = ready_sequence db"
    "attempt_seq db' = attempt_seq db + 1" "reservation_seq db' = reservation_seq db"
    "a_id row = attempt_seq db + 1"
    "k \<noteq> j_id job \<Longrightarrow> job_row db' k = job_row db k"
    "active_leases db' = active_leases db @
      [(a_id row, \<lparr>lease_job = j_id job, lease_limit = j_max_parallel_runs job\<rparr>)]"
  using assms
  by (auto simp: create_attempt_with_lease_def Let_def result_eqs active_leases_def
      job_table.lookup_update) (auto simp: job_row_def)

definition may_start :: "database \<Rightarrow> job_id \<Rightarrow> bool" where
  "may_start db i \<longleftrightarrow> (\<exists>j. job_row db i = Some j \<and> j_state j = J_Queued \<and> j_ready_seq j \<noteq> None)"

definition limit_in :: "database \<Rightarrow> job_id \<Rightarrow> nat" where
  "limit_in db i = (case job_row db i of None \<Rightarrow> 0 | Some j \<Rightarrow> j_max_parallel_runs j)"

lemma start_attempt_ok:
  assumes wf: "wf_tables db" and may: "may_start db (start_job s)"
  shows "\<exists>a db1. start_attempt tok now s ((batch, launched), db) =
      Inr ((batch(start_job s \<mapsto> a), launched @ [a]), db1) \<and>
    wf_tables db1 \<and> reservations db1 = reservations db \<and> backfills db1 = backfills db \<and>
    audited db db1 \<and>
    (\<forall>k. k \<noteq> start_job s \<longrightarrow> job_row db1 k = job_row db k) \<and>
    (\<forall>prot. prot \<noteq> Some (start_job s) \<longrightarrow>
       q_step ((abs_queue db)\<lparr>q_protected := prot\<rparr>) ((abs_queue db1)\<lparr>q_protected := prot\<rparr>)) \<and>
    active_leases db1 = active_leases db @
      [(a, \<lparr>lease_job = start_job s, lease_limit = limit_in db (start_job s)\<rparr>)]"
proof -
  let ?i = "start_job s"
  from may obtain j where j: "job_row db ?i = Some j" "j_state j = J_Queued" "j_ready_seq j \<noteq> None"
    by (auto simp: may_start_def)
  have id: "j_id j = ?i" using job_row_id [OF j(1)] .
  from create_attempt_ok [OF wf j(1), of "tok (attempt_seq db + 1)" now] j(2)
  obtain row db' where c: "create_attempt_with_lease j (tok (attempt_seq db + 1)) now db = Inr (row, db')"
    and wf': "wf_tables db'" and a: "a_id row = attempt_seq db + 1"
    and abs: "abs_queue db' = set_attempt (a_id row) ?i A_Prepared (set_job ?i J_Starting (abs_queue db))
      \<lparr>q_open := insert (a_id row) (q_open (abs_queue db))\<rparr>"
    by auto
  note frame = create_attempt_frame [OF c]
  define db1 where "db1 = append_event now (Some ?i) (Some (a_id row)) ''attempt_prepared'' ''daemon''
              (Some (JObj [(''number'', JInt (a_number row)),
                 (''maxParallelRuns'', JInt (int (j_max_parallel_runs j))),
                 (''backfill'', JBool (consumes_bypass s))])) db'"
  have eq: "start_attempt tok now s ((batch, launched), db) =
      Inr ((batch(?i \<mapsto> a_id row), launched @ [a_id row]), db1)"
    using j by (simp add: start_attempt_def c id db1_def)
  have step: "q_step ((abs_queue db)\<lparr>q_protected := prot\<rparr>) ((abs_queue db1)\<lparr>q_protected := prot\<rparr>)"
    if "prot \<noteq> Some ?i" for prot
  proof -
    have "attempt_row db (a_id row) = None" using attempt_seq_fresh [OF wf] by (simp add: a)
    then have "q_step ((abs_queue db)\<lparr>q_protected := prot\<rparr>)
        (set_attempt (a_id row) ?i A_Prepared (set_job ?i J_Starting ((abs_queue db)\<lparr>q_protected := prot\<rparr>))
          \<lparr>q_open := insert (a_id row) (q_open ((abs_queue db)\<lparr>q_protected := prot\<rparr>))\<rparr>)"
      using that j by (intro q_step.start) (auto simp: job_state_of_def)
    moreover have "(abs_queue db1)\<lparr>q_protected := prot\<rparr> =
        set_attempt (a_id row) ?i A_Prepared (set_job ?i J_Starting ((abs_queue db)\<lparr>q_protected := prot\<rparr>))
          \<lparr>q_open := insert (a_id row) (q_open ((abs_queue db)\<lparr>q_protected := prot\<rparr>))\<rparr>"
      unfolding db1_def abs_append_event abs by (rule queue.equality) (simp_all add: q_updates)
    ultimately show ?thesis by simp
  qed
  have "audited db db1"
    unfolding db1_def by (intro audited_event audited_create_attempt [OF c] audited_refl)
  moreover have "active_leases db1 = active_leases db' " "reservations db1 = reservations db'"
    "backfills db1 = backfills db'" "job_row db1 = job_row db'"
    by (simp_all add: db1_def active_leases_def)
  ultimately show ?thesis
    using eq step wf' frame j id
    by (intro exI [of _ "a_id row"] exI [of _ db1])
      (auto simp: db1_def wf_append_event limit_in_def)
qed

lemma start_attempts_ok:
  assumes "wf_tables db" and "distinct (map start_job ss)"
    and "\<And>s. s \<in> set ss \<Longrightarrow> may_start db (start_job s)"
  shows "\<exists>batch' launched' as db1. foldE (start_attempt tok now) ss ((batch, launched), db) =
      Inr ((batch', launched'), db1) \<and>
    wf_tables db1 \<and> reservations db1 = reservations db \<and> backfills db1 = backfills db \<and>
    audited db db1 \<and>
    (\<forall>k. k \<notin> start_job ` set ss \<longrightarrow> job_row db1 k = job_row db k) \<and>
    (\<forall>prot. prot \<notin> Some ` start_job ` set ss \<longrightarrow>
       q_steps ((abs_queue db)\<lparr>q_protected := prot\<rparr>) ((abs_queue db1)\<lparr>q_protected := prot\<rparr>)) \<and>
    active_leases db1 = active_leases db @ as \<and> launched' = launched @ map fst as \<and>
    map snd as = map (\<lambda>s. \<lparr>lease_job = start_job s, lease_limit = limit_in db (start_job s)\<rparr>) ss"
  using assms
proof (induction ss arbitrary: db batch launched)
  case Nil
  then show ?case by (simp add: audited_refl)
next
  case (Cons s ss)
  from start_attempt_ok [OF Cons.prems(1) Cons.prems(3) [of s], of tok now batch launched]
  obtain a db0 where first: "start_attempt tok now s ((batch, launched), db) =
      Inr ((batch(start_job s \<mapsto> a), launched @ [a]), db0)"
    and wf0: "wf_tables db0" and fr: "reservations db0 = reservations db" "backfills db0 = backfills db" "audited db db0"
    and rows: "\<And>k. k \<noteq> start_job s \<Longrightarrow> job_row db0 k = job_row db k"
    and step: "\<And>prot. prot \<noteq> Some (start_job s) \<Longrightarrow>
       q_step ((abs_queue db)\<lparr>q_protected := prot\<rparr>) ((abs_queue db0)\<lparr>q_protected := prot\<rparr>)"
    and leases: "active_leases db0 = active_leases db @
      [(a, \<lparr>lease_job = start_job s, lease_limit = limit_in db (start_job s)\<rparr>)]"
    by auto
  have diff: "start_job t \<noteq> start_job s" if "t \<in> set ss" for t
    using Cons.prems(2) that by (metis distinct.simps(2) imageI list.simps(9) list.set_map)
  have may0: "may_start db0 (start_job t)" if "t \<in> set ss" for t
    using Cons.prems(3) [of t] rows [OF diff [OF that]] that by (simp add: may_start_def)
  have "distinct (map start_job ss)" using Cons.prems(2) by simp
  from Cons.IH [OF wf0 this may0, of "batch(start_job s \<mapsto> a)" "launched @ [a]"]
  obtain batch' launched' as db1 where rest:
    "foldE (start_attempt tok now) ss ((batch(start_job s \<mapsto> a), launched @ [a]), db0) =
      Inr ((batch', launched'), db1)"
    and wf1: "wf_tables db1" and fr1: "reservations db1 = reservations db0" "backfills db1 = backfills db0"
      "audited db0 db1"
    and rows1: "\<And>k. k \<notin> start_job ` set ss \<Longrightarrow> job_row db1 k = job_row db0 k"
    and steps: "\<And>prot. prot \<notin> Some ` start_job ` set ss \<Longrightarrow>
       q_steps ((abs_queue db0)\<lparr>q_protected := prot\<rparr>) ((abs_queue db1)\<lparr>q_protected := prot\<rparr>)"
    and leases1: "active_leases db1 = active_leases db0 @ as" "launched' = (launched @ [a]) @ map fst as"
    and as1: "map snd as = map (\<lambda>s. \<lparr>lease_job = start_job s, lease_limit = limit_in db0 (start_job s)\<rparr>) ss"
    by blast
  have "limit_in db0 (start_job t) = limit_in db (start_job t)" if "t \<in> set ss" for t
    using rows [OF diff [OF that]] by (simp add: limit_in_def)
  then have "map snd as = map (\<lambda>s. \<lparr>lease_job = start_job s, lease_limit = limit_in db (start_job s)\<rparr>) ss"
    using as1 by simp
  moreover have "q_steps ((abs_queue db)\<lparr>q_protected := prot\<rparr>) ((abs_queue db1)\<lparr>q_protected := prot\<rparr>)"
    if "prot \<notin> Some ` start_job ` set (s # ss)" for prot
    using step [of prot] steps [of prot] that by (auto intro: converse_rtranclp_into_rtranclp)
  ultimately show ?case
    using first rest wf1 fr fr1 rows rows1 leases leases1 audited_trans [OF fr(3) fr1(3)]
    by (intro exI [of _ batch'] exI [of _ launched'] exI [of _ "(a, \<lparr>lease_job = start_job s,
        lease_limit = limit_in db (start_job s)\<rparr>) # as"] exI [of _ db1]) auto
qed

section \<open>The reservation of a pass\<close>

text \<open>
  What the reservation part of the transaction does: it only moves the protection, and touches
  no job, attempt or lease.
\<close>

definition protects :: "database \<Rightarrow> job_id option \<Rightarrow> database \<Rightarrow> bool" where
  "protects db p db' \<longleftrightarrow> wf_tables db' \<and> abs_queue db' = (abs_queue db)\<lparr>q_protected := p\<rparr> \<and>
     run_leases db' = run_leases db \<and> audited db db'"

lemma protects_refl: "wf_tables db \<Longrightarrow> p = protected_job db \<Longrightarrow> protects db p db"
  by (simp add: protects_def abs_queue_def audited_refl)

lemma protects_trans: "protects db p db1 \<Longrightarrow> protects db1 p' db2 \<Longrightarrow> protects db p' db2"
  by (auto simp: protects_def intro: audited_trans)

lemma protects_event: "protects db p db' \<Longrightarrow> protects db p (append_event now ji ai ty ac de db')"
  by (simp add: protects_def wf_append_event abs_append_event audited_event)

lemma protects_backfill: "protects db p db' \<Longrightarrow> protects db p (record_backfill r j w a now db')"
  by (simp add: protects_def wf_record_backfill abs_record_backfill audited_updates)

lemma protects_backfills:
  "protects db p db' \<Longrightarrow> protects db p (fold (\<lambda>j. record_backfill r j w (f j) now) js db')"
  by (induction js arbitrary: db') (auto intro: protects_backfill)

lemma protects_protected: "protects db p db' \<Longrightarrow> protected_job db' = p"
  using abs_queue_sel(7) [of db'] by (simp add: protects_def)

lemma active_reservation_cong:
  "reservations db' = reservations db \<Longrightarrow> backfills db' = backfills db \<Longrightarrow>
     active_reservation db' = active_reservation db"
  by (simp add: active_reservation_def)

lemma commit_freeze_ok:
  assumes "wf_tables db" "reservation \<noteq> None" "pending \<noteq> None"
  shows "\<exists>db'. commit_freeze reservation pending now db = Inr db' \<and> protects db (protected_job db) db'"
proof -
  from assms obtain res cutoff where "reservation = Some res" "pending = Some cutoff" by auto
  moreover have "protects db (protected_job db) (freeze_reservation_cutoff (ri_id res) cutoff db)"
    using assms(1) protects_refl [OF assms(1) refl]
    by (simp add: protects_def wf_freeze abs_freeze audited_updates)
  ultimately show ?thesis by (auto simp: commit_freeze_def intro: protects_event)
qed

lemma resolve_protects:
  assumes "wf_tables db" "active_reservation db = Some res" "status \<noteq> Res_Active"
  shows "protects db None (resolve_reservation (ri_id res) status reason now db)"
  using assms by (simp add: protects_def wf_resolve_reservation abs_resolve_reservation audited_updates audited_refl)

lemma commit_satisfy_ok:
  assumes "wf_tables db" "active_reservation db = Some res"
  shows "\<exists>db'. commit_satisfy (Some (ri_id res, ri_job_id res)) now db = Inr (None, db') \<and>
    protects db None db'"
  using assms by (auto simp: commit_satisfy_def intro: protects_event resolve_protects)

lemma commit_invalidate_ok:
  assumes "wf_tables db" "active_reservation db = Some res"
  shows "\<exists>db'. commit_invalidate reason (Some (ri_id res, ri_job_id res)) now db = Inr (None, db') \<and>
    protects db None db'"
  using assms by (auto simp: commit_invalidate_def intro: protects_event resolve_protects)

lemma create_reservation_total:
  assumes "wf_tables db" "protected_job db = None"
  shows "\<exists>rid db'. create_reservation job ver blockers now db = Inr (rid, db') \<and>
    protects db (Some job) db'"
proof -
  have "\<not> list_ex (\<lambda>r. r_status r = Res_Active) (reservations db)"
    using assms(2) by (auto simp: protected_job_def find_None_all list_ex_iff)
  then obtain rid db' where c: "create_reservation job ver blockers now db = Inr (rid, db')"
    by (simp add: create_reservation_def Let_def)
  then show ?thesis
    using create_reservation_ok [OF c] assms(1) audited_create_reservation [OF c audited_refl]
    by (auto simp: protects_def)
qed

lemma commit_create_ok:
  assumes "wf_tables db" "protected_job db = None"
  shows "\<exists>rid db'. commit_create nr starts leases batch now db = Inr (Some (rid, nr_job nr), db') \<and>
    protects db (Some (nr_job nr)) db'"
proof -
  let ?blockers = "map fst leases @ List.map_filter
    (\<lambda>s. if start_bypasses s \<noteq> Some (nr_job nr) then batch (start_job s) else None) starts"
  obtain rid db1 where "create_reservation (nr_job nr) SCHEDULER_SEMANTICS_VERSION ?blockers now db = Inr (rid, db1)"
    and "protects db (Some (nr_job nr)) db1"
    using create_reservation_total [OF assms] by blast
  then show ?thesis
    by (auto simp: commit_create_def Let_def simp del: map_append
        intro!: protects_event protects_backfills)
qed

lemma commit_backfills_ok:
  assumes "wf_tables db"
    and "\<And>s p. s \<in> set starts \<Longrightarrow> start_bypasses s = Some p \<Longrightarrow>
      p \<in> snd ` (set_option current \<union> set_option old)"
  shows "\<exists>db'. foldE (commit_backfill current old batch now) starts db = Inr db' \<and>
    protects db (protected_job db) db'"
  using assms
proof (induction starts arbitrary: db)
  case Nil
  then show ?case by (simp add: protects_refl)
next
  case (Cons s starts)
  have "\<exists>db1. commit_backfill current old batch now s db = Inr db1 \<and> protects db (protected_job db) db1"
  proof (cases "start_bypasses s")
    case None
    then show ?thesis using protects_refl [OF Cons.prems(1)] by (simp add: commit_backfill_def)
  next
    case (Some p)
    then have "p \<in> snd ` set (List.map_filter id [current, old])"
      using Cons.prems(2) [of s p] by (auto simp: List.map_filter_def split: option.splits)
    then have "List.find (\<lambda>(_, job). job = p) (List.map_filter id [current, old]) \<noteq> None"
      unfolding find_None_all by (auto simp: image_iff)
    then show ?thesis
      using Some protects_refl [OF Cons.prems(1) refl]
      by (auto simp: commit_backfill_def intro!: protects_event protects_backfill)
  qed
  then obtain db1 where db1: "commit_backfill current old batch now s db = Inr db1"
    "protects db (protected_job db) db1" by blast
  have "\<exists>db'. foldE (commit_backfill current old batch now) starts db1 = Inr db' \<and>
      protects db1 (protected_job db1) db'"
    by (rule Cons.IH) (use Cons.prems(2) db1(2) in \<open>auto simp: protects_def\<close>)
  then show ?case
    using db1 protects_protected [OF db1(2)] by (auto intro: protects_trans)
qed

section \<open>The transaction\<close>

text \<open>
  What the reservation part leaves protected: nothing once the reservation is satisfied or
  invalidated, else the job that was protected; or the job of a new reservation.
\<close>

definition kept_protection :: "pass_outcome \<Rightarrow> database \<Rightarrow> job_id option" where
  "kept_protection out db =
     (if po_satisfy_reservation out \<or> po_invalidate_reservation out \<noteq> None then None
      else protected_job db)"

definition next_protection :: "pass_outcome \<Rightarrow> database \<Rightarrow> job_id option" where
  "next_protection out db =
     (case po_create_reservation out of Some nr \<Rightarrow> Some (nr_job nr) | None \<Rightarrow> kept_protection out db)"

lemma resolve_part_ok:
  assumes wf: "wf_tables db"
    and res: "po_satisfy_reservation out \<or> po_invalidate_reservation out \<noteq> None \<Longrightarrow>
      active_reservation db = reservation"
    and cons: "outcome_consistent active eligible snapshot out"
    and snap: "snapshot \<noteq> None \<longleftrightarrow> reservation \<noteq> None"
  shows "\<exists>cur db'. bindE (if po_satisfy_reservation out
          then commit_satisfy (map_option (\<lambda>r. (ri_id r, ri_job_id r)) reservation) now db
          else Inr (map_option (\<lambda>r. (ri_id r, ri_job_id r)) reservation, db))
       (\<lambda>(cur3, db3). case po_invalidate_reservation out of
              Some reason \<Rightarrow> commit_invalidate reason cur3 now db3
            | None \<Rightarrow> Inr (cur3, db3)) = Inr (cur, db') \<and>
    protects db (kept_protection out db) db'"
proof (cases "po_satisfy_reservation out \<or> po_invalidate_reservation out \<noteq> None")
  case True
  then obtain r where r: "reservation = Some r" "active_reservation db = Some r"
    using cons snap res by (auto simp: outcome_consistent_def)
  show ?thesis
  proof (cases "po_satisfy_reservation out")
    case sat: True
    then have "po_invalidate_reservation out = None" using cons by (auto simp: outcome_consistent_def)
    then show ?thesis
      using sat commit_satisfy_ok [OF wf r(2), of now] r(1)
      by (auto simp: kept_protection_def)
  next
    case False
    with True obtain reason where "po_invalidate_reservation out = Some reason" by auto
    then show ?thesis
      using False commit_invalidate_ok [OF wf r(2), of reason now] r(1)
      by (auto simp: kept_protection_def)
  qed
next
  case False
  then show ?thesis
    using protects_refl [OF wf refl] by (auto simp: kept_protection_def)
qed

lemma freeze_part_ok:
  assumes wf: "wf_tables db"
    and freeze: "freeze \<Longrightarrow> pending \<noteq> None \<and> reservation \<noteq> None"
  shows "\<exists>db2. (if freeze then commit_freeze reservation pending now db else Inr db) = Inr db2 \<and>
      protects db (protected_job db) db2 \<and> (\<not> freeze \<longrightarrow> db2 = db)"
  using commit_freeze_ok [OF wf, of reservation pending now] freeze protects_refl [OF wf] by auto

lemma create_part_ok:
  assumes p4: "protects db (kept_protection out db) db4"
    and cons: "outcome_consistent active eligible snapshot out"
    and snap: "map_option snap_job snapshot = map_option ri_job_id reservation"
    and res: "reservation = active_reservation db"
  shows "\<exists>cur5 db5. (case po_create_reservation out of
              Some nr \<Rightarrow> commit_create nr (po_starts out) leases batch now db4
            | None \<Rightarrow> Inr (cur4, db4)) = Inr (cur5, db5) \<and> protects db (next_protection out db) db5 \<and>
      (\<forall>nr. po_create_reservation out = Some nr \<longrightarrow> nr_job nr \<in> snd ` set_option cur5)"
proof (cases "po_create_reservation out")
  case None
  then show ?thesis using p4 by (simp add: next_protection_def)
next
  case (Some nr)
  have "kept_protection out db = None"
    using cons Some snap res by (auto simp: outcome_consistent_def kept_protection_def protected_job_active)
  then have "protected_job db4 = None" "wf_tables db4"
    using protects_protected [OF p4] p4 by (simp_all add: protects_def)
  then obtain rid db5 where
    "commit_create nr (po_starts out) leases batch now db4 = Inr (Some (rid, nr_job nr), db5)"
    "protects db4 (Some (nr_job nr)) db5"
    using commit_create_ok by blast
  then show ?thesis
    using Some protects_trans [OF p4] by (simp add: next_protection_def)
qed

lemma reservation_part_ok:
  assumes wf: "wf_tables db" and res: "reservation = active_reservation db"
    and cons: "outcome_consistent active eligible snapshot out"
    and snap: "map_option snap_job snapshot = map_option ri_job_id reservation"
    and freeze: "freeze \<Longrightarrow> pending \<noteq> None \<and> reservation \<noteq> None \<and> \<not> po_satisfy_reservation out \<and>
      po_invalidate_reservation out = None"
    and bypass: "\<And>s p. s \<in> set (po_starts out) \<Longrightarrow> start_bypasses s = Some p \<Longrightarrow>
      (\<exists>snap. snapshot = Some snap \<and> snap_job snap = p) \<or>
      (\<exists>nr. po_create_reservation out = Some nr \<and> nr_job nr = p)"
  shows "\<exists>db'. commit_reservation now leases reservation pending freeze out batch db = Inr db' \<and>
    protects db (next_protection out db) db'"
proof -
  let ?old = "map_option (\<lambda>res. (ri_id res, ri_job_id res)) reservation"
  from freeze_part_ok [OF wf] freeze
  obtain db2 where db2: "(if freeze then commit_freeze reservation pending now db else Inr db) = Inr db2"
    "protects db (protected_job db) db2" "\<not> freeze \<longrightarrow> db2 = db" by blast
  have same: "kept_protection out db2 = kept_protection out db"
    using protects_protected [OF db2(2)] by (simp add: kept_protection_def)
  have "\<exists>cur db'. bindE (if po_satisfy_reservation out then commit_satisfy ?old now db2 else Inr (?old, db2))
       (\<lambda>(cur3, db3). case po_invalidate_reservation out of
              Some reason \<Rightarrow> commit_invalidate reason cur3 now db3
            | None \<Rightarrow> Inr (cur3, db3)) = Inr (cur, db') \<and> protects db2 (kept_protection out db2) db'"
  proof (rule resolve_part_ok [OF _ _ cons])
    show "wf_tables db2" using db2(2) by (simp add: protects_def)
    show "snapshot \<noteq> None \<longleftrightarrow> reservation \<noteq> None" using snap by (metis map_option_is_None)
    show "active_reservation db2 = reservation"
      if "po_satisfy_reservation out \<or> po_invalidate_reservation out \<noteq> None"
      using that freeze db2(3) res by auto
  qed
  then obtain cur3 db3 cur4 db4 where
    db3: "(if po_satisfy_reservation out then commit_satisfy ?old now db2 else Inr (?old, db2)) = Inr (cur3, db3)"
    and db4: "(case po_invalidate_reservation out of Some reason \<Rightarrow> commit_invalidate reason cur3 now db3
            | None \<Rightarrow> Inr (cur3, db3)) = Inr (cur4, db4)"
    and p4: "protects db (kept_protection out db) db4"
    using same protects_trans [OF db2(2)] by (auto simp: bindE_eq_Inr)
  from create_part_ok [OF p4 cons snap res, where leases = leases and batch = batch and now = now and ?cur4.0 = cur4]
  obtain cur5 db5 where db5: "(case po_create_reservation out of
              Some nr \<Rightarrow> commit_create nr (po_starts out) leases batch now db4
            | None \<Rightarrow> Inr (cur4, db4)) = Inr (cur5, db5)"
    and p5: "protects db (next_protection out db) db5"
    and cur5: "\<forall>nr. po_create_reservation out = Some nr \<longrightarrow> nr_job nr \<in> snd ` set_option cur5" by (elim exE conjE)
  have "\<exists>db6. foldE (commit_backfill cur5 ?old batch now) (po_starts out) db5 = Inr db6 \<and>
      protects db5 (protected_job db5) db6"
  proof (rule commit_backfills_ok)
    show "wf_tables db5" using p5 by (simp add: protects_def)
    show "p \<in> snd ` (set_option cur5 \<union> set_option ?old)"
      if "s \<in> set (po_starts out)" "start_bypasses s = Some p" for s p
      using bypass [OF that] cur5 snap by (cases reservation) (auto simp: image_Un)
  qed
  then obtain db6 where "foldE (commit_backfill cur5 ?old batch now) (po_starts out) db5 = Inr db6"
    "protects db (next_protection out db) db6"
    using protects_trans [OF p5] protects_protected [OF p5] by auto
  then show ?thesis
    using db2(1) db3 db4 db5 by (auto simp: commit_reservation_def Let_def)
qed

text \<open>The protection of the whole transaction, as steps around the starts.\<close>

lemma protection_steps:
  assumes wf: "wf_db db" and out: "plan_pass active (eligible_candidates db now) snapshot = Inr out"
    and snap: "map_option snap_job snapshot = protected_job db"
    and starts: "\<And>prot. prot \<notin> Some ` start_job ` set (po_starts out) \<Longrightarrow>
       q_steps ((abs_queue db)\<lparr>q_protected := prot\<rparr>) ((abs_queue db1)\<lparr>q_protected := prot\<rparr>)"
    and rows: "\<And>k. k \<notin> start_job ` set (po_starts out) \<Longrightarrow> job_row db1 k = job_row db k"
  shows "q_steps (abs_queue db) ((abs_queue db1)\<lparr>q_protected := next_protection out db\<rparr>)"
proof -
  have wft: "wf_tables db" using wf by (rule wf_db_tables)
  have dist: "distinct (map cand_job (eligible_candidates db now))"
    using eligible_candidates_distinct [OF wft] .
  note cons = pass_policy.consistent [OF out dist, unfolded outcome_consistent_def]
  let ?k = "kept_protection out db"
  have "q_steps (abs_queue db) ((abs_queue db)\<lparr>q_protected := ?k\<rparr>)"
    using q_step.unprotect [of "abs_queue db"]
    by (cases "?k = protected_job db") (auto simp: kept_protection_def abs_queue_def split: if_splits)
  moreover have "q_steps ((abs_queue db)\<lparr>q_protected := ?k\<rparr>) ((abs_queue db1)\<lparr>q_protected := ?k\<rparr>)"
    using cons snap by (intro starts) (auto simp: kept_protection_def split: if_splits)
  moreover have "q_steps ((abs_queue db1)\<lparr>q_protected := ?k\<rparr>)
      ((abs_queue db1)\<lparr>q_protected := next_protection out db\<rparr>)"
  proof (cases "po_create_reservation out")
    case (Some nr)
    then obtain c where c: "c \<in> set (eligible_candidates db now)" "cand_job c = nr_job nr"
      and "nr_job nr \<notin> start_job ` set (po_starts out)"
      using cons by auto
    then have "job_row db1 (nr_job nr) = job_row db (nr_job nr)" using rows by blast
    moreover obtain j where "job_row db (cand_job c) = Some j" "j_state j = J_Queued"
      "j_ready_seq j = Some (cand_ready_seq c)"
      by (rule eligible_job_row [OF wft c(1)])
    moreover have "?k = None" using cons Some snap by (auto simp: kept_protection_def)
    ultimately have "q_step ((abs_queue db1)\<lparr>q_protected := ?k\<rparr>)
        ((abs_queue db1)\<lparr>q_protected := ?k\<rparr>\<lparr>q_protected := Some (nr_job nr)\<rparr>)"
      using c(2) by (intro q_step.protect) (auto simp: job_state_of_def)
    then show ?thesis using Some by (auto simp: next_protection_def)
  qed (simp add: next_protection_def)
  ultimately show ?thesis by (meson rtranclp_trans)
qed

lemma commit_pass_ok:
  assumes wf: "wf_db db" and out: "plan_pass active (eligible_candidates db now) snapshot = Inr out"
    and snap: "map_option snap_job snapshot = map_option ri_job_id (active_reservation db)"
    and freeze: "freeze \<Longrightarrow> pending \<noteq> None \<and> active_reservation db \<noteq> None \<and>
      \<not> po_satisfy_reservation out \<and> po_invalidate_reservation out = None"
  shows "\<exists>launched as db'. commit_pass tok now leases (active_reservation db) pending freeze out db =
      Inr (launched, db') \<and> refines db db' \<and> audited db db' \<and>
    active_leases db' = active_leases db @ as \<and> launched = map fst as \<and>
    map snd as = map (\<lambda>s. \<lparr>lease_job = start_job s, lease_limit = limit_in db (start_job s)\<rparr>)
      (po_starts out)"
proof -
  have wft: "wf_tables db" using wf by (rule wf_db_tables)
  have dist: "distinct (map cand_job (eligible_candidates db now))"
    using eligible_candidates_distinct [OF wft] .
  note cons = pass_policy.consistent [OF out dist]
  have may: "may_start db (start_job s)" if "s \<in> set (po_starts out)" for s
    using pass_policy.starts_eligible [OF out dist that] eligible_job_row [OF wft]
    unfolding may_start_def by (metis option.distinct(1))
  have "distinct (map start_job (po_starts out))" using cons by (simp add: outcome_consistent_def)
  from start_attempts_ok [OF wft this may, of tok now Map.empty "[]"]
  obtain batch launched as db1 where first:
    "foldE (start_attempt tok now) (po_starts out) ((\<lambda>_. None, []), db) = Inr ((batch, launched), db1)"
    and wf1: "wf_tables db1" and frame: "reservations db1 = reservations db" "backfills db1 = backfills db"
    and aud: "audited db db1"
    and rows: "\<forall>k. k \<notin> start_job ` set (po_starts out) \<longrightarrow> job_row db1 k = job_row db k"
    and steps: "\<forall>prot. prot \<notin> Some ` start_job ` set (po_starts out) \<longrightarrow>
       q_steps ((abs_queue db)\<lparr>q_protected := prot\<rparr>) ((abs_queue db1)\<lparr>q_protected := prot\<rparr>)"
    and leases: "active_leases db1 = active_leases db @ as" "launched = map fst as"
      "map snd as = map (\<lambda>s. \<lparr>lease_job = start_job s, lease_limit = limit_in db (start_job s)\<rparr>)
        (po_starts out)"
    by auto
  have res1: "active_reservation db = active_reservation db1"
    using active_reservation_cong [OF frame] by simp
  have bypass: "(\<exists>snap. snapshot = Some snap \<and> snap_job snap = p) \<or>
      (\<exists>nr. po_create_reservation out = Some nr \<and> nr_job nr = p)"
    if "s \<in> set (po_starts out)" "start_bypasses s = Some p" for s p
    using pass_policy.bypass_attributed [OF out dist that] .
  have "\<exists>db'. commit_reservation now leases (active_reservation db) pending freeze out batch db1 = Inr db' \<and>
      protects db1 (next_protection out db1) db'"
    using freeze bypass by (intro reservation_part_ok [OF wf1 res1 cons snap]) simp_all
  then obtain db' where rest: "commit_pass tok now leases (active_reservation db) pending freeze out db = Inr (launched, db')"
    and p: "protects db1 (next_protection out db1) db'"
    unfolding commit_pass_def first by auto
  have "kept_protection out db1 = kept_protection out db"
    using res1 by (simp add: kept_protection_def protected_job_active)
  then have "next_protection out db1 = next_protection out db"
    by (simp add: next_protection_def split: option.split)
  moreover have "q_steps (abs_queue db) ((abs_queue db1)\<lparr>q_protected := next_protection out db\<rparr>)"
    using snap steps rows by (intro protection_steps [OF wf out]) (simp_all add: protected_job_active)
  ultimately have "refines db db'"
    using p by (simp add: refines_def protects_def)
  moreover have "active_leases db' = active_leases db1"
    using p by (simp add: protects_def active_leases_def)
  moreover have "audited db db'" using p audited_trans [OF aud] by (simp add: protects_def)
  ultimately show ?thesis using rest leases by auto
qed

section \<open>The scheduling pass\<close>

lemma interpret_reservation_ok:
  assumes "interpret_reservation db reservation = Inr (snapshot, pending)"
  shows "map_option snap_job snapshot = map_option ri_job_id reservation"
    and "pending \<noteq> None \<Longrightarrow> reservation \<noteq> None"
  using assms
  by (auto simp: interpret_reservation_def Let_def split: option.splits frontier_kind.splits)

lemma limit_of_eligible:
  assumes "wf_tables db" "c \<in> set (eligible_candidates db now)"
  shows "limit_of (eligible_candidates db now) (cand_job c) = limit_in db (cand_job c)"
proof -
  have "List.find (\<lambda>d. cand_job d = cand_job c) (eligible_candidates db now) = Some c"
    by (rule find_key_unique [OF eligible_candidates_distinct [OF assms(1)] assms(2)]) (rule refl)
  moreover obtain j where "job_row db (cand_job c) = Some j" "cand_limit c = j_max_parallel_runs j"
    by (rule eligible_job_row [OF assms])
  ultimately show ?thesis by (simp add: limit_of_def limit_in_def)
qed

lemma pass_starts_compatible:
  assumes wf: "wf_tables db"
    and out: "plan_pass (map snd ls) (eligible_candidates db now) snapshot = Inr out"
    and "po_starts out \<noteq> []"
  shows "compatible (map (\<lambda>l. lease_limit (snd l)) ls @
    map (\<lambda>s. limit_in db (start_job s)) (po_starts out))"
proof -
  note dist = eligible_candidates_distinct [OF wf, of now]
  have "limit_of (eligible_candidates db now) (start_job s) = limit_in db (start_job s)"
    if "s \<in> set (po_starts out)" for s
    using pass_policy.starts_eligible [OF out dist that] limit_of_eligible [OF wf] by metis
  then have "start_limits (eligible_candidates db now) (po_starts out) =
      map (\<lambda>s. limit_in db (start_job s)) (po_starts out)"
    by (simp add: start_limits_def)
  then show ?thesis
    using pass_policy.fits [OF out dist assms(3)] by (simp add: o_def)
qed

text \<open>
  One call of \<open>schedule\<close>: nothing is admitted, or the leases of one pass are added to the open
  ones and the whole set tolerates its size.
\<close>

lemma schedule_ok:
  assumes wf: "wf_db db"
  shows "\<exists>blocked' launched db'. schedule tok now blocked db = (blocked', Inr (launched, db')) \<and>
    refines db db' \<and> audited db db' \<and>
    (\<exists>as. active_leases db' = active_leases db @ as \<and> launched = map fst as \<and>
      (as \<noteq> [] \<longrightarrow> compatible (map (lease_limit \<circ> snd) (active_leases db')) \<and>
        \<not> is_paused db \<and> blocked' = None))"
proof -
  have wft: "wf_tables db" using wf by (rule wf_db_tables)
  note idle = refines_refl [OF wft] audited_refl [of db]
  show ?thesis
  proof (cases "blocked \<noteq> None \<and> reservation_unsupported db \<or> is_paused db")
    case True
    then show ?thesis using idle by (auto simp: schedule_def)
  next
    case False
    show ?thesis
    proof (cases "interpret_reservation db (active_reservation db)")
      case (Inl reason)
      with False show ?thesis using idle by (auto simp: schedule_def Let_def)
    next
      case (Inr sp)
      then obtain snapshot pending
        where sp: "interpret_reservation db (active_reservation db) = Inr (snapshot, pending)"
        by (cases sp) auto
      obtain out where out: "plan_pass (map snd (active_leases db)) (eligible_candidates db now) snapshot = Inr out"
        using pass_policy.total by blast
      note snap = interpret_reservation_ok [OF sp]
      define freeze where "freeze \<longleftrightarrow> pending \<noteq> None \<and> \<not> po_satisfy_reservation out \<and>
        po_invalidate_reservation out = None"
      obtain launched as db' where
        c: "commit_pass tok now (active_leases db) (active_reservation db) pending freeze out db = Inr (launched, db')"
        and r: "refines db db'" "audited db db'"
        and l: "active_leases db' = active_leases db @ as" "launched = map fst as"
        and as: "map snd as = map (\<lambda>s. \<lparr>lease_job = start_job s, lease_limit = limit_in db (start_job s)\<rparr>)
          (po_starts out)"
        using commit_pass_ok [OF wf out snap(1), of freeze pending tok "active_leases db"] snap(2)
        unfolding freeze_def by blast
      have "map (lease_limit \<circ> snd) as = map (\<lambda>s. limit_in db (start_job s)) (po_starts out)"
        using arg_cong [OF as, of "map lease_limit"] by (simp only: map_map o_def active_lease.simps)
      then have "compatible (map (lease_limit \<circ> snd) (active_leases db'))" if "as \<noteq> []"
        using pass_starts_compatible [OF wft out] that l(1) by (cases "po_starts out") (auto simp: o_def)
      moreover have "schedule tok now blocked db =
          (None, if po_starts out = [] \<and> \<not> po_satisfy_reservation out \<and>
                    po_invalidate_reservation out = None \<and> po_create_reservation out = None \<and> \<not> freeze
                 then Inr ([], db)
                 else commit_pass tok now (active_leases db) (active_reservation db) pending freeze out db)"
        using False sp out by (auto simp: schedule_def Let_def freeze_def)
      ultimately show ?thesis
        using False c r l idle by simp
    qed
  qed
qed

end
