(* ===== verification/Reconcile_Proofs.thy ===== *)
theory Reconcile_Proofs
  imports Reconcile Schedule_Proofs
begin

text \<open>
  Reconciliation refines the queue: whatever the artifacts, the process table, the file system
  and process creation answer, every handler leaves a well-formed database that the abstract
  queue reaches by its own steps, and touches no other attempt.
\<close>

section \<open>Frames\<close>

lemma latch_outcomes_frame [simp]:
  "attempts (latch_outcomes now db) = attempts db"
  "run_leases (latch_outcomes now db) = run_leases db"
proof -
  have "attempts (fold (latch_edge now) es db) = attempts db \<and>
      run_leases (fold (latch_edge now) es db) = run_leases db" for es
    by (induction es arbitrary: db) (auto simp: latch_edge_def split: prod.splits)
  then show "attempts (latch_outcomes now db) = attempts db"
    "run_leases (latch_outcomes now db) = run_leases db"
    by (simp_all add: latch_outcomes_def)
qed

lemma skip_violated_frame [simp]:
  "attempts (skip_violated now db) = attempts db"
  "run_leases (skip_violated now db) = run_leases db"
proof -
  have "attempts (fold (skip_child now) cs db) = attempts db \<and>
      run_leases (fold (skip_child now) cs db) = run_leases db" for cs
    by (induction cs arbitrary: db)
      (auto simp: skip_child_def update_job_state_def clear_job_readiness_def split: prod.splits)
  then show "attempts (skip_violated now db) = attempts db"
    "run_leases (skip_violated now db) = run_leases db"
    by (simp_all add: skip_violated_def)
qed

lemma advance_loop_frame:
  "attempts (advance_loop now db) = attempts db \<and> run_leases (advance_loop now db) = run_leases db"
proof (induction now db rule: advance_loop.induct)
  case (1 now db)
  then show ?case
    by (subst (1 2) advance_loop.simps) (simp add: Let_def)
qed

lemma advance_frame [simp]:
  "attempts (advance_dependency_graph now db) = attempts db"
  "run_leases (advance_dependency_graph now db) = run_leases db"
  by (simp_all add: advance_dependency_graph_def Let_def advance_loop_frame)

text \<open>The row of an attempt, seen through the updates of the handlers.\<close>

lemma attempt_row_advance [simp]: "attempt_row (advance_dependency_graph now db) = attempt_row db"
  by (simp add: attempt_row_def fun_eq_iff)

lemma attempt_row_job_updates [simp]:
  "attempt_row (set_job_retry_not_before i at now db) = attempt_row db"
  "attempt_row (clear_job_readiness i now db) = attempt_row db"
  by (simp_all add: attempt_row_def set_job_retry_not_before_def clear_job_readiness_def fun_eq_iff)

lemma attempt_row_other [simp]:
  assumes "k \<noteq> a"
  shows "attempt_row (finalize_attempt a s ec ts msg now db) k = attempt_row db k"
    and "attempt_row (set_attempt_state a s msg db) k = attempt_row db k"
    and "attempt_row (set_attempt_running a p g st c now db) k = attempt_row db k"
    and "attempt_row (set_attempt_authorized a now db) k = attempt_row db k"
    and "attempt_row (set_attempt_runner_identity a pid st boot db) k = attempt_row db k"
    and "attempt_row (set_attempt_timed_out a dl db) k = attempt_row db k"
    and "attempt_row (set_attempt_yield_delivered a at db) k = attempt_row db k"
  using assms
  by (simp_all add: finalize_attempt_def set_attempt_state_def set_attempt_running_def
      set_attempt_authorized_def set_attempt_runner_identity_def set_attempt_timed_out_def
      set_attempt_yield_delivered_def attempt_table.lookup_update)

section \<open>The end of an attempt\<close>

text \<open>The snapshot of an attempt that a handler works on still describes the live row.\<close>

definition current :: "database \<Rightarrow> attempt_record \<Rightarrow> bool" where
  "current db a \<longleftrightarrow> attempt_live (a_state a) \<and>
     (\<exists>r. attempt_row db (a_id a) = Some r \<and> a_job r = a_job a \<and> a_state r = a_state a)"

definition ended_state :: "attempt_state \<Rightarrow> bool" where
  "ended_state s \<longleftrightarrow> s \<in> {A_Succeeded, A_Cancelled, A_Lost, A_Yielded, A_Failed}"

lemma ended_state_iff: "ended_state s \<longleftrightarrow> attempt_state_is_terminal s"
  by (cases s) (simp_all add: ended_state_def)

lemma current_job:
  assumes "wf_db db" "current db a"
  obtains job where "job_row db (a_job a) = Some job" "j_id job = a_job a" "j_state job = job_phase (a_state a)"
proof -
  from assms(2) obtain r where "attempt_row db (a_id a) = Some r" "a_job r = a_job a" "a_state r = a_state a"
    by (auto simp: current_def)
  then have "q_attempt (abs_queue db) (a_id a) = Some (a_job a, a_state a)" by simp
  then have "job_state_of db (a_job a) = Some (job_phase (a_state a))"
    using assms unfolding wf_db_def q_inv_def inv_attempts_def current_def by fastforce
  then obtain job where "job_row db (a_job a) = Some job" "j_state job = job_phase (a_state a)"
    by (auto simp: job_state_of_def)
  then show ?thesis using that job_row_id by blast
qed

lemma job_phase_not_terminal [simp]: "\<not> job_state_is_terminal (job_phase s)"
  by (cases s) simp_all

text \<open>The state that the job of an ended attempt moves to.\<close>

definition job_end :: "attempt_record \<Rightarrow> attempt_state \<Rightarrow> job_record \<Rightarrow> database \<Rightarrow> job_state" where
  "job_end a state job db =
     (case state of
        A_Succeeded \<Rightarrow> J_Succeeded
      | A_Cancelled \<Rightarrow> J_Cancelled
      | A_Lost \<Rightarrow> if a_yield_delivered_at a \<noteq> None \<and> \<not> a_cancel_requested a then J_Held else J_Lost
      | A_Yielded \<Rightarrow> if a_cancel_requested a then J_Cancelled else if a_yield_hold a then J_Held else J_Queued
      | _ \<Rightarrow> if j_attempt_count job - yield_count db (j_id job) < j_max_attempts job \<and> \<not> a_cancel_requested a
             then J_Queued else J_Failed)"

lemma finalize_job_ok:
  assumes "ended_state state" "job_state_of db (j_id job) \<noteq> None" "wf_tables db"
  shows "\<exists>db'. finalize_job now a state message actor job db = Inr db' \<and> wf_tables db' \<and>
    abs_queue db' = (if waiting_state (job_end a state job db) then unready (j_id job) else id)
      (set_job (j_id job) (job_end a state job db) (abs_queue db)) \<and>
    attempts db' = attempts db \<and> run_leases db' = run_leases db \<and> audited db db'"
  using assms(1)
  unfolding ended_state_def insert_iff empty_iff
  by (elim disjE)
    (simp_all add: finalize_job_def job_end_def Let_def waiting_state_def abs_simps assms(2,3)
      wf_append_event wf_job_updates,
     auto simp: update_job_state_def set_job_retry_not_before_def clear_job_readiness_def
       intro!: audit_intros)

lemma finish_outcome_job_end: "ended_state s \<Longrightarrow> finish_outcome s (job_end a s job db)"
  by (auto simp: ended_state_def job_end_def intro: finish_outcome.intros)

text \<open>What the end of an attempt commits, besides the refinement.\<close>

definition attempt_ended :: "attempt_record \<Rightarrow> attempt_state \<Rightarrow> database \<Rightarrow> database \<Rightarrow> bool" where
  "attempt_ended a state db db' \<longleftrightarrow>
     refines db db' \<and> (\<forall>k. k \<noteq> a_id a \<longrightarrow> attempt_row db' k = attempt_row db k) \<and>
     map_option a_state (attempt_row db' (a_id a)) = Some state \<and>
     open_attempts db' = open_attempts db - {a_id a} \<and> audited db db'"

lemma close_attempt_ok:
  fixes now a state ec ts message actor db
  defines "db' \<equiv> close_attempt now a state ec ts message actor db"
  shows "wf_tables db \<Longrightarrow> wf_tables db'" "job_row db' = job_row db"
    "attempt_row db' = attempt_row (finalize_attempt (a_id a) state ec ts message now db)"
    "open_attempts db' = open_attempts db - {a_id a}" "audited db db'"
    "attempt_row db (a_id a) = Some r \<Longrightarrow> abs_queue db' =
      (set_attempt (a_id a) (a_job r) state (abs_queue db))\<lparr>q_open := q_open (abs_queue db) - {a_id a}\<rparr>"
proof -
  let ?db0 = "release_lease (a_id a) now (finalize_attempt (a_id a) state ec ts message now db)"
  have "open_attempts db' = open_attempts ?db0"
    by (simp add: db'_def close_attempt_def Let_def open_attempts_def)
  also have "\<dots> = open_attempts (finalize_attempt (a_id a) state ec ts message now db) - {a_id a}"
    by (rule open_attempts_release)
  also have "\<dots> = open_attempts db - {a_id a}"
    by (simp add: open_attempts_def finalize_attempt_def)
  finally show "open_attempts db' = open_attempts db - {a_id a}" .
  show "audited db db'"
    unfolding db'_def close_attempt_def Let_def by (auto intro!: audit_intros)
qed (simp_all add: db'_def close_attempt_def Let_def wf_append_event wf_attempt_updates abs_simps)

lemma finalize_tx_ok:
  assumes wf: "wf_db db" and cur: "current db a" and ended: "ended_state state"
  shows "\<exists>db'. finalize_tx now a state ec ts message actor db = Inr db' \<and> attempt_ended a state db db'"
proof -
  from cur obtain r where r: "attempt_row db (a_id a) = Some r" "a_job r = a_job a" "a_state r = a_state a"
    and live: "attempt_live (a_state a)"
    by (auto simp: current_def)
  obtain job where job: "job_row db (a_job a) = Some job" "j_id job = a_job a" "j_state job = job_phase (a_state a)"
    by (rule current_job [OF wf cur])
  define db2 where "db2 = close_attempt now a state ec ts message actor db"
  note db2 = close_attempt_ok [where now = now and a = a and state = state and ec = ec and ts = ts and
    message = message and actor = actor and db = db, folded db2_def]
  have "job_state_of db2 (j_id job) \<noteq> None"
    using job db2(2) by (simp add: job_state_of_def)
  from finalize_job_ok [OF ended this db2(1) [OF wf_db_tables [OF wf]], of now a message actor]
  obtain db3 where db3: "finalize_job now a state message actor job db2 = Inr db3" "wf_tables db3"
      "abs_queue db3 = (if waiting_state (job_end a state job db2) then unready (a_job a) else id)
        (set_job (a_job a) (job_end a state job db2) (abs_queue db2))"
      "attempts db3 = attempts db2" "run_leases db3 = run_leases db2" "audited db2 db3"
    using job(2) by auto
  have eq: "finalize_tx now a state ec ts message actor db = Inr (advance_dependency_graph now db3)"
    using job db2(2) db3(1) by (simp add: finalize_tx_def Let_def db2_def [symmetric])
  have "refines db db3"
    using r live db3(3) db2(6) [OF r(1)]
    by (intro refines_finish [OF db3(2) r(1) _ finish_outcome_job_end [OF ended, of a job db2]]) simp_all
  then have "refines db (advance_dependency_graph now db3)" by (rule refines_advance)
  moreover have "attempt_row (advance_dependency_graph now db3) = attempt_row db2"
    using db3(4) by (simp add: attempt_row_def fun_eq_iff)
  moreover have "open_attempts (advance_dependency_graph now db3) = open_attempts db2"
    using db3(5) by (simp add: open_attempts_def)
  ultimately show ?thesis
    using eq r(1) db2(3,4) audited_advance [OF audited_trans [OF db2(5) db3(6)]]
    by (auto simp: attempt_ended_def finalize_attempt_def attempt_table.lookup_update)
qed

section \<open>Handlers of one attempt\<close>

text \<open>What every handler of the attempt \<open>i\<close> guarantees.\<close>

definition handles :: "attempt_id \<Rightarrow> coordinator \<Rightarrow> coordinator \<Rightarrow> bool" where
  "handles i co co' \<longleftrightarrow>
     refines (co_db co) (co_db co') \<and>
     (\<forall>k. k \<noteq> i \<longrightarrow> attempt_row (co_db co') k = attempt_row (co_db co) k) \<and>
     audited (co_db co) (co_db co')"

lemma co_db_simps [simp]:
  "co_db (set_db db co) = db" "co_db (update_dir i f co) = co_db co"
  "co_db (send_signal pgid s co) = co_db co" "co_db (orphan_term i pgid co) = co_db co"
  "co_db (kill_if b pgid co) = co_db co" "co_db (publish_time_limit w i tok l at co) = co_db co"
  "co_db (publish_yield w i tok at co) = co_db co" "co_db (republish_cancel w a co) = co_db co"
  "co_db (republish_yield w a co) = co_db co" "co_db (republish_time_limit w a co) = co_db co"
  "co_db (write_timeout w a dl an co) = co_db co" "co_db (prune rows co) = co_db co"
  by (simp_all add: set_db_def update_dir_def send_signal_def orphan_term_def kill_if_def
      publish_time_limit_def publish_yield_def republish_cancel_def republish_yield_def
      republish_time_limit_def write_timeout_def prune_def Let_def split: option.split)

lemma co_db_perform [simp]: "co_db (perform w act co) = co_db co"
  by (cases act) simp_all

lemma handles_same: "wf_db (co_db co) \<Longrightarrow> co_db co' = co_db co \<Longrightarrow> handles i co co'"
  by (simp add: handles_def refines_refl wf_db_tables audited_refl)

lemma handles_cong: "handles i co co' \<Longrightarrow> co_db co0 = co_db co \<Longrightarrow> handles i co0 co'"
  by (simp add: handles_def)

lemma handles_trans: "handles i co co1 \<Longrightarrow> handles i co1 co2 \<Longrightarrow> handles i co co2"
  by (auto simp: handles_def intro: refines_trans audited_trans)

lemma handles_wf: "wf_db (co_db co) \<Longrightarrow> handles i co co' \<Longrightarrow> wf_db (co_db co')"
  using refines_wf by (auto simp: handles_def)

lemma refines_progress:
  assumes "wf_tables db'" and "attempt_row db a = Some r" and "attempt_next (a_state r) s"
    and "abs_queue db' = set_job (a_job r) (job_phase s) (set_attempt a (a_job r) s (abs_queue db))"
  shows "refines db db'"
proof (rule refines_step [OF assms(1)])
  have "q_step (abs_queue db) (set_attempt a (a_job r) s (set_job (a_job r) (job_phase s) (abs_queue db)))"
    using assms(2,3) by (intro q_step.progress [of _ a "a_job r" "a_state r"]) simp_all
  moreover have "abs_queue db' = set_attempt a (a_job r) s (set_job (a_job r) (job_phase s) (abs_queue db))"
    unfolding assms(4) by (rule queue.equality) (simp_all add: q_updates)
  ultimately show "q_step (abs_queue db) (abs_queue db')" by simp
qed

lemma finalize_handles:
  assumes "wf_db (co_db co)" "current (co_db co) a" "ended_state state"
  shows "handles (a_id a) co (snd (finalize_attempt_and_job w a state ec ts message actor co))"
  using finalize_tx_ok [OF assms, of "w_now w" ec ts message actor]
  by (auto simp: finalize_attempt_and_job_def handles_def attempt_ended_def)

lemma result_state_ended: "ended_state (fst (result_state result))"
  by (auto simp: result_state_def ended_state_def Let_def split: result_outcome.splits option.splits)

lemma finalize_from_result_handles:
  assumes "wf_db (co_db co)" "current (co_db co) a"
  shows "handles (a_id a) co (snd (finalize_from_result w a result co))"
  using finalize_handles [OF assms result_state_ended [of result]]
  by (cases "result_state result") (simp add: finalize_from_result_def)

lemma current_job_state:
  assumes "wf_db db" "current db a"
  shows "job_state_of db (a_job a) = Some (job_phase (a_state a))"
  using current_job [OF assms] by (metis job_row_state)

lemma quarantine_handles:
  assumes wf: "wf_db (co_db co)" and cur: "current (co_db co) a"
  shows "handles (a_id a) co (snd (quarantine w a reason co))"
proof (cases "a_state a = A_Quarantined")
  case True
  then show ?thesis using handles_same [OF wf] by (simp add: quarantine_def)
next
  case False
  from cur obtain r where r: "attempt_row (co_db co) (a_id a) = Some r" "a_job r = a_job a" "a_state r = a_state a"
    "attempt_live (a_state a)" by (auto simp: current_def)
  have "refines (co_db co) (quarantine_tx (w_now w) a reason (co_db co))"
    using r False wf_db_tables [OF wf] current_job_state [OF wf cur]
    by (intro refines_progress [OF _ r(1), where s = A_Quarantined])
      (simp_all add: quarantine_tx_def wf_append_event wf_job_updates wf_attempt_updates abs_simps
        attempt_next.quarantined)
  then show ?thesis
    using False
    by (auto simp: quarantine_def handles_def quarantine_tx_def intro!: audit_intros)
qed

lemma try_launch_db:
  "co_db (snd (try_launch w i co)) = co_db co \<or>
     (\<exists>ji ai. co_db (snd (try_launch w i co)) =
        append_event (w_now w) ji ai ''runner_spawned'' ''daemon'' None (co_db co))"
  by (auto simp: try_launch_def Let_def split: option.splits prod.splits)

lemma launch_handles:
  assumes wf: "wf_db (co_db co)"
  shows "handles i co (launch w i co)"
proof -
  let ?co0 = "co\<lparr>co_spawned := (co_spawned co)(i \<mapsto> w_instant w)\<rparr>"
  obtain err co1 where started: "try_launch w i ?co0 = (err, co1)" by fastforce
  have h1: "handles i co co1"
    using try_launch_db [of w i ?co0] started refines_refl [OF wf_db_tables [OF wf]]
    by (auto simp: handles_def intro!: refines_event audit_intros)
  then have wf1: "wf_db (co_db co1)" using handles_wf wf by blast
  have "handles i co1 (launch w i co)"
  proof (cases "err = None \<or> attempt_row (co_db co1) i = None")
    case True
    then show ?thesis
      using started handles_same [OF wf1] by (auto simp: launch_def split: option.splits)
  next
    case False
    then obtain e a where a: "err = Some e" "attempt_row (co_db co1) i = Some a" by auto
    then have id: "a_id a = i" using attempt_table.lookup_Some by blast
    show ?thesis
    proof (cases "attempt_state_is_terminal (a_state a)")
      case True
      then show ?thesis using started a handles_same [OF wf1] by (simp add: launch_def)
    next
      case False
      then have "current (co_db co1) a" using a id by (simp add: current_def attempt_live_iff)
      then show ?thesis
        using started a False finalize_handles [OF wf1, of a A_Failed] id
        by (simp add: launch_def ended_state_def)
    qed
  qed
  with h1 show ?thesis by (rule handles_trans)
qed

lemma authorize_handles:
  assumes wf: "wf_db (co_db co)" and cur: "current (co_db co) a" and st: "a_state a = A_Prepared"
  shows "handles (a_id a) co (snd (authorize w a idf co))"
proof -
  from cur obtain r where r: "attempt_row (co_db co) (a_id a) = Some r" "a_job r = a_job a" "a_state r = a_state a"
    by (auto simp: current_def)
  obtain job where job: "job_row (co_db co) (a_job a) = Some job" "j_state job = J_Starting"
    using current_job [OF wf cur] st by (metis job_phase.simps(1))
  let ?db1 = "set_attempt_runner_identity (a_id a) (if_runner_pid idf) (if_runner_start_time idf) (if_boot_id idf) (co_db co)"
  have "attempt_row ?db1 (a_id a) \<noteq> None"
    using r(1) by (simp add: set_attempt_runner_identity_def attempt_table.lookup_update)
  then obtain r1 where r1: "attempt_row ?db1 (a_id a) = Some r1" "a_job r1 = a_job a"
    using r by (auto simp: set_attempt_runner_identity_def attempt_table.lookup_update)
  have "abs_queue (set_attempt_authorized (a_id a) (w_now w) ?db1) =
      set_job (a_job a) J_Starting (set_attempt (a_id a) (a_job a) A_Authorized (abs_queue (co_db co)))"
    using r1 job
    by (intro queue.equality) (auto simp: abs_simps q_updates job_state_of_def)
  then have "refines (co_db co) (set_attempt_authorized (a_id a) (w_now w) ?db1)"
    using r st wf_db_tables [OF wf]
    by (intro refines_progress [OF _ r(1), where s = A_Authorized])
      (simp_all add: wf_attempt_updates attempt_next.authorized)
  then show ?thesis
    using job
    by (auto simp: authorize_def handles_def refines_event intro!: audit_intros)
qed

lemma reconcile_prepared_handles:
  assumes wf: "wf_db (co_db co)" and cur: "current (co_db co) a" and st: "a_state a = A_Prepared"
  shows "handles (a_id a) co (snd (reconcile_prepared w a co))"
  using handles_same [OF wf refl] launch_handles [OF wf] quarantine_handles [OF wf cur]
    finalize_handles [OF wf cur, of A_Failed] authorize_handles [OF wf cur st]
  by (simp add: reconcile_prepared_def ended_state_def split: option.split artifact.split)

lemma reconcile_authorized_handles:
  assumes wf: "wf_db (co_db co)" and cur: "current (co_db co) a" and st: "a_state a = A_Authorized"
  shows "handles (a_id a) co (snd (reconcile_authorized w a co))"
proof -
  from cur obtain r where r: "attempt_row (co_db co) (a_id a) = Some r" "a_job r = a_job a" "a_state r = a_state a"
    by (auto simp: current_def)
  have "job_state_of (co_db co) (a_job a) \<noteq> None" using current_job_state [OF wf cur] by simp
  then have run: "handles (a_id a) co (set_db (append_event now ji ai ty ac de
      (update_job_state (a_job a) J_Running None now (set_attempt_running (a_id a) p g s c now (co_db co)))) co')"
    for now ji ai ty ac de p g s c co'
    using r st wf_db_tables [OF wf]
    by (simp add: handles_def, intro conjI refines_event refines_progress [OF _ r(1), where s = A_Running]
        audit_intros)
      (simp_all add: wf_attempt_updates wf_job_updates abs_simps attempt_next.running)
  define co1 where "co1 = (if ad_start (co_dirs co (a_id a)) \<noteq> Absent then co
    else update_dir (a_id a) (write_start w (a_id a) (a_launch_token a)) co)"
  have co1: "co_db co1 = co_db co" by (simp add: co1_def)
  have quar: "handles (a_id a) co (snd (quarantine w a reason co1))" for reason
    using quarantine_handles [of co1 a w reason] wf cur co1 by (simp add: handles_def)
  show ?thesis
    using finalize_handles [OF wf cur, of A_Failed] run [of _ _ _ _ _ _ _ _ _ _ co1] quar handles_same [OF wf co1] co1
    unfolding reconcile_authorized_def Let_def co1_def [symmetric]
    by (simp add: ended_state_def split: option.split artifact.split)
qed

lemma reconcile_running_handles:
  assumes wf: "wf_db (co_db co)" and cur: "current (co_db co) a" and st: "a_state a = A_Running"
  shows "handles (a_id a) co (snd (reconcile_running w a co))"
proof -
  from cur obtain r where r: "attempt_row (co_db co) (a_id a) = Some r" "a_job r = a_job a" "a_state r = a_state a"
    by (auto simp: current_def)
  have "refines (co_db co) (orphan_tx (w_now w) a (co_db co))"
    using r st wf_db_tables [OF wf] current_job_state [OF wf cur]
    by (intro refines_progress [OF _ r(1), where s = A_Orphaned])
      (simp_all add: orphan_tx_def wf_append_event wf_job_updates wf_attempt_updates abs_simps
        attempt_next.orphaned)
  then show ?thesis
    using handles_same [OF wf refl]
    by (auto simp: reconcile_running_def handles_def orphan_tx_def intro!: audit_intros)
qed

lemma terminate_orphan_db:
  "co_db (terminate_orphan w a job pgid committed co) = co_db co \<or>
     (\<exists>d. co_db (terminate_orphan w a job pgid committed co) = set_attempt_timed_out (a_id a) d (co_db co))"
  by (auto simp: terminate_orphan_def Let_def split: option.split bool.split)

lemma reconcile_orphaned_handles:
  assumes wf: "wf_db (co_db co)" and cur: "current (co_db co) a"
  shows "handles (a_id a) co (snd (reconcile_orphaned w a co))"
proof -
  have signal: "handles (a_id a) co (terminate_orphan w a job pgid committed co)" for job pgid committed
    using terminate_orphan_db [of w a job pgid committed co] wf_db_tables [OF wf]
    by (auto simp: handles_def refines_refl wf_attempt_updates abs_simps intro!: refines_same audit_intros)
  have drained: "handles (a_id a) co (snd (case drained_outcome a b of (state, message) \<Rightarrow>
      finalize_attempt_and_job w a state None None (Some message) ''daemon'' co))" for b
    using finalize_handles [OF wf cur]
    by (auto simp: drained_outcome_def ended_state_def)
  show ?thesis
    using signal drained quarantine_handles [OF wf cur] handles_same [OF wf refl]
    unfolding reconcile_orphaned_def Let_def
    by (simp split: option.split artifact.split)
qed

section \<open>The cycle\<close>

lemma reconcile_attempt_handles:
  assumes wf: "wf_db (co_db co)" and cur: "current (co_db co) a"
  shows "handles (a_id a) co (snd (reconcile_attempt w a co))"
proof -
  define co1 where "co1 = (let co = republish_yield w a (republish_cancel w a co) in
    if a_state a = A_Prepared \<or> a_state a = A_Authorized \<or> a_state a = A_Running
    then republish_time_limit w a co else co)"
  have co1: "co_db co1 = co_db co" by (simp add: co1_def Let_def)
  then have wf1: "wf_db (co_db co1)" and cur1: "current (co_db co1) a" using wf cur by simp_all
  have "handles (a_id a) co1 (snd (reconcile_state w a co1))"
    using reconcile_prepared_handles [OF wf1 cur1] reconcile_authorized_handles [OF wf1 cur1]
      reconcile_running_handles [OF wf1 cur1] reconcile_orphaned_handles [OF wf1 cur1]
      handles_same [OF wf1 refl]
    by (simp add: reconcile_state_def split: attempt_state.split)
  then have "handles (a_id a) co (snd (reconcile_state w a co1))"
    using co1 by (simp add: handles_def)
  then show ?thesis
    using finalize_from_result_handles [OF wf cur] quarantine_handles [OF wf cur]
    unfolding reconcile_attempt_def Let_def co1_def [unfolded Let_def, symmetric]
    by (simp split: artifact.split)
qed

lemma observe_yield_delivery_ok:
  assumes wf: "wf_db (co_db co)" and cur: "current (co_db co) a"
    and o: "observe_yield_delivery a co = (a', co')"
  shows "handles (a_id a) co co'" and "current (co_db co') a'" and "a_id a' = a_id a"
proof -
  from cur obtain r where r: "attempt_row (co_db co) (a_id a) = Some r" "a_job r = a_job a"
    "a_state r = a_state a" "attempt_live (a_state a)"
    by (auto simp: current_def)
  let ?db' = "\<lambda>at. set_attempt_yield_delivered (a_id a) at (co_db co)"
  have "refines (co_db co) (?db' at)" for at
    using wf_db_tables [OF wf] by (intro refines_same) (simp_all add: wf_attempt_updates abs_simps)
  moreover have "attempt_row (?db' at) (a_id a) = Some (r\<lparr>a_yield_delivered_at :=
      coalesce (a_yield_delivered_at r) (Some at)\<rparr>)" for at
    using r by (simp add: set_attempt_yield_delivered_def attempt_table.lookup_update)
  ultimately show "handles (a_id a) co co'" "current (co_db co') a'" "a_id a' = a_id a"
    using o r cur handles_same [OF wf refl]
    by (auto simp: observe_yield_delivery_def current_def handles_def split: if_splits artifact.splits
        intro!: audit_intros)
qed

lemma reconcile_one_handles:
  assumes wf: "wf_db (co_db co)" and cur: "current (co_db co) a"
  shows "handles (a_id a) co (reconcile_one w a co)"
proof -
  obtain a' co' where o: "observe_yield_delivery a co = (a', co')" by fastforce
  note obs = observe_yield_delivery_ok [OF wf cur o]
  have "handles (a_id a) co' (snd (reconcile_attempt w a' co'))"
    using reconcile_attempt_handles [OF handles_wf [OF wf obs(1)] obs(2)] obs(3) by simp
  then show ?thesis
    using obs(1) o by (simp add: reconcile_one_def handles_trans)
qed

lemma reconcile_rows_refines:
  assumes "wf_db (co_db co)" "distinct (map a_id rows)" "\<And>a. a \<in> set rows \<Longrightarrow> current (co_db co) a"
  shows "refines (co_db co) (co_db (fold (reconcile_one w) rows co)) \<and>
    audited (co_db co) (co_db (fold (reconcile_one w) rows co))"
  using assms
proof (induction rows arbitrary: co)
  case Nil
  then show ?case by (simp add: refines_refl wf_db_tables audited_refl)
next
  case (Cons a rows)
  let ?co1 = "reconcile_one w a co"
  have h: "handles (a_id a) co ?co1"
    using Cons.prems by (intro reconcile_one_handles) simp_all
  have cur1: "current (co_db ?co1) b" if "b \<in> set rows" for b
  proof -
    have "a_id b \<noteq> a_id a" using Cons.prems(2) imageI [OF that, of a_id] by auto
    then show ?thesis
      using h Cons.prems(3) [of b] that by (simp add: handles_def current_def)
  qed
  have "refines (co_db ?co1) (co_db (fold (reconcile_one w) rows ?co1)) \<and>
      audited (co_db ?co1) (co_db (fold (reconcile_one w) rows ?co1))"
    using Cons.prems(2) cur1 by (intro Cons.IH handles_wf [OF Cons.prems(1) h]) simp_all
  then show ?case using h by (auto simp: handles_def intro: refines_trans audited_trans)
qed

lemma non_terminal_current:
  assumes "wf_tables db" "a \<in> set (non_terminal_attempts db)"
  shows "current db a"
  using assms attempt_row_mem by (auto simp: non_terminal_attempts_def current_def)

lemma reconcile_all_refines:
  assumes wf: "wf_db (co_db co)"
  shows "refines (co_db co) (co_db (reconcile_all w co)) \<and>
    audited (co_db co) (co_db (reconcile_all w co))"
proof -
  let ?rows = "non_terminal_attempts (co_db co)"
  have "distinct (map a_id ?rows)"
    using wf_tables_distinct(2) [OF wf_db_tables [OF wf]]
    by (simp add: non_terminal_attempts_def distinct_map_filter)
  then show ?thesis
    using reconcile_rows_refines [of "prune ?rows co" ?rows w] wf
      non_terminal_current [OF wf_db_tables [OF wf]]
    by (simp add: reconcile_all_def Let_def)
qed

end
