(* ===== verification/Coordinator_Proofs.thy ===== *)
theory Coordinator_Proofs
  imports Coordinator Reconcile_Proofs
begin

text \<open>
  The coordinator as a whole: every message it handles keeps the invariant of the database and
  is a sequence of steps of the abstract queue, whatever the surroundings answer; a mutation is
  recorded with its reply and replayed from the record.
\<close>

section \<open>The cycle\<close>

text \<open>A part of the daemon that refines the queue and keeps the audit trail.\<close>

definition safe_step :: "database \<Rightarrow> database \<Rightarrow> bool" where
  "safe_step db db' \<longleftrightarrow> refines db db' \<and> audited db db'"

lemma safe_step_refl: "wf_db db \<Longrightarrow> safe_step db db"
  by (simp add: safe_step_def refines_refl wf_db_tables audited_refl)

lemma safe_step_trans: "safe_step db db1 \<Longrightarrow> safe_step db1 db2 \<Longrightarrow> safe_step db db2"
  by (auto simp: safe_step_def intro: refines_trans audited_trans)

lemma safe_step_wf: "wf_db db \<Longrightarrow> safe_step db db' \<Longrightarrow> wf_db db'"
  using refines_wf by (auto simp: safe_step_def)

lemma launches_safe:
  assumes "wf_db (co_db co)"
  shows "safe_step (co_db co) (co_db (fold (launch w) ids co))"
  using assms
proof (induction ids arbitrary: co)
  case Nil
  then show ?case by (simp add: safe_step_refl)
next
  case (Cons i ids)
  have h: "handles i co (launch w i co)" using Cons.prems by (rule launch_handles)
  then have "safe_step (co_db co) (co_db (launch w i co))" by (simp add: handles_def safe_step_def)
  then show ?case
    using Cons.IH [OF handles_wf [OF Cons.prems h]] by (auto intro: safe_step_trans)
qed

lemma run_schedule_safe:
  assumes wf: "wf_db (co_db co)"
  shows "safe_step (co_db co) (co_db (run_schedule w co))"
proof -
  obtain blocked launched db where s: "schedule (w_token w) (w_now w) (co_admission_blocked co) (co_db co) =
      (blocked, Inr (launched, db))" and r: "safe_step (co_db co) db"
    using schedule_ok [OF wf] unfolding safe_step_def by blast
  let ?co1 = "set_db db (co\<lparr>co_admission_blocked := blocked\<rparr>)"
  have "safe_step db (co_db (fold (launch w) launched ?co1))"
    using launches_safe [of ?co1 w launched] safe_step_wf [OF wf r] by simp
  then show ?thesis
    using r s by (auto simp: run_schedule_def intro: safe_step_trans)
qed

lemma tick_safe:
  assumes wf: "wf_db (co_db co)"
  shows "safe_step (co_db co) (co_db (tick w co))"
proof -
  let ?co1 = "advance_cycle w (reconcile_all w co)"
  have r: "safe_step (co_db co) (co_db ?co1)"
    using reconcile_all_refines [OF wf]
    by (simp add: advance_cycle_def safe_step_def refines_advance audited_advance)
  then show ?thesis
    using run_schedule_safe [OF safe_step_wf [OF wf r]] by (auto simp: tick_def intro: safe_step_trans)
qed

section \<open>Requests\<close>

lemma co_db_performs [simp]: "co_db (fold (perform w) acts co) = co_db co"
  by (induction acts arbitrary: co) simp_all

text \<open>
  A mutation also records itself: \<open>records\<close> says that the operations grow at the end, by keys
  that were not there, and that the event log grows too.
\<close>

definition records :: "database \<Rightarrow> database \<Rightarrow> bool" where
  "records db db' \<longleftrightarrow>
     (\<exists>ops. operations db' = operations db @ ops \<and> (\<forall>r\<in>set ops. lookup_operation db (o_key r) = None)) \<and>
     logged db db'"

lemma records_lookup:
  assumes "records db db'" "lookup_operation db key = Some x"
  shows "lookup_operation db' key = Some x"
  using assms by (auto simp: records_def lookup_operation_def find_append)

lemma records_refl: "records db db" by (simp add: records_def logged_def)

lemma audited_records: "audited db db' \<Longrightarrow> records db db'"
  by (simp add: records_def audited_def)

lemma records_trans:
  assumes "records db db1" "records db1 db2"
  shows "records db db2"
proof -
  from assms obtain ops ops' where o: "operations db1 = operations db @ ops"
      "\<forall>r\<in>set ops. lookup_operation db (o_key r) = None"
      "operations db2 = operations db1 @ ops'" "\<forall>r\<in>set ops'. lookup_operation db1 (o_key r) = None"
    by (auto simp: records_def)
  have "lookup_operation db (o_key r) = None" if "r \<in> set ops'" for r
    using o(4) that records_lookup [OF assms(1), of "o_key r"] by (cases "lookup_operation db (o_key r)") auto
  then show ?thesis using o assms by (auto simp: records_def intro: logged_trans)
qed

lemma mutation_tx_ok:
  assumes wf: "wf_db db" and ok: "mutation_tx svc w p o' key db = Inr ((reply, actions), db')"
  shows "refines db db'" and "records db db'"
    and "\<exists>encoded. svc_encode svc reply = Inr encoded \<and>
      lookup_operation db' key = Some (request_hash (svc_digest svc) o', encoded)"
proof -
  let ?ctx = "case o' of Submit params \<Rightarrow> svc_discover svc (sp_cwd params) | _ \<Rightarrow> None"
  from ok obtain db1 encoded where m: "apply_mutation p (w_proc w) o' (w_now w) ?ctx db = Inr ((reply, actions), db1)"
    and e: "svc_encode svc reply = Inr encoded"
    and ins: "insert_operation key (op_kind o') (request_hash (svc_digest svc) o') encoded (w_now w) db1 = Inr db'"
    by (auto simp: mutation_tx_def Let_def bindE_eq_Inr internal_eq_Inr)
  have "refines db db1" using apply_mutation_refines [OF wf m] .
  then show "refines db db'" using insert_operation_frame [OF ins] by (simp add: refines_def)
  have "operations db1 = operations db" "logged db db1"
    using audited_apply_mutation [OF m] by (simp_all add: audited_def)
  then show "records db db'"
    using ins by (auto simp: insert_operation_def result_eqs records_def lookup_operation_def logged_def)
  show "\<exists>encoded. svc_encode svc reply = Inr encoded \<and>
      lookup_operation db' key = Some (request_hash (svc_digest svc) o', encoded)"
    using e ins
    by (auto simp: insert_operation_def result_eqs lookup_operation_def find_append split: option.splits)
qed

text \<open>The three ways a mutation request ends.\<close>

lemma handle_mutation_cases:
  obtains (replayed) stored where "lookup_operation (co_db co) key = Some stored"
      "handle_mutation svc w o' key co = (replay_operation svc o' key stored, co)"
  | (refused) e where "lookup_operation (co_db co) key = None"
      "handle_mutation svc w o' key co = (Inl e, co)"
  | (applied) reply actions db where "lookup_operation (co_db co) key = None"
      "check_mutation svc (co_config co) o' = Inr ()"
      "mutation_tx svc w (co_paths co) o' key (co_db co) = Inr ((reply, actions), db)"
      "handle_mutation svc w o' key co = (Inr reply, tick w (fold (perform w) actions (set_db db co)))"
proof (cases "lookup_operation (co_db co) key")
  case (Some stored)
  then show ?thesis by (intro replayed) (simp_all add: handle_mutation_def)
next
  case None
  show ?thesis
  proof (cases "bindE (check_mutation svc (co_config co) o') (\<lambda>_. mutation_tx svc w (co_paths co) o' key (co_db co))")
    case (Inl e)
    then show ?thesis using None by (intro refused) (simp_all add: handle_mutation_def)
  next
    case (Inr x)
    then obtain reply actions db where "x = ((reply, actions), db)"
      "check_mutation svc (co_config co) o' = Inr ()"
      "mutation_tx svc w (co_paths co) o' key (co_db co) = Inr ((reply, actions), db)"
      by (cases x) (auto simp: bindE_eq_Inr)
    then show ?thesis using None Inr by (intro applied) (simp_all add: handle_mutation_def)
  qed
qed

lemma handle_mutation_safe:
  assumes wf: "wf_db (co_db co)" and h: "handle_mutation svc w o' key co = (r, co')"
  shows "refines (co_db co) (co_db co')" and "records (co_db co) (co_db co')"
proof -
  have "refines (co_db co) (co_db co') \<and> records (co_db co) (co_db co')"
  proof (rule handle_mutation_cases [of co key svc w o'])
    fix reply actions db
    assume tx: "mutation_tx svc w (co_paths co) o' key (co_db co) = Inr ((reply, actions), db)"
      and res: "handle_mutation svc w o' key co = (Inr reply, tick w (fold (perform w) actions (set_db db co)))"
    note ok = mutation_tx_ok [OF wf tx]
    have "safe_step db (co_db co')"
      using tick_safe [of "fold (perform w) actions (set_db db co)" w] refines_wf [OF wf ok(1)] h res by simp
    then show ?thesis
      using ok(1,2) by (auto simp: safe_step_def intro: refines_trans records_trans audited_records)
  qed (use h in \<open>auto simp: refines_refl wf_db_tables [OF wf] records_refl\<close>)
  then show "refines (co_db co) (co_db co')" "records (co_db co) (co_db co')" by simp_all
qed

lemma handle_request_safe:
  assumes wf: "wf_db (co_db co)" and h: "handle_request svc w rq co = (r, co')"
  shows "refines (co_db co) (co_db co') \<and> records (co_db co) (co_db co')"
  using h handle_mutation_safe [OF wf] refines_refl [OF wf_db_tables [OF wf]] records_refl
  by (auto simp: handle_request_def Let_def split: prod.splits if_splits option.splits)

lemma co_db_publish [simp]: "co_db (publish_revision co) = co_db co"
  by (simp add: publish_revision_def Let_def)

lemma run_loop_safe:
  assumes "wf_db (co_db co)"
  shows "refines (co_db co) (co_db (snd (run_loop svc ms co))) \<and>
    records (co_db co) (co_db (snd (run_loop svc ms co)))"
  using assms
proof (induction svc ms co rule: run_loop.induct)
  case (2 svc rq w ms co)
  obtain resp co1 where h: "handle_request svc w rq co = (resp, co1)" by fastforce
  have r: "refines (co_db co) (co_db co1)" "records (co_db co) (co_db co1)"
    using handle_request_safe [OF "2.prems" h] by simp_all
  then show ?case
    using "2.IH" [OF h [symmetric] refl] refines_wf [OF "2.prems" r(1)] h
    by (auto split: prod.splits intro: refines_trans records_trans)
next
  case (3 svc w ms co)
  have r: "safe_step (co_db co) (co_db (tick w co))" using tick_safe [OF "3.prems"] .
  then show ?case
    using "3.IH" safe_step_wf [OF "3.prems" r]
    by (auto simp: safe_step_def intro: refines_trans records_trans audited_records)
qed (simp_all add: refines_refl wf_db_tables records_refl)

section \<open>Startup\<close>

lemma context_update_safe:
  fixes d P c
  defines "d' \<equiv> d\<lparr>jobs := update_where P (\<lambda>j. j\<lparr>j_context := c\<rparr>) (jobs d)\<rparr>"
  assumes wf: "wf_tables d"
  shows "wf_tables d'" and "abs_queue d' = abs_queue d" and "audited d d'"
proof -
  let ?f = "\<lambda>j. if P j then j\<lparr>j_context := c\<rparr> else j"
  have jobs: "jobs d' = map ?f (jobs d)" by (simp add: d'_def update_where_def)
  have row: "job_row d' i = map_option ?f (job_row d i)" for i
    unfolding job_row_def jobs by (rule find_map_key) simp
  have id: "map j_id (jobs d') = map j_id (jobs d)" by (simp add: d'_def map_update_where)
  have mem: "\<exists>k\<in>set (jobs d). j_id j = j_id k \<and> wf_job_row j = wf_job_row k \<and> j_attempt_count j = j_attempt_count k"
    if "j \<in> set (jobs d')" for j
    using that unfolding jobs by (auto simp: wf_job_row_def split: if_splits)
  have "wf_jobs d'"
    using wf mem unfolding wf_jobs_def id wf_tables_def by (force simp: d'_def)
  moreover have "wf_attempts d'"
    using wf mem unfolding wf_attempts_def wf_tables_def by (force simp: d'_def)
  ultimately show "wf_tables d'"
    using wf by (simp add: wf_tables_def d'_def wf_table_defs)
  have "job_state_of d' i = job_state_of d i" "Option.bind (job_row d' i) j_ready_seq = Option.bind (job_row d i) j_ready_seq" for i
    by (cases "job_row d i"; simp add: job_state_of_def row)+
  then show "abs_queue d' = abs_queue d"
    by (simp add: abs_queue_def fun_eq_iff)
      (simp add: d'_def edge_row_def attempt_row_def open_attempts_def protected_job_def)
  show "audited d d'" by (rule audited_frame [OF audited_refl]) (simp_all add: d'_def)
qed

lemma backfill_safe:
  assumes wf: "wf_db db"
  shows "safe_step db (backfill_job_context discover db)"
proof -
  let ?step = "\<lambda>cwd db. db\<lparr>jobs := update_where (\<lambda>j. j_cwd j = cwd \<and> j_context j = None)
                          (\<lambda>j. j\<lparr>j_context := Some (discover cwd)\<rparr>) (jobs db)\<rparr>"
  have "wf_tables (fold ?step cwds d) \<and> abs_queue (fold ?step cwds d) = abs_queue d \<and> audited d (fold ?step cwds d)"
    if "wf_tables d" for cwds d
    using that
  proof (induction cwds arbitrary: d)
    case (Cons cwd cwds)
    note c = context_update_safe [OF Cons.prems, of "\<lambda>j. j_cwd j = cwd \<and> j_context j = None" "Some (discover cwd)"]
    then show ?case using Cons.IH [OF c(1)] audited_trans [OF c(3)] by simp
  qed (simp add: audited_refl)
  then show ?thesis
    using wf_db_tables [OF wf] by (simp add: backfill_job_context_def safe_step_def refines_same)
qed

lemma new_coordinator_safe:
  assumes "new_coordinator svc w cfg p dirs db = Inr co" "wf_db db"
  shows "safe_step db (co_db co)"
  using assms backfill_safe by (auto simp: new_coordinator_def bindE_eq_Inr Let_def)

text \<open>The daemon from its start on a database to the end of its message loop.\<close>

lemma daemon_safe:
  assumes "new_coordinator svc w cfg p dirs db = Inr co" "wf_db db" "run svc w ms co = (resps, co')"
  shows "refines db (co_db co') \<and> records db (co_db co')"
proof -
  have s0: "safe_step db (co_db co)" using new_coordinator_safe [OF assms(1,2)] .
  have s1: "safe_step (co_db co) (co_db (tick w co))"
    using tick_safe [OF safe_step_wf [OF assms(2) s0]] .
  have s: "safe_step db (co_db (publish_revision (tick w co)))"
    using safe_step_trans [OF s0 s1] by simp
  have "refines (co_db (publish_revision (tick w co))) (co_db co') \<and>
      records (co_db (publish_revision (tick w co))) (co_db co')"
    using run_loop_safe [OF safe_step_wf [OF assms(2) s], of svc ms] assms(3) by (simp add: run_def)
  then show ?thesis
    using s unfolding safe_step_def
    by (meson audited_records records_trans refines_trans)
qed

end
