(* ===== verification/Daemon_Examples.thy ===== *)
theory Daemon_Examples
  imports Examples Coordinator_Proofs
begin

text \<open>
  Surroundings on which the witnesses of the daemon's properties evaluate: a machine whose
  process table is empty and whose file system never fails, stand-ins for the digest and the
  codec, and a coordinator over the sample database.
\<close>

definition sample_world :: world where
  "sample_world = \<lparr>w_now = 100, w_instant = 50,
     w_proc = \<lparr>pv_boot_id = Some ''boot'', pv_stat = (\<lambda>_. None), pv_entries = Some []\<rparr>,
     w_write_fault = (\<lambda>_ _. None), w_mkdir_error = (\<lambda>_. None), w_spawn_error = (\<lambda>_. None),
     w_token = (\<lambda>_. ''token'')\<rparr>"

text \<open>A codec that distinguishes the two replies about pausing.\<close>

fun sample_encode :: "reply \<Rightarrow> string + string" where
  "sample_encode (R_Paused b) = Inr (if b then ''paused'' else ''running'')"
| "sample_encode _ = Inr ''other''"

definition sample_decode :: "string \<Rightarrow> string + reply" where
  "sample_decode s =
     (if s = ''paused'' then Inr (R_Paused True) else if s = ''running'' then Inr (R_Paused False)
      else Inl ''no such reply'')"

definition sample_services :: services where
  "sample_services = \<lparr>svc_digest = op_kind, svc_legacy_digest = (\<lambda>_. ''legacy''),
     svc_encode = sample_encode, svc_decode = sample_decode, svc_discover = (\<lambda>_. None),
     svc_fs = \<lparr>fs_is_dir = (\<lambda>_. True), fs_is_file = (\<lambda>_. True)\<rparr>, svc_pid = 1, svc_version = ''0''\<rparr>"

definition sample_paths :: paths where
  "sample_paths = \<lparr>p_runtime_dir = ''/r'', p_state_dir = ''/s'', p_config_file = ''/c''\<rparr>"

definition sample_coordinator :: coordinator where
  "sample_coordinator = \<lparr>co_db = sample_db, co_config = default_config, co_paths = sample_paths,
     co_started_at = 0, co_admission_blocked = None, co_spawned = (\<lambda>_. None), co_orphan_term_sent = {},
     co_revisions = [0], co_published_revision = 0, co_published_admission_blocked = False,
     co_dirs = (\<lambda>_. empty_dir), co_signals = [], co_runners = []\<rparr>"

definition sample_request :: "string \<Rightarrow> op \<Rightarrow> request" where
  "sample_request i o' = \<lparr>rq_protocol_version = PROTOCOL_VERSION, rq_request_id = i,
     rq_idempotency_key = Some ''key'', rq_op = o'\<rparr>"

lemmas sample_daemon_defs = sample_coordinator_def sample_services_def sample_world_def
  sample_paths_def sample_request_def

lemma sample_coordinator_db [simp]: "co_db sample_coordinator = sample_db"
  by (simp add: sample_coordinator_def)

text \<open>
  The same queue with its attempt in another state, and a machine on which the runner
  (process 100) and the command (process 101) of that attempt live.
\<close>

definition staged_coordinator :: "attempt_state \<Rightarrow> coordinator" where
  "staged_coordinator s = sample_coordinator\<lparr>co_db := staged_db s, co_spawned := [1 \<mapsto> 0],
     co_dirs := (\<lambda>_. empty_dir\<lparr>ad_exists := True, ad_identity := Present
       \<lparr>if_token = ''t1'', if_runner_pid = 100, if_runner_start_time = 7, if_boot_id = ''boot''\<rparr>\<rparr>)\<rparr>"

definition live_world :: world where
  "live_world = sample_world\<lparr>w_now := 100000, w_proc :=
     \<lparr>pv_boot_id = Some ''boot'',
      pv_stat = (\<lambda>pid. if pid = 100 then Some ''100 (mlqd) S 1 100 0 0 0 0 0 0 0 0 0 0 0 0 0 0 0 0 7''
        else if pid = 101 then Some ''101 (a) b) S 100 101 0 0 0 0 0 0 0 0 0 0 0 0 0 0 0 0 8'' else None),
      pv_entries = Some [''self'', ''100'', ''101'']\<rparr>\<rparr>"

lemma staged_coordinator_sel [simp]:
  "co_db (staged_coordinator s) = staged_db s" "co_signals (staged_coordinator s) = []"
  "co_orphan_term_sent (staged_coordinator s) = {}" "co_config (staged_coordinator s) = default_config"
  "co_spawned (staged_coordinator s) = [1 \<mapsto> 0]"
  "ad_result (co_dirs (staged_coordinator s) i) = Absent" "ad_timeout (co_dirs (staged_coordinator s) i) = Absent"
  "ad_start (co_dirs (staged_coordinator s) i) = Absent" "ad_exists (co_dirs (staged_coordinator s) i)"
  "ad_identity (co_dirs (staged_coordinator s) i) = Present
     \<lparr>if_token = ''t1'', if_runner_pid = 100, if_runner_start_time = 7, if_boot_id = ''boot''\<rparr>"
  by (simp_all add: staged_coordinator_def sample_coordinator_def empty_dir_def)

lemma staged_attempt_sel [simp]:
  "a_id (staged_attempt s) = 1" "a_job (staged_attempt s) = 1" "a_state (staged_attempt s) = s"
  "a_launch_token (staged_attempt s) = ''t1''"
  "a_cmd_pgid (staged_attempt s) = Some 101" "a_runner_boot_id (staged_attempt s) = Some ''boot''"
  "a_cmd_start_time (staged_attempt s) = Some 8" "a_timed_out_at (staged_attempt s) = None"
  "a_cancel_requested (staged_attempt s) = (s = A_Orphaned)"
  "a_cancel_force (staged_attempt s) = (s = A_Orphaned)"
  "a_cancel_requested_at (staged_attempt s) = (if s = A_Orphaned then Some 0 else None)"
  by (simp_all add: staged_attempt_def)

lemma current_staged: "attempt_live s \<Longrightarrow> current (staged_db s) (staged_attempt s)"
  by (simp add: current_def staged_db_rows)

lemma live_world_processes:
  "identity_alive (w_proc live_world) 100 7 ''boot''"
  "group_possibly_alive (w_proc live_world) 101 ''boot'' (Some 8)"
  by code_simp+

lemma sample_world_processes: "\<not> group_possibly_alive (w_proc sample_world) pgid boot st"
  by (simp add: group_possibly_alive_def group_empty_def group_members_def sample_world_def List.map_filter_simps)

end
