(* ===== verification/Request_Properties.thy ===== *)
theory Request_Properties
  imports Daemon_Examples
begin

text \<open>
  What a client may rely on: a mutation takes effect once however often it is sent, a failed
  request leaves no trace, and every mutation acts on the queue as the abstract specification
  allows.
\<close>

section \<open>Requests with a key\<close>

lemma handle_keyed:
  assumes "is_mutation (rq_op rq)" "rq_protocol_version rq = PROTOCOL_VERSION"
    "rq_idempotency_key rq = Some key" "key \<noteq> []"
    and "handle_mutation svc w (rq_op rq) key co = (result, co')"
  shows "handle_request svc w rq co =
    (\<lparr>rs_request_id = rq_request_id rq, rs_reply = (case result of Inr r \<Rightarrow> Some r | Inl _ \<Rightarrow> None),
      rs_error = (case result of Inl e \<Rightarrow> Some e | Inr _ \<Rightarrow> None)\<rparr>, co')"
  using assms by (simp add: handle_request_def split: sum.split)

lemma handle_keyed_reply:
  assumes "is_mutation (rq_op rq)" "handle_request svc w rq co = (resp, co')" "rs_reply resp = Some reply"
  obtains key where "rq_protocol_version rq = PROTOCOL_VERSION" "rq_idempotency_key rq = Some key"
    "key \<noteq> []" "handle_mutation svc w (rq_op rq) key co = (Inr reply, co')"
  using assms that
  by (auto simp: handle_request_def Let_def split: if_splits option.splits prod.splits sum.splits)

text \<open>What a later request with the same key meets.\<close>

definition stored_for :: "services \<Rightarrow> op \<Rightarrow> reply \<Rightarrow> string \<times> string \<Rightarrow> bool" where
  "stored_for svc o' reply stored \<longleftrightarrow>
     (fst stored = request_hash (svc_digest svc) o' \<or>
      legacy_v5_request_hash (svc_legacy_digest svc) o' = Some (fst stored)) \<and>
     svc_decode svc (snd stored) = Inr reply"

lemma replay_stored: "replay_operation svc o' key stored = Inr reply \<longleftrightarrow> stored_for svc o' reply stored"
  by (cases stored) (auto simp: replay_operation_def stored_for_def result_eqs split: sum.splits)

lemma mutation_stores:
  assumes wf: "wf_db (co_db co)" and h: "handle_mutation svc w o' key co = (Inr reply, co')"
    and codec: "\<And>enc. svc_encode svc reply = Inr enc \<Longrightarrow> svc_decode svc enc = Inr reply"
  obtains stored where "lookup_operation (co_db co') key = Some stored" "stored_for svc o' reply stored"
proof (rule handle_mutation_cases [of co key svc w o'])
  fix stored assume "lookup_operation (co_db co) key = Some stored"
    "handle_mutation svc w o' key co = (replay_operation svc o' key stored, co)"
  then show thesis using that h replay_stored [of svc o' key stored reply] by auto
next
  fix reply' actions db
  assume tx: "mutation_tx svc w (co_paths co) o' key (co_db co) = Inr ((reply', actions), db)"
    and res: "handle_mutation svc w o' key co = (Inr reply', tick w (fold (perform w) actions (set_db db co)))"
  have eq: "reply' = reply" "co' = tick w (fold (perform w) actions (set_db db co))" using h res by simp_all
  note ok = mutation_tx_ok [OF wf tx]
  obtain enc where enc: "svc_encode svc reply = Inr enc"
    "lookup_operation db key = Some (request_hash (svc_digest svc) o', enc)"
    using ok(3) eq(1) by blast
  have "safe_step db (co_db co')"
    using tick_safe [of "fold (perform w) actions (set_db db co)" w] refines_wf [OF wf ok(1)] eq by simp
  then have "records db (co_db co')" by (simp add: safe_step_def audited_records)
  then show thesis
    using that records_lookup enc codec [OF enc(1)] by (fastforce simp: stored_for_def)
next
  fix e assume "handle_mutation svc w o' key co = (Inl e, co)"
  then show thesis using h by simp
qed

lemma later_lookup:
  assumes "wf_db (co_db co)" "lookup_operation (co_db co) key = Some stored"
    and "run_loop svc ms co = (resps, co')"
  shows "lookup_operation (co_db co') key = Some stored"
  using run_loop_safe [OF assms(1), of svc ms] records_lookup assms(2,3) by (metis snd_conv)

section \<open>Properties\<close>

text \<open>
  C5: a mutation takes effect at most once. When a request with a key has been answered, the
  same operation sent again under that key, after any further messages, is answered with the
  same reply and changes nothing.
\<close>

theorem mutation_idempotent:
  assumes wf: "wf_db (co_db co)" and mut: "is_mutation (rq_op rq)"
    and first: "handle_request svc w rq co = (resp, co1)" and reply: "rs_reply resp = Some reply"
    and codec: "\<And>enc. svc_encode svc reply = Inr enc \<Longrightarrow> svc_decode svc enc = Inr reply"
    and between: "run_loop svc ms co1 = (resps, co2)"
    and again: "rq_op rq' = rq_op rq" "rq_idempotency_key rq' = rq_idempotency_key rq"
      "rq_protocol_version rq' = rq_protocol_version rq"
  shows "handle_request svc w' rq' co2 =
    (\<lparr>rs_request_id = rq_request_id rq', rs_reply = Some reply, rs_error = None\<rparr>, co2)"
proof -
  obtain key where k: "rq_protocol_version rq = PROTOCOL_VERSION" "rq_idempotency_key rq = Some key"
    "key \<noteq> []" "handle_mutation svc w (rq_op rq) key co = (Inr reply, co1)"
    by (rule handle_keyed_reply [OF mut first reply])
  obtain stored where s: "lookup_operation (co_db co1) key = Some stored" "stored_for svc (rq_op rq) reply stored"
    by (rule mutation_stores [OF wf k(4) codec])
  have "wf_db (co_db co1)" using handle_mutation_safe(1) [OF wf k(4)] refines_wf wf by blast
  then have "lookup_operation (co_db co2) key = Some stored" by (rule later_lookup [OF _ s(1) between])
  then have "handle_mutation svc w' (rq_op rq') key co2 = (Inr reply, co2)"
    using s(2) replay_stored again(1) by (simp add: handle_mutation_def)
  then show ?thesis using handle_keyed [of rq' key svc w' co2 "Inr reply" co2] again k mut by simp
qed

lemma sample_pause:
  "rs_reply (fst (handle_request sample_services sample_world (sample_request i Pause) sample_coordinator)) =
     Some (R_Paused True)"
  by (simp add: handle_request_def handle_mutation_def check_mutation_def mutation_tx_def apply_mutation_def
      apply_pause_def set_paused_def insert_operation_def lookup_operation_def sample_daemon_defs sample_defs
      split: prod.splits)

theorem mutation_idempotent_witness:
  "let co1 = snd (handle_request sample_services sample_world (sample_request ''1'' Pause) sample_coordinator);
       co2 = snd (run_loop sample_services [(Tick, sample_world), (Request (sample_request ''2'' Unpause), sample_world)] co1)
   in handle_request sample_services sample_world (sample_request ''3'' Pause) co2 =
        (\<lparr>rs_request_id = ''3'', rs_reply = Some (R_Paused True), rs_error = None\<rparr>, co2)"
  unfolding Let_def
  by (subst mutation_idempotent [OF _ _ surjective_pairing sample_pause _ surjective_pairing])
    (simp_all add: wf_sample_db sample_request_def sample_services_def sample_decode_def)

text \<open>
  A key cannot be reused for another operation: once a mutation was applied under a key,
  a different operation under that key is refused as a conflict at any later time and changes
  nothing, unless the two have the same digest.
\<close>

theorem mutation_key_conflict:
  assumes wf: "wf_db (co_db co)" and mut: "is_mutation (rq_op rq)" "is_mutation (rq_op rq')"
    and key: "rq_idempotency_key rq = Some key" "rq_idempotency_key rq' = Some key"
    and fresh: "lookup_operation (co_db co) key = None"
    and first: "handle_request svc w rq co = (resp, co1)" and reply: "rs_reply resp = Some reply"
    and between: "run_loop svc ms co1 = (resps, co2)"
    and version: "rq_protocol_version rq' = PROTOCOL_VERSION"
    and other: "request_hash (svc_digest svc) (rq_op rq') \<noteq> request_hash (svc_digest svc) (rq_op rq)"
      "legacy_v5_request_hash (svc_legacy_digest svc) (rq_op rq') \<noteq> Some (request_hash (svc_digest svc) (rq_op rq))"
    and again: "handle_request svc w' rq' co2 = (resp', co3)"
  shows "co3 = co2 \<and> rs_reply resp' = None \<and> map_option eb_code (rs_error resp') = Some IDEMPOTENCY_CONFLICT"
proof -
  have k: "key \<noteq> []" and h: "handle_mutation svc w (rq_op rq) key co = (Inr reply, co1)"
    using handle_keyed_reply [OF mut(1) first reply] key(1) by auto
  obtain enc where stored: "lookup_operation (co_db co1) key = Some (request_hash (svc_digest svc) (rq_op rq), enc)"
  proof (rule handle_mutation_cases [of co key svc w "rq_op rq"])
    fix reply' actions db
    assume tx: "mutation_tx svc w (co_paths co) (rq_op rq) key (co_db co) = Inr ((reply', actions), db)"
      and res: "handle_mutation svc w (rq_op rq) key co =
        (Inr reply', tick w (fold (perform w) actions (set_db db co)))"
    have "safe_step db (co_db co1)"
      using tick_safe [of "fold (perform w) actions (set_db db co)" w] h res
        refines_wf [OF wf mutation_tx_ok(1) [OF wf tx]] by simp
    then have "records db (co_db co1)" by (simp add: safe_step_def audited_records)
    then show thesis
      using mutation_tx_ok(3) [OF wf tx] that records_lookup by blast
  qed (use h fresh in simp_all)
  have "wf_db (co_db co1)" using handle_mutation_safe(1) [OF wf h] refines_wf wf by blast
  then have "lookup_operation (co_db co2) key = Some (request_hash (svc_digest svc) (rq_op rq), enc)"
    by (rule later_lookup [OF _ stored between])
  then show ?thesis
    using again handle_keyed [OF mut(2) version key(2) k, of svc w' co2] other
    by (auto simp: handle_mutation_def replay_operation_def api_error_def)
qed

lemma sample_fresh: "lookup_operation (co_db sample_coordinator) key = None"
  by (simp add: lookup_operation_def sample_defs)

theorem mutation_key_conflict_witness:
  "let co1 = snd (handle_request sample_services sample_world (sample_request ''1'' Pause) sample_coordinator)
   in map_option eb_code (rs_error (fst (handle_request sample_services sample_world
        (sample_request ''2'' Unpause) co1))) = Some IDEMPOTENCY_CONFLICT"
proof -
  let ?co1 = "snd (handle_request sample_services sample_world (sample_request ''1'' Pause) sample_coordinator)"
  have none: "run_loop sample_services [] ?co1 = ([], ?co1)" by simp
  show ?thesis
    using mutation_key_conflict [where key = "''key''" and rq' = "sample_request ''2'' Unpause",
        OF _ _ _ _ _ sample_fresh surjective_pairing sample_pause none _ _ _ surjective_pairing]
    by (simp add: wf_sample_db sample_request_def sample_services_def legacy_v5_request_hash_def
        request_hash_def canonical_op_def)
qed

text \<open>
  C29: a request that fails, and a request that only reads, leave the coordinator as it was: its
  database, its attempt directories and its processes. Every request is answered under its own
  id, with a reply or an error but not both.
\<close>

theorem failed_request_no_effect:
  assumes h: "handle_request svc w rq co = (resp, co')"
  shows "rs_request_id resp = rq_request_id rq \<and> (rs_reply resp = None \<longleftrightarrow> rs_error resp \<noteq> None) \<and>
    (rs_error resp \<noteq> None \<or> \<not> is_mutation (rq_op rq) \<longrightarrow> co' = co)"
proof (cases "is_mutation (rq_op rq) \<and> rq_protocol_version rq = PROTOCOL_VERSION \<and>
    (\<exists>key. rq_idempotency_key rq = Some key \<and> key \<noteq> [])")
  case True
  then obtain key where k: "rq_idempotency_key rq = Some key" "key \<noteq> []" by blast
  obtain result co1 where m: "handle_mutation svc w (rq_op rq) key co = (result, co1)" by fastforce
  have "co1 = co" if "result = Inl e" for e
    by (rule handle_mutation_cases [of co key svc w "rq_op rq"]) (use m that in auto)
  then show ?thesis
    using handle_keyed [OF _ _ k, of svc w co] True m h by (auto split: sum.splits)
next
  case False
  then show ?thesis
    using h by (auto simp: handle_request_def Let_def split: if_splits option.splits sum.splits)
qed

theorem failed_request_no_effect_witness:
  "snd (handle_request sample_services sample_world (sample_request ''1'' Status) sample_coordinator) =
     sample_coordinator"
  using failed_request_no_effect [OF surjective_pairing, of sample_services sample_world
      "sample_request ''1'' Status" sample_coordinator]
  by (simp add: sample_request_def)

text \<open>
  Every mutation that succeeds keeps the invariant of the database, moves the abstract queue
  only by its own steps, and appends to the audit trail without touching the record of handled
  operations.
\<close>

theorem mutation_refines_queue:
  assumes "wf_db db" and "apply_mutation p pv o' now ctx db = Inr ((reply, actions), db')"
  shows "wf_db db' \<and> q_steps (abs_queue db) (abs_queue db') \<and> operations db' = operations db \<and>
    (\<exists>es. events db' = events db @ es \<and> map e_id es = [event_seq db + 1 .. event_seq db'])"
  using apply_mutation_refines [OF assms] refines_wf [OF assms(1)] audited_apply_mutation [OF assms(2)]
  by (simp add: refines_def audited_def logged_def)

definition held_sample :: database where
  "held_sample = (case apply_mutation sample_paths (w_proc sample_world) (Hold 2) 100 None sample_db of
     Inr (_, db) \<Rightarrow> db | Inl _ \<Rightarrow> empty_db)"

lemma sample_hold:
  "(case apply_mutation sample_paths (w_proc sample_world) (Hold 2) 100 None sample_db of
      Inr (_, db) \<Rightarrow> True | Inl _ \<Rightarrow> False) \<and> job_state_of held_sample 2 = Some J_Held"
  by code_simp

theorem mutation_refines_queue_witness:
  "wf_db held_sample \<and> q_steps (abs_queue sample_db) (abs_queue held_sample) \<and>
   job_state_of held_sample 2 = Some J_Held"
  using sample_hold mutation_refines_queue [OF wf_sample_db, of sample_paths "w_proc sample_world" "Hold 2" 100 None]
  by (simp add: held_sample_def split: sum.splits prod.splits)

section \<open>Digests\<close>

lemma sorted_key_unique:
  fixes key :: "'a \<Rightarrow> int"
  assumes "sorted_wrt (\<lambda>a b. key a < key b) xs" "sorted_wrt (\<lambda>a b. key a < key b) ys" "set xs = set ys"
  shows "xs = ys"
  using assms
proof (induction xs arbitrary: ys)
  case (Cons x xs)
  then obtain y ys' where ys: "ys = y # ys'" by (cases ys) auto
  have "x = y"
  proof (rule ccontr)
    assume "x \<noteq> y"
    then have "key y < key x" "key x < key y" using Cons.prems unfolding ys by auto
    then show False by simp
  qed
  moreover have "x \<notin> set xs" "y \<notin> set ys'" using Cons.prems unfolding ys by auto
  ultimately have "set xs = set ys'" using Cons.prems(3) unfolding ys by (auto simp: insert_eq_iff)
  then show ?case using Cons.IH [of ys'] Cons.prems(1,2) \<open>x = y\<close> unfolding ys by simp
qed simp

text \<open>
  The digest of a submission does not depend on the order or repetition of its
  prerequisites: two submissions that differ only in how the same prerequisites are listed
  have the same digest, whatever the digest function, so that a resent request is recognised.
\<close>

theorem request_hash_order_free:
  assumes "set ds = set ds'"
  shows "request_hash digest (Submit (p\<lparr>sp_dependencies := ds\<rparr>)) =
    request_hash digest (Submit (p\<lparr>sp_dependencies := ds'\<rparr>))"
proof -
  have "canonical_dependencies ds = canonical_dependencies ds'"
    using canonical_dependencies_sorted [of ds] canonical_dependencies_sorted [of ds'] assms
    by (intro sorted_key_unique [of ds_job]) (auto simp: sorted_wrt_map canonical_dependencies_set)
  then show ?thesis by (simp add: request_hash_def canonical_op_def)
qed

definition unordered_submission :: submit_params where
  "unordered_submission = \<lparr>sp_name = ''eval'', sp_cwd = ''/w'', sp_args = [''run''], sp_env = [], sp_max_parallel_runs = 1,
     sp_priority = 0, sp_max_attempts = 1, sp_retry_delay_ms = 5, sp_time_limit_ms = None,
     sp_dependencies = [], sp_yield_policy = None\<rparr>"

theorem request_hash_order_free_witness:
  "request_hash op_kind (Submit (unordered_submission
     \<lparr>sp_dependencies := [\<lparr>ds_job = 2, ds_condition = Dep_Terminal\<rparr>, \<lparr>ds_job = 1, ds_condition = Dep_Succeeded\<rparr>]\<rparr>)) =
   request_hash op_kind (Submit (unordered_submission
     \<lparr>sp_dependencies := [\<lparr>ds_job = 1, ds_condition = Dep_Succeeded\<rparr>, \<lparr>ds_job = 2, ds_condition = Dep_Terminal\<rparr>]\<rparr>))"
  by (rule request_hash_order_free) auto

end
