(* ===== verification/Recovery_Properties.thy ===== *)
theory Recovery_Properties
  imports Daemon_Examples
begin

text \<open>
  What recovery promises about processes: a lease is given up only on evidence that the command
  is not running, signals go only to the process group of an orphan, the start gate opens only
  for a committed authorization, and a launch either hands a runner its command or ends the
  attempt.
\<close>

section \<open>Frames\<close>

text \<open>What republishing an intent leaves alone.\<close>

definition same_evidence :: "attempt_id \<Rightarrow> coordinator \<Rightarrow> coordinator \<Rightarrow> bool" where
  "same_evidence i co co' \<longleftrightarrow>
     ad_identity (co_dirs co' i) = ad_identity (co_dirs co i) \<and>
     ad_start (co_dirs co' i) = ad_start (co_dirs co i) \<and>
     ad_exec (co_dirs co' i) = ad_exec (co_dirs co i) \<and>
     ad_result (co_dirs co' i) = ad_result (co_dirs co i) \<and>
     ad_timeout (co_dirs co' i) = ad_timeout (co_dirs co i) \<and>
     co_db co' = co_db co \<and> co_spawned co' = co_spawned co \<and> co_config co' = co_config co \<and>
     co_runners co' = co_runners co \<and> co_signals co' = co_signals co \<and>
     co_orphan_term_sent co' = co_orphan_term_sent co"

lemma same_evidence_refl: "same_evidence i co co"
  by (simp add: same_evidence_def)

lemma same_evidence_trans: "same_evidence i co co1 \<Longrightarrow> same_evidence i co1 co2 \<Longrightarrow> same_evidence i co co2"
  by (simp add: same_evidence_def)

lemma republish_evidence:
  "same_evidence (a_id a) co (republish_cancel w a co)"
  "same_evidence (a_id a) co (republish_yield w a co)"
  "same_evidence (a_id a) co (republish_time_limit w a co)"
  by (auto simp: same_evidence_def republish_cancel_def republish_yield_def republish_time_limit_def
      update_dir_def write_cancel_def publish_yield_def publish_time_limit_def write_file_def store_artifact_def
      create_dir_def Let_def split: option.split disk_fault.split)

lemma open_attempts_cong: "run_leases db' = run_leases db \<Longrightarrow> open_attempts db' = open_attempts db"
  by (simp add: open_attempts_def)

text \<open>Updates of the database that release no lease.\<close>

lemma leases_frame [simp]:
  "run_leases (update_job i f db) = run_leases db"
  "run_leases (update_attempt i g db) = run_leases db"
  "run_leases (append_event now ji ai ty ac de db) = run_leases db"
  by (simp_all add: update_job_def update_attempt_def append_event_def)

lemma quarantine_leases [simp]: "run_leases (co_db (snd (quarantine w a reason co))) = run_leases (co_db co)"
  by (simp add: quarantine_def quarantine_tx_def update_job_state_def set_attempt_state_def)

lemma quarantine_effects [simp]:
  "co_signals (snd (quarantine w a reason co)) = co_signals co"
  "co_runners (snd (quarantine w a reason co)) = co_runners co"
  "co_dirs (snd (quarantine w a reason co)) = co_dirs co"
  "co_orphan_term_sent (snd (quarantine w a reason co)) = co_orphan_term_sent co"
  by (simp_all add: quarantine_def set_db_def)

lemma authorize_leases [simp]: "run_leases (co_db (snd (authorize w a idf co))) = run_leases (co_db co)"
  by (simp add: authorize_def set_attempt_authorized_def set_attempt_runner_identity_def split: option.split)

lemma running_leases [simp]: "run_leases (co_db (snd (reconcile_running w a co))) = run_leases (co_db co)"
  by (simp add: reconcile_running_def orphan_tx_def update_job_state_def set_attempt_state_def)

lemma terminate_leases [simp]:
  "run_leases (co_db (terminate_orphan w a job pgid committed co)) = run_leases (co_db co)"
  using terminate_orphan_db [of w a job pgid committed co] by (auto simp: set_attempt_timed_out_def)

lemma finalize_effects [simp]:
  "co_signals (snd (finalize_attempt_and_job w a state ec ts message actor co)) = co_signals co"
  "co_runners (snd (finalize_attempt_and_job w a state ec ts message actor co)) = co_runners co"
  "co_dirs (snd (finalize_attempt_and_job w a state ec ts message actor co)) = co_dirs co"
  by (simp_all add: finalize_attempt_and_job_def split: sum.split)

section \<open>Evidence for the end of an attempt\<close>

text \<open>
  Why a reconciliation may close an attempt: its runner reported a result; or it never let the
  command start (no identity or a dead runner after the grace period, a runner that died before
  the start gate opened, a launch that failed); or the process group of the orphan is gone.
\<close>

definition closing_evidence :: "world \<Rightarrow> attempt_record \<Rightarrow> coordinator \<Rightarrow> bool" where
  "closing_evidence w a co \<longleftrightarrow>
     (let dir = co_dirs co (a_id a) in
      (\<exists>r. ad_result dir = Present r \<and> rf_token r = a_launch_token a) \<or>
      (a_state a = A_Prepared \<and> co_spawned co (a_id a) = None) \<or>
      (a_state a = A_Prepared \<and>
        (\<exists>t. co_spawned co (a_id a) = Some t \<and> grace_elapsed w co t) \<and>
        (case ad_identity dir of
           Absent \<Rightarrow> True
         | Corrupt _ \<Rightarrow> False
         | Present idf \<Rightarrow> if_token idf = a_launch_token a \<and>
             \<not> identity_alive (w_proc w) (if_runner_pid idf) (if_runner_start_time idf) (if_boot_id idf))) \<or>
      (a_state a = A_Authorized \<and> ad_start dir = Absent \<and>
        (\<exists>pid st boot. runner_identity a = Some (pid, st, boot) \<and> \<not> identity_alive (w_proc w) pid st boot)) \<or>
      (a_state a = A_Orphaned \<and>
        (\<exists>pgid boot. a_cmd_pgid a = Some pgid \<and> a_runner_boot_id a = Some boot \<and>
           \<not> group_possibly_alive (w_proc w) pgid boot (a_cmd_start_time a))))"

lemma closing_evidence_cong:
  "same_evidence (a_id a) co co' \<Longrightarrow> closing_evidence w a co' \<longleftrightarrow> closing_evidence w a co"
  unfolding closing_evidence_def same_evidence_def grace_elapsed_def Let_def by (elim conjE) simp

lemma reconcile_state_leases:
  assumes "run_leases (co_db (snd (reconcile_state w a co))) \<noteq> run_leases (co_db co)"
  shows "closing_evidence w a co"
proof (cases "a_state a")
  case A_Prepared
  then show ?thesis
    using assms
    by (auto simp: reconcile_state_def reconcile_prepared_def closing_evidence_def Let_def
        split: option.splits artifact.splits if_splits)
next
  case A_Authorized
  then show ?thesis
    using assms
    by (auto simp: reconcile_state_def reconcile_authorized_def closing_evidence_def Let_def
        update_job_state_def set_attempt_running_def
        split: option.splits artifact.splits if_splits)
next
  case A_Running
  then show ?thesis using assms by (simp add: reconcile_state_def)
next
  case A_Orphaned
  then show ?thesis
    using assms
    by (auto simp: reconcile_state_def reconcile_orphaned_def closing_evidence_def Let_def
        split: option.splits artifact.splits if_splits)
qed (use assms in \<open>simp_all add: reconcile_state_def\<close>)

text \<open>The intents republished before the handler of the state runs.\<close>

definition republished :: "world \<Rightarrow> attempt_record \<Rightarrow> coordinator \<Rightarrow> coordinator" where
  "republished w a co =
     (let co = republish_yield w a (republish_cancel w a co)
      in if a_state a = A_Prepared \<or> a_state a = A_Authorized \<or> a_state a = A_Running
         then republish_time_limit w a co else co)"

lemma republished_evidence: "same_evidence (a_id a) co (republished w a co)"
  unfolding republished_def Let_def
  using republish_evidence same_evidence_trans by (smt (verit, best))

lemma reconcile_attempt_cases:
  "reconcile_attempt w a co =
     (case ad_result (co_dirs co (a_id a)) of
        Present result \<Rightarrow>
          if rf_token result = a_launch_token a then finalize_from_result w a result co
          else quarantine w a ''result artifact token mismatch'' co
      | Corrupt err \<Rightarrow> quarantine w a (''corrupt result artifact: '' @ err) co
      | Absent \<Rightarrow> reconcile_state w a (republished w a co))"
  by (simp add: reconcile_attempt_def republished_def Let_def split: artifact.split)

lemma reconcile_attempt_leases:
  assumes "run_leases (co_db (snd (reconcile_attempt w a co))) \<noteq> run_leases (co_db co)"
  shows "closing_evidence w a co"
proof (cases "ad_result (co_dirs co (a_id a))")
  case Absent
  note ev = republished_evidence [of a co w]
  have "run_leases (co_db (snd (reconcile_state w a (republished w a co)))) \<noteq> run_leases (co_db (republished w a co))"
    using assms Absent ev by (simp add: reconcile_attempt_cases same_evidence_def)
  then show ?thesis using reconcile_state_leases closing_evidence_cong [OF ev] by blast
next
  case (Present r)
  then show ?thesis
    using assms by (auto simp: reconcile_attempt_cases closing_evidence_def Let_def split: if_splits)
next
  case (Corrupt err)
  then show ?thesis using assms by (simp add: reconcile_attempt_cases)
qed

section \<open>Signals\<close>

text \<open>
  The instant from which the grace period of an expired time limit is measured: the one a
  supervisor already committed, or else the deadline (or the later installation of the limit).
\<close>

definition orphan_anchor :: "world \<Rightarrow> attempt_record \<Rightarrow> job_record \<Rightarrow> attempt_dir \<Rightarrow> millis option" where
  "orphan_anchor w a job dir =
     (case ad_timeout dir of
        Present f \<Rightarrow> Some (tf_observed_at f)
      | _ \<Rightarrow>
          (case orphan_deadline a job None of
             Some d \<Rightarrow> if d \<le> w_now w then Some (timeout_kill_anchor d (j_time_limit_set_at job) None) else None
           | None \<Rightarrow> None))"

text \<open>Whether the grace period that precedes \<open>SIGKILL\<close> is over.\<close>

definition kill_due :: "world \<Rightarrow> coordinator \<Rightarrow> attempt_record \<Rightarrow> job_record \<Rightarrow> bool" where
  "kill_due w co a job \<longleftrightarrow>
     (case orphan_anchor w a job (co_dirs co (a_id a)) of
        Some anchor \<Rightarrow> past_grace w co anchor
      | None \<Rightarrow> a_cancel_requested a \<and> a_cancel_force a \<and>
          (case a_cancel_requested_at a of
             None \<Rightarrow> False
           | Some at \<Rightarrow> w_now w - at \<ge> as_i64 (cfg_cancel_grace_ms (co_config co))))"

lemma signal_effects [simp]:
  "co_signals (set_db db co) = co_signals co" "co_signals (update_dir i f co) = co_signals co"
  "co_config (set_db db co) = co_config co" "co_config (update_dir i f co) = co_config co"
  "co_orphan_term_sent (set_db db co) = co_orphan_term_sent co"
  "co_orphan_term_sent (update_dir i f co) = co_orphan_term_sent co"
  by (simp_all add: set_db_def update_dir_def)

lemma past_grace_frame [simp]:
  "past_grace w (set_db db co) = past_grace w co" "past_grace w (write_timeout w' a d an co) = past_grace w co"
  by (simp_all add: past_grace_def fun_eq_iff write_timeout_def)

lemma write_timeout_effects [simp]:
  "co_signals (write_timeout w a d an co) = co_signals co"
  "co_orphan_term_sent (write_timeout w a d an co) = co_orphan_term_sent co"
  by (simp_all add: write_timeout_def)

text \<open>A termination is one \<open>SIGTERM\<close>, unless it was sent before, and then the \<open>SIGKILL\<close> that is due.\<close>

lemma terminate_orphan_due:
  assumes dir: "committed = (case ad_timeout (co_dirs co (a_id a)) of Present f \<Rightarrow> Some f | _ \<Rightarrow> None)"
    and due: "orphan_anchor w a job (co_dirs co (a_id a)) \<noteq> None \<or> a_cancel_requested a"
  shows "\<exists>co1. co_signals co1 = co_signals co \<and> co_orphan_term_sent co1 = co_orphan_term_sent co \<and>
    terminate_orphan w a job pgid committed co =
      kill_if (kill_due w co a job) pgid (orphan_term (a_id a) pgid co1)"
proof (cases "orphan_anchor w a job (co_dirs co (a_id a))")
  case None
  then have "committed = None" "\<not> (case orphan_deadline a job None of None \<Rightarrow> False | Some d \<Rightarrow> w_now w \<ge> d)"
    using dir by (auto simp: orphan_anchor_def split: artifact.splits option.splits if_splits)
  then have "terminate_orphan w a job pgid committed co =
      kill_if (kill_due w co a job) pgid (orphan_term (a_id a) pgid co)"
    using None due
    by (auto simp: terminate_orphan_def Let_def kill_due_def split: option.splits)
  then show ?thesis by blast
next
  case (Some anchor)
  show ?thesis
  proof (cases committed)
    case None
    then obtain d where d: "orphan_deadline a job None = Some d" "d \<le> w_now w"
      "anchor = timeout_kill_anchor d (j_time_limit_set_at job) None"
      using Some dir by (auto simp: orphan_anchor_def split: artifact.splits option.splits if_splits)
    then show ?thesis
      using None Some
      by (simp add: terminate_orphan_def Let_def kill_due_def)
        (metis (no_types) past_grace_frame signal_effects(1,5) write_timeout_effects)
  next
    case (Some f)
    then have "anchor = tf_observed_at f"
      using dir \<open>orphan_anchor w a job (co_dirs co (a_id a)) = Some anchor\<close>
      by (auto simp: orphan_anchor_def split: artifact.splits)
    then show ?thesis
      using Some \<open>orphan_anchor w a job (co_dirs co (a_id a)) = Some anchor\<close>
      by (simp add: terminate_orphan_def Let_def kill_due_def orphan_deadline_def timeout_classifies_def)
        (metis (no_types) past_grace_frame signal_effects(1,5))
  qed
qed

lemma terminate_orphan_idle:
  assumes "committed = (case ad_timeout (co_dirs co (a_id a)) of Present f \<Rightarrow> Some f | _ \<Rightarrow> None)"
    and "orphan_anchor w a job (co_dirs co (a_id a)) = None" "\<not> a_cancel_requested a"
  shows "terminate_orphan w a job pgid committed co = co" and "\<not> kill_due w co a job"
  using assms
  by (auto simp: orphan_anchor_def terminate_orphan_def Let_def kill_due_def
      split: artifact.splits option.splits if_splits)

lemma terminate_orphan_signals:
  assumes "committed = (case ad_timeout (co_dirs co (a_id a)) of Present f \<Rightarrow> Some f | _ \<Rightarrow> None)"
  shows "co_signals (terminate_orphan w a job pgid committed co) = co_signals co @
      (if (orphan_anchor w a job (co_dirs co (a_id a)) \<noteq> None \<or> a_cancel_requested a) \<and>
          a_id a \<notin> co_orphan_term_sent co then [(pgid, SIGTERM)] else []) @
      (if kill_due w co a job then [(pgid, SIGKILL)] else [])"
    and "orphan_anchor w a job (co_dirs co (a_id a)) \<noteq> None \<or> a_cancel_requested a \<Longrightarrow>
      a_id a \<in> co_orphan_term_sent (terminate_orphan w a job pgid committed co)"
proof -
  let ?due = "orphan_anchor w a job (co_dirs co (a_id a)) \<noteq> None \<or> a_cancel_requested a"
  let ?co' = "terminate_orphan w a job pgid committed co"
  have sent: "co_signals ?co' = co_signals co @ (if a_id a \<notin> co_orphan_term_sent co then [(pgid, SIGTERM)] else []) @
      (if kill_due w co a job then [(pgid, SIGKILL)] else []) \<and> a_id a \<in> co_orphan_term_sent ?co'" if due: ?due
  proof -
    obtain co1 where "co_signals co1 = co_signals co" "co_orphan_term_sent co1 = co_orphan_term_sent co"
      "?co' = kill_if (kill_due w co a job) pgid (orphan_term (a_id a) pgid co1)"
      using terminate_orphan_due [OF assms due] by blast
    then show ?thesis by (simp add: kill_if_def orphan_term_def send_signal_def)
  qed
  then show "?due \<Longrightarrow> a_id a \<in> co_orphan_term_sent ?co'" by blast
  show "co_signals ?co' = co_signals co @
      (if ?due \<and> a_id a \<notin> co_orphan_term_sent co then [(pgid, SIGTERM)] else []) @
      (if kill_due w co a job then [(pgid, SIGKILL)] else [])"
  proof (cases ?due)
    case True
    then show ?thesis using sent by auto
  next
    case False
    then show ?thesis using terminate_orphan_idle [OF assms] by simp
  qed
qed

lemma try_launch_signals [simp]: "co_signals (snd (try_launch w i co)) = co_signals co"
  by (auto simp: try_launch_def Let_def split: option.split prod.split)

lemma launch_signals [simp]: "co_signals (launch w i co) = co_signals co"
proof -
  obtain err co1 where l: "try_launch w i (co\<lparr>co_spawned := (co_spawned co)(i \<mapsto> w_instant w)\<rparr>) = (err, co1)"
    by fastforce
  then have "co_signals co1 = co_signals co"
    using try_launch_signals [of w i "co\<lparr>co_spawned := (co_spawned co)(i \<mapsto> w_instant w)\<rparr>"] by simp
  then show ?thesis using l by (simp add: launch_def split: option.split)
qed

lemma authorize_signals [simp]: "co_signals (snd (authorize w a idf co)) = co_signals co"
  by (simp add: authorize_def split: option.split)

lemma reconcile_state_signals:
  assumes "co_signals (snd (reconcile_state w a co)) \<noteq> co_signals co"
  obtains pgid boot job where "a_state a = A_Orphaned" "a_cmd_pgid a = Some pgid" "a_runner_boot_id a = Some boot"
    "group_possibly_alive (w_proc w) pgid boot (a_cmd_start_time a)" "job_row (co_db co) (a_job a) = Some job"
    "snd (reconcile_state w a co) = terminate_orphan w a job pgid
       (case ad_timeout (co_dirs co (a_id a)) of Present f \<Rightarrow> Some f | _ \<Rightarrow> None) co"
proof (cases "a_state a")
  case A_Orphaned
  then show ?thesis
    using assms that
    by (auto simp: reconcile_state_def reconcile_orphaned_def Let_def
        split: option.splits artifact.splits if_splits prod.splits)
next
  case A_Prepared
  then show ?thesis
    using assms by (auto simp: reconcile_state_def reconcile_prepared_def split: option.splits artifact.splits if_splits)
next
  case A_Authorized
  then show ?thesis
    using assms
    by (auto simp: reconcile_state_def reconcile_authorized_def Let_def split: option.splits artifact.splits if_splits)
next
  case A_Running
  then show ?thesis using assms by (auto simp: reconcile_state_def reconcile_running_def split: if_splits)
qed (use assms in \<open>simp_all add: reconcile_state_def\<close>)

lemma finalize_from_result_signals [simp]: "co_signals (snd (finalize_from_result w a r co)) = co_signals co"
  by (simp add: finalize_from_result_def split: prod.split)

section \<open>The start gate\<close>

lemma try_launch_start: "ad_start (co_dirs (snd (try_launch w i co)) k) = ad_start (co_dirs co k)"
  by (auto simp: try_launch_def Let_def prepare_command_def write_file_def store_artifact_def update_dir_def
      split: option.splits prod.splits artifact.splits disk_fault.splits if_splits)

lemma launch_start: "ad_start (co_dirs (launch w i co) k) = ad_start (co_dirs co k)"
proof -
  obtain err co1 where l: "try_launch w i (co\<lparr>co_spawned := (co_spawned co)(i \<mapsto> w_instant w)\<rparr>) = (err, co1)"
    by fastforce
  then have "ad_start (co_dirs co1 k) = ad_start (co_dirs co k)"
    using try_launch_start [of w i "co\<lparr>co_spawned := (co_spawned co)(i \<mapsto> w_instant w)\<rparr>" k] by simp
  then show ?thesis using l by (simp add: launch_def split: option.split)
qed

lemma signal_dirs [simp]:
  "co_dirs (kill_if b pgid co) = co_dirs co" "co_dirs (orphan_term i pgid co) = co_dirs co"
  "co_dirs (set_db db co) = co_dirs co"
  by (simp_all add: kill_if_def orphan_term_def send_signal_def set_db_def)

lemma write_timeout_start [simp]: "ad_start (co_dirs (write_timeout w a d an co) k) = ad_start (co_dirs co k)"
  by (simp add: write_timeout_def update_dir_def write_file_def store_artifact_def split: option.split disk_fault.split)

lemma terminate_orphan_start:
  "ad_start (co_dirs (terminate_orphan w a job pgid committed co) k) = ad_start (co_dirs co k)"
  by (simp add: terminate_orphan_def Let_def split: option.split bool.split)

section \<open>Properties\<close>


lemma drained_sample:
  "open_attempts (co_db (snd (reconcile_attempt sample_world (staged_attempt A_Orphaned) (staged_coordinator A_Orphaned)))) = {}"
proof -
  let ?a = "staged_attempt A_Orphaned" and ?m = "''cancelled; orphaned process group drained''"
  note ev = republished_evidence [of ?a "staged_coordinator A_Orphaned" sample_world, unfolded same_evidence_def, simplified]
  obtain db' where "finalize_tx (w_now sample_world) ?a A_Cancelled None None (Some ?m) ''daemon'' (staged_db A_Orphaned) = Inr db'"
      "open_attempts db' = {}"
    using finalize_tx_ok [OF wf_staged_db current_staged, of A_Orphaned A_Cancelled "w_now sample_world" None None "Some ?m" "''daemon''"]
    by (auto simp: attempt_ended_def ended_state_def staged_db_rows)
  then show ?thesis
    using ev
    by (simp add: reconcile_attempt_cases reconcile_state_def reconcile_orphaned_def staged_db_rows
        sample_world_processes drained_outcome_def finalize_attempt_and_job_def)
qed



lemma killed_sample:
  "co_signals (snd (reconcile_attempt live_world (staged_attempt A_Orphaned) (staged_coordinator A_Orphaned))) =
     [(101, SIGTERM), (101, SIGKILL)]"
proof -
  let ?a = "staged_attempt A_Orphaned" and ?co = "republished live_world (staged_attempt A_Orphaned) (staged_coordinator A_Orphaned)"
  note ev = republished_evidence [of ?a "staged_coordinator A_Orphaned" live_world, unfolded same_evidence_def, simplified]
  have "orphan_anchor live_world ?a (sample_job 1 J_NeedsAttention (Some 1)) (co_dirs ?co 1) = None"
    using ev by (simp add: orphan_anchor_def orphan_deadline_def sample_job_def split: option.split)
  then have "kill_due live_world ?co ?a (sample_job 1 J_NeedsAttention (Some 1))"
    using ev by (simp add: kill_due_def live_world_def default_config_def as_i64_def)
  then show ?thesis
    using ev terminate_orphan_signals(1) [of None ?co ?a live_world "sample_job 1 J_NeedsAttention (Some 1)" 101]
    by (simp add: reconcile_attempt_cases reconcile_state_def reconcile_orphaned_def staged_db_rows
        live_world_processes)
qed


text \<open>
  C15: the start gate opens only for a committed authorization. When a reconciliation publishes
  the start artifact, the attempt was recorded as authorized before, or this very reconciliation
  committed it, after finding the runner alive under the identity it published with the
  attempt's token, with no cancellation pending and the job still starting.
\<close>

theorem start_gate:
  assumes h: "reconcile_attempt w a co = (err, co')"
    and opened: "ad_start (co_dirs co (a_id a)) = Absent" "ad_start (co_dirs co' (a_id a)) \<noteq> Absent"
  shows "a_state a = A_Authorized \<or>
    (a_state a = A_Prepared \<and> \<not> a_cancel_requested a \<and> job_state_of (co_db co) (a_job a) = Some J_Starting \<and>
     (\<exists>idf. ad_identity (co_dirs co (a_id a)) = Present idf \<and> if_token idf = a_launch_token a \<and>
        identity_alive (w_proc w) (if_runner_pid idf) (if_runner_start_time idf) (if_boot_id idf)) \<and>
     map_option a_state (attempt_row (co_db co') (a_id a)) =
       map_option (\<lambda>_. A_Authorized) (attempt_row (co_db co) (a_id a)))"
proof -
  let ?co1 = "republished w a co"
  note ev = republished_evidence [of a co w, unfolded same_evidence_def]
  have res: "ad_result (co_dirs co (a_id a)) = Absent"
  proof (rule ccontr)
    assume "ad_result (co_dirs co (a_id a)) \<noteq> Absent"
    then have "co_dirs (snd (reconcile_attempt w a co)) = co_dirs co"
      by (simp add: reconcile_attempt_cases finalize_from_result_def split: artifact.splits prod.splits)
    then show False using h opened by simp
  qed
  then have st: "snd (reconcile_state w a ?co1) = co'" using h by (simp add: reconcile_attempt_cases)
  show ?thesis
  proof (cases "a_state a")
    case A_Prepared
    have "ad_start (co_dirs (launch w (a_id a) ?co1) (a_id a)) = ad_start (co_dirs ?co1 (a_id a))"
      by (rule launch_start)
    then show ?thesis
      using A_Prepared st opened ev
      by (auto simp: reconcile_state_def reconcile_prepared_def authorize_def job_state_of_def
          set_attempt_authorized_def set_attempt_runner_identity_def attempt_table.lookup_update option.map_comp o_def
          split: option.splits artifact.splits if_splits)
  next
    case A_Running
    then show ?thesis using st opened ev by (auto simp: reconcile_state_def reconcile_running_def set_db_def split: if_splits)
  next
    case A_Orphaned
    have "ad_start (co_dirs (terminate_orphan w a job pgid committed ?co1) (a_id a)) = ad_start (co_dirs ?co1 (a_id a))"
      for job pgid committed by (rule terminate_orphan_start)
    then show ?thesis
      using A_Orphaned st opened ev
      by (auto simp: reconcile_state_def reconcile_orphaned_def Let_def
          split: option.splits artifact.splits if_splits prod.splits)
  qed (use st opened ev in \<open>simp_all add: reconcile_state_def\<close>)
qed

lemma gate_sample:
  "ad_start (co_dirs (snd (reconcile_attempt live_world (staged_attempt A_Prepared) (staged_coordinator A_Prepared))) 1) \<noteq> Absent"
proof -
  let ?co = "republished live_world (staged_attempt A_Prepared) (staged_coordinator A_Prepared)"
  note ev = republished_evidence [of "staged_attempt A_Prepared" "staged_coordinator A_Prepared" live_world,
    unfolded same_evidence_def, simplified]
  have "ad_exists (co_dirs ?co 1)"
    by (simp add: republished_def Let_def republish_cancel_def republish_yield_def republish_time_limit_def
        staged_db_rows sample_job_def published_time_limit_is_current_def staged_coordinator_def empty_dir_def
        staged_attempt_def)
  moreover have "w_write_fault live_world i n = None" for i n by (simp add: live_world_def sample_world_def)
  ultimately show ?thesis
    using ev
    by (simp add: reconcile_attempt_cases reconcile_state_def reconcile_prepared_def live_world_processes
        authorize_def staged_db_rows sample_job_def update_dir_def write_start_def write_file_def store_artifact_def)
qed

theorem start_gate_witness:
  "\<exists>idf. ad_identity (co_dirs (staged_coordinator A_Prepared) 1) = Present idf \<and>
     identity_alive (w_proc live_world) (if_runner_pid idf) (if_runner_start_time idf) (if_boot_id idf)"
  using start_gate [OF surjective_pairing, of "staged_coordinator A_Prepared" "staged_attempt A_Prepared" live_world] gate_sample
  by auto

end
