(* ===== verification/Attempt_Properties.thy ===== *)
theory Attempt_Properties
  imports Recovery_Properties
begin

text \<open>
  What becomes of a job when it is submitted, launched, when its attempt fails, and when an
  operator resolves an attempt by hand.
\<close>

section \<open>Rows through an advance\<close>

text \<open>A job row without the columns that a resolution of prerequisites writes.\<close>

definition settings :: "job_record \<Rightarrow> job_record" where
  "settings j = j\<lparr>j_state := J_Queued, j_ready_seq := None, j_state_reason := None, j_updated_at := 0,
     j_finished_at := None\<rparr>"

lemma settings_update_job:
  assumes "\<And>j. settings (f j) = settings j"
  shows "map_option settings (job_row (update_job k f db) i) = map_option settings (job_row db i)"
proof -
  have "j_id (f j) = j_id j" for j using arg_cong [OF assms, of j_id j] by (simp add: settings_def)
  then show ?thesis using assms by (cases "job_row db i") (auto simp: job_table.lookup_update)
qed

lemma settings_updates [simp]:
  "map_option settings (job_row (update_job_state k s msg now db) i) = map_option settings (job_row db i)"
  "map_option settings (job_row (clear_job_readiness k now db) i) = map_option settings (job_row db i)"
  "map_option settings (job_row (make_ready now k db) i) = map_option settings (job_row db i)"
  unfolding update_job_state_def clear_job_readiness_def
  by (auto intro!: settings_update_job simp: settings_def job_row_make_ready option.map_comp o_def ready_row_def
      intro: option.map_cong0)

lemma settings_advance: "map_option settings (job_row (advance_dependency_graph now db) i) = map_option settings (job_row db i)"
proof -
  have skips: "map_option settings (job_row (fold (skip_child t) cs db) i) = map_option settings (job_row db i)" for t cs db
    by (induction cs arbitrary: db) (auto simp: skip_child_def split: prod.splits)
  have latch: "job_row (latch_outcomes t db) i = job_row db i" for t db by (simp add: job_row_def)
  have loop: "map_option settings (job_row (advance_loop now db) i) = map_option settings (job_row db i)"
  proof (induction now db rule: advance_loop.induct)
    case (1 now db)
    then show ?case by (subst advance_loop.simps) (simp add: Let_def skip_violated_def skips latch)
  qed
  have "map_option settings (job_row (fold (make_ready now) ids db) i) = map_option settings (job_row db i)" for ids db
    by (induction ids arbitrary: db) simp_all
  then show ?thesis by (simp add: advance_dependency_graph_def Let_def loop)
qed

lemma doomed_unsatisfied: "doomed q c \<Longrightarrow> \<not> edges_satisfied q c"
  by (induction rule: doomed.induct) (auto simp: edges_satisfied_def)

lemma dep_step_job: "dep_step q q' \<Longrightarrow> q_job q' c = q_job q c \<or> q_job q' c = Some J_Skipped"
  by (auto elim!: dep_stepE simp: q_updates)

lemma dep_steps_job: "dep_step\<^sup>*\<^sup>* q q' \<Longrightarrow> q_job q' c = q_job q c \<or> q_job q' c = Some J_Skipped"
  by (induction rule: rtranclp_induct) (auto dest: dep_step_job [of _ _ c])

text \<open>A job whose prerequisites are met is not touched by an advance, but for its readiness.\<close>

lemma advance_keeps_state:
  assumes "wf_tables db" "edges_satisfied (abs_queue db) i"
  shows "job_state_of (advance_dependency_graph now db) i = job_state_of db i"
proof -
  let ?db1 = "advance_loop now db"
  note loop = advance_loop_refines [OF assms(1), of now]
  have "job_state_of ?db1 i = job_state_of db i \<or> job_state_of ?db1 i = Some J_Skipped"
    using dep_steps_job [of "abs_queue db" "abs_queue ?db1" i] loop by simp
  moreover have "job_state_of ?db1 i = Some J_Skipped \<longleftrightarrow> job_state_of db i = Some J_Skipped"
    using skipped_iff_doomed [of "abs_queue db" "abs_queue ?db1" i] loop doomed_unsatisfied assms(2) by auto
  ultimately have "job_state_of ?db1 i = job_state_of db i" by auto
  then show ?thesis by (simp add: advance_dependency_graph_def Let_def)
qed

section \<open>The end of an attempt\<close>

lemma length_filter_update_where:
  assumes "\<And>x. x \<in> set xs \<Longrightarrow> Q x \<Longrightarrow> P (f x) = P x"
  shows "length (filter P (update_where Q f xs)) = length (filter P xs)"
  using assms by (induction xs) (auto simp: update_where_def)

lemma yield_count_close:
  assumes wf: "wf_tables db" and cur: "current db a" and s: "s \<noteq> A_Yielded"
  shows "yield_count (close_attempt now a s ec ts msg actor db) i = yield_count db i"
proof -
  have "a_state r \<noteq> A_Yielded" if "r \<in> set (attempts db)" "a_id r = a_id a" for r
    using cur attempt_row_mem [OF wf that(1)] that(2) by (auto simp: current_def)
  then show ?thesis
    using s
    by (simp add: yield_count_def close_attempt_def Let_def finalize_attempt_def release_lease_def
        update_lease_def update_attempt_def length_filter_update_where)
qed

lemma current_edges:
  assumes "wf_db db" "current db a"
  shows "edges_satisfied (abs_queue db) (a_job a)"
proof -
  obtain r where "attempt_row db (a_id a) = Some r" "a_job r = a_job a" using assms(2) by (auto simp: current_def)
  then have "q_attempt (abs_queue db) (a_id a) = Some (a_job a, a_state r)" by simp
  then show ?thesis using assms(1) unfolding wf_db_def q_inv_def inv_attempts_def by blast
qed

text \<open>The state and the backoff of a job whose attempt failed, before prerequisites are resolved again.\<close>

lemma finalize_failed_row:
  assumes "finalize_job now a A_Failed message actor job db = Inr db'" "job_row db (j_id job) = Some r"
  defines "used \<equiv> j_attempt_count job - yield_count db (j_id job)"
  shows "\<exists>r'. job_row db' (j_id job) = Some r' \<and>
    (if used < j_max_attempts job \<and> \<not> a_cancel_requested a
     then j_state r' = J_Queued \<and> j_retry_not_before r' =
       (if j_retry_delay_ms job > 0 then Some (saturating_add now (j_retry_delay_ms job)) else None)
     else j_state r' = J_Failed)"
  using assms
  by (auto simp: finalize_job_def Let_def update_job_state_def set_job_retry_not_before_def
      clear_job_readiness_def job_table.lookup_update split: if_splits)

lemma ended_failed: "ended_state A_Failed"
  by (simp add: ended_state_def)

lemma settings_retry: "settings r = settings r' \<Longrightarrow> j_retry_not_before r = j_retry_not_before r'"
  by (drule arg_cong [of _ _ j_retry_not_before]) (simp add: settings_def)

section \<open>Launching\<close>

lemma prepare_command_ok:
  assumes "prepare_command w cfg job a dir = (None, dir')"
  shows "\<exists>c. ad_command dir' = Present c \<and> cf_token c = a_launch_token a \<and>
    (ad_command dir = Absent \<longrightarrow> c = command_record cfg job a)"
  using assms
  by (auto simp: prepare_command_def write_file_def store_artifact_def command_record_def
      split: artifact.splits option.splits if_splits disk_fault.splits)

lemma try_launch_ok:
  assumes "try_launch w i co = (None, co')" "attempt_row (co_db co) i = Some a" "job_row (co_db co) (a_job a) = Some job"
  shows "co_runners co' = co_runners co @ [a_id a]" "attempt_row (co_db co') = attempt_row (co_db co)"
    "\<exists>c. ad_command (co_dirs co' (a_id a)) = Present c \<and> cf_token c = a_launch_token a \<and>
      (ad_command (co_dirs co (a_id a)) = Absent \<longrightarrow> c = command_record (co_config co) job a)"
proof -
  obtain err dir where p: "prepare_command w (co_config co) job a ((co_dirs co (a_id a))\<lparr>ad_exists := True\<rparr>) = (err, dir)"
    by fastforce
  then have "err = None"
    using assms by (auto simp: try_launch_def Let_def split: if_splits)
  then show "co_runners co' = co_runners co @ [a_id a]" "attempt_row (co_db co') = attempt_row (co_db co)"
    "\<exists>c. ad_command (co_dirs co' (a_id a)) = Present c \<and> cf_token c = a_launch_token a \<and>
      (ad_command (co_dirs co (a_id a)) = Absent \<longrightarrow> c = command_record (co_config co) job a)"
    using assms p prepare_command_ok [of w "co_config co" job a "(co_dirs co (a_id a))\<lparr>ad_exists := True\<rparr>" dir]
    by (auto simp: try_launch_def Let_def update_dir_def attempt_row_def fun_eq_iff split: if_splits option.splits)
qed

lemma try_launch_failed:
  assumes "try_launch w i co = (Some e, co')"
  shows "co_db co' = co_db co" "co_runners co' = co_runners co"
  using assms
  by (auto simp: try_launch_def Let_def update_dir_def split: if_splits option.splits prod.splits)

section \<open>Resolution by an operator\<close>

lemma attempt_by_number_mem:
  "attempt_by_number db job number = Some a \<Longrightarrow> a \<in> set (attempts db) \<and> a_job a = job"
  by (auto simp: attempt_by_number_def dest: find_Some_mem)

lemma recover_resolve_done:
  assumes wf: "wf_db db" and cur: "current db a" and job: "a_job a = job"
    and a: "attempt_by_number db job number = Some a"
    and ok: "apply_recover_resolve p pv now job number as db = Inr (r, db')"
  shows "a_id a \<notin> open_attempts db' \<and>
    map_option a_state (attempt_row db' (a_id a)) = Some (fst (resolved_states as)) \<and>
    job_state_of db' job = Some (snd (resolved_states as))"
proof -
  obtain s js where res: "resolved_states as = (s, js)" and js: "\<not> waiting_state js"
    by (cases "as") (auto simp: waiting_state_def)
  from ok obtain msg ty1 de1 where fin: "finish_mutation p now job []
          (advance_dependency_graph now
            (append_event now (Some job) None ty1 ''client'' None
              (append_event now (Some job) (Some (a_id a)) ''recover_resolved'' ''client'' de1
                (update_job_state job js (Some msg) now
                  (release_lease (a_id a) now
                    (finalize_attempt (a_id a) s None None (Some msg) now db)))))) = Inr (r, db')"
    using a by (auto simp: apply_recover_resolve_def result_eqs Let_def res)
  define db1 where "db1 = update_job_state job js (Some msg) now
    (release_lease (a_id a) now (finalize_attempt (a_id a) s None None (Some msg) now db))"
  let ?db2 = "append_event now (Some job) None ty1 ''client'' None
    (append_event now (Some job) (Some (a_id a)) ''recover_resolved'' ''client'' de1 db1)"
  have db': "db' = advance_dependency_graph now ?db2"
    using finish_mutation_ok [OF fin] by (simp add: db1_def)
  obtain r0 where r0: "attempt_row db (a_id a) = Some r0" using cur by (auto simp: current_def)
  have wft: "wf_tables db" using wf by (rule wf_db_tables)
  have jso: "job_state_of db job \<noteq> None" using current_job_state [OF wf cur] job by simp
  have wf1: "wf_tables db1" by (simp add: db1_def wf_job_updates wf_attempt_updates wft)
  have abs1: "abs_queue db1 = set_job job js ((set_attempt (a_id a) (a_job r0) s (abs_queue db))
      \<lparr>q_open := q_open (abs_queue db) - {a_id a}\<rparr>)"
    by (simp add: db1_def abs_simps jso r0)
  have "edges_satisfied (abs_queue db1) job"
    using current_edges [OF wf cur] job edges_satisfied_cong [of "abs_queue db1" "abs_queue db"]
    by (simp add: abs1 q_updates)
  then have "job_state_of db' job = job_state_of ?db2 job"
    unfolding db' by (intro advance_keeps_state) (simp_all add: wf_append_event wf1 abs_simps)
  moreover have "job_state_of ?db2 job = Some js"
    using arg_cong [OF abs1, of "\<lambda>q. q_job q job"] by (simp add: q_updates)
  moreover have "attempt_row db' = attempt_row db1" by (simp add: db' attempt_row_def fun_eq_iff)
  moreover have "map_option a_state (attempt_row db1 (a_id a)) = Some s"
    using arg_cong [OF abs1, of "\<lambda>q. map_option snd (q_attempt q (a_id a))"]
    by (simp add: q_updates option.map_comp o_def)
  moreover have "open_attempts db' = open_attempts db1" by (simp add: db' open_attempts_def)
  moreover have "open_attempts db1 = open_attempts db - {a_id a}"
    using arg_cong [OF abs1, of q_open] by (simp add: q_updates)
  ultimately show ?thesis by (simp add: res)
qed

section \<open>Submission\<close>

lemma settings_context: "settings (r\<lparr>j_context := c\<rparr>) = (settings r)\<lparr>j_context := c\<rparr>"
  by (simp add: settings_def)

lemma conditions_advance:
  "map_option d_condition (edge_row (advance_dependency_graph now db) p c) = map_option d_condition (edge_row db p c)"
proof -
  have latch: "map_option d_condition (edge_row (latch_outcomes t db) p c) = map_option d_condition (edge_row db p c)" for t db
  proof -
    have "map_option d_condition (edge_row (fold (latch_edge t) es db) p c) = map_option d_condition (edge_row db p c)" for es db
    proof (induction es arbitrary: db)
      case (Cons e es)
      obtain p' c' cond s where e: "e = (p', c', cond, s)" by (cases e)
      show ?case
        using Cons.IH [of "latch_edge t e db"] unfolding e
        by (cases "edge_row db p' c'") (auto simp: edge_row_latch_edge latch_row_def)
    qed simp
    then show ?thesis by (simp add: latch_outcomes_def)
  qed
  have skip: "edge_row (skip_violated t db) = edge_row db" for t db
  proof -
    have "dependencies (fold (skip_child t) cs db) = dependencies db" for cs db
      by (induction cs arbitrary: db)
        (auto simp: skip_child_def update_job_state_def clear_job_readiness_def split: prod.splits)
    then show ?thesis by (simp add: skip_violated_def edge_row_def fun_eq_iff)
  qed
  have "map_option d_condition (edge_row (advance_loop now db) p c) = map_option d_condition (edge_row db p c)"
  proof (induction now db rule: advance_loop.induct)
    case (1 now db)
    then show ?case by (subst advance_loop.simps) (simp add: Let_def skip latch)
  qed
  then show ?thesis by (simp add: advance_dependency_graph_def Let_def)
qed

lemma map_option_new_edges:
  assumes "distinct (map fst deps)" "\<And>d. d \<in> set old \<Longrightarrow> d_child d \<noteq> i"
  shows "map_option d_condition (List.find (\<lambda>d. d_parent d = k \<and> d_child d = i) (old @ map (new_edge i) deps)) = map_of deps k"
proof -
  have "List.find (\<lambda>d. d_parent d = k \<and> d_child d = i) old = None"
    using assms(2) by (auto simp: find_None_iff)
  moreover have "map_option d_condition (List.find (\<lambda>d. d_parent d = k \<and> d_child d = i) (map (new_edge i) deps)) = map_of deps k"
    by (induction deps) (auto simp: new_edge_def)
  ultimately show ?thesis by (simp add: find_append)
qed

lemma insert_job_stores:
  assumes wf: "wf_db db" and ok: "insert_job p now db = Inr (i, db')"
  shows "i = job_seq db + 1"
    and "map_option settings (job_row db' i) =
      Some (settings (new_job_row i p (int (sp_retry_delay_ms p)) (map_option int (sp_time_limit_ms p)) now))"
    and "in_i64 (int (sp_retry_delay_ms p)) \<and> 1 \<le> sp_max_parallel_runs p \<and>
      (\<forall>l. sp_time_limit_ms p = Some l \<longrightarrow> 0 < l \<and> in_i64 (int l))"
    and "map_option d_condition (edge_row db' k i) = map_of (collapse_dependencies (sp_dependencies p)) k"
proof -
  let ?deps = "collapse_dependencies (sp_dependencies p)"
  let ?row = "new_job_row i p (int (sp_retry_delay_ms p)) (map_option int (sp_time_limit_ms p)) now"
  from ok obtain rd tl db2 where i: "i = job_seq db + 1"
    and rd: "i64_try_from (sp_retry_delay_ms p) = Some rd"
    and tl: "case sp_time_limit_ms p of None \<Rightarrow> tl = None | Some l \<Rightarrow> \<exists>v. i64_try_from l = Some v \<and> tl = Some v \<and> v > 0"
    and lim: "1 \<le> sp_max_parallel_runs p"
    and fold: "foldE (insert_dependency i) ?deps
      (db\<lparr>jobs := jobs db @ [new_job_row i p rd tl now], job_seq := i\<rparr>) = Inr db2"
    and db': "db' = (if ?deps = [] then snd (assign_next_ready_seq i now db2) else db2)"
    unfolding insert_job_def Let_def bindE_eq_Inr ensure_eq_Inr ok_or_eq_Inr
    by (auto simp: result_eqs split: option.splits)
  have rd': "rd = int (sp_retry_delay_ms p)" "in_i64 (int (sp_retry_delay_ms p))"
    using rd by (auto simp: i64_try_from_def in_i64_def i64_min_def split: if_splits)
  have tl': "tl = map_option int (sp_time_limit_ms p)" "\<forall>l. sp_time_limit_ms p = Some l \<longrightarrow> 0 < l \<and> in_i64 (int l)"
    using tl by (auto simp: i64_try_from_def in_i64_def i64_min_def split: option.splits if_splits)
  show "i = job_seq db + 1" by (rule i)
  show "in_i64 (int (sp_retry_delay_ms p)) \<and> 1 \<le> sp_max_parallel_runs p \<and>
      (\<forall>l. sp_time_limit_ms p = Some l \<longrightarrow> 0 < l \<and> in_i64 (int l))"
    using rd'(2) tl'(2) lim by blast
  have db2: "db2 = db\<lparr>jobs := jobs db @ [?row], job_seq := i, dependencies := dependencies db @ map (new_edge i) ?deps\<rparr>"
    using insert_dependencies [OF fold] rd'(1) tl'(1) by simp
  have fresh: "job_row db i = None" using job_seq_fresh [OF wf_db_tables [OF wf]] by (simp add: i)
  have "job_row db2 i = Some ?row"
    using fresh unfolding db2 job_row_def by (simp add: find_append new_job_row_def)
  then show "map_option settings (job_row db' i) = Some (settings ?row)"
    by (simp add: db' job_row_assign settings_def ready_row_def)
  have "d_child d \<noteq> i" if "d \<in> set (dependencies db)" for d
    using wf_child_known [OF wf that] fresh by (auto simp: job_state_of_def)
  then have "map_option d_condition (edge_row db2 k i) = map_of ?deps k"
    unfolding edge_row_def db2 using collapse_dependencies_sorted [of "sp_dependencies p"]
    by (simp add: map_option_new_edges strict_sorted_iff)
  moreover have "edge_row db' = edge_row db2"
    by (simp add: db' assign_next_ready_seq_update edge_row_def fun_eq_iff update_job_def)
  ultimately show "map_option d_condition (edge_row db' k i) = map_of ?deps k" by simp
qed

section \<open>Properties\<close>

text \<open>
  C25: the retry budget. When an attempt fails, its job waits for another attempt exactly when
  attempts are left (yielded attempts do not count) and no cancellation was requested; the next
  attempt is then due after the retry delay, a time that never leaves the 64-bit range and is
  never before the failure. Otherwise the job has failed.
\<close>

theorem failed_attempt_retry:
  assumes wf: "wf_db db" and cur: "current db a" and job: "job_row db (a_job a) = Some job"
    and ok: "finalize_tx now a A_Failed ec ts message actor db = Inr db'"
  shows "\<exists>r. job_row db' (a_job a) = Some r \<and>
    (if j_attempt_count job - yield_count db (a_job a) < j_max_attempts job \<and> \<not> a_cancel_requested a
     then j_state r = J_Queued \<and> (j_retry_delay_ms job \<le> 0 \<longrightarrow> j_retry_not_before r = None) \<and>
       (j_retry_delay_ms job > 0 \<longrightarrow> (\<exists>t. j_retry_not_before r = Some t \<and> in_i64 t \<and>
          (in_i64 now \<longrightarrow> now \<le> t) \<and>
          (in_i64 (now + j_retry_delay_ms job) \<longrightarrow> t = now + j_retry_delay_ms job)))
     else j_state r = J_Failed)"
proof -
  define db2 where "db2 = close_attempt now a A_Failed ec ts message actor db"
  note close = close_attempt_ok [where now = now and a = a and state = A_Failed and ec = ec and ts = ts and
    message = message and actor = actor and db = db, folded db2_def]
  have id: "j_id job = a_job a" using job by (rule job_row_id)
  have "\<not> job_state_is_terminal (j_state job)"
    using current_job [OF wf cur] job by (metis job_phase_not_terminal option.inject)
  then obtain db3 where db3: "finalize_job now a A_Failed message actor job db2 = Inr db3"
    "db' = advance_dependency_graph now db3"
    using ok close(2) job by (auto simp: finalize_tx_def Let_def db2_def [symmetric] result_eqs)
  have row2: "job_row db2 (j_id job) = Some job" using close(2) job id by simp
  have yc: "yield_count db2 (a_job a) = yield_count db (a_job a)"
    unfolding db2_def by (rule yield_count_close [OF wf_db_tables [OF wf] cur]) simp
  obtain r3 where r3: "job_row db3 (a_job a) = Some r3"
    "if j_attempt_count job - yield_count db (a_job a) < j_max_attempts job \<and> \<not> a_cancel_requested a
     then j_state r3 = J_Queued \<and> j_retry_not_before r3 =
       (if j_retry_delay_ms job > 0 then Some (saturating_add now (j_retry_delay_ms job)) else None)
     else j_state r3 = J_Failed"
    using finalize_failed_row [OF db3(1) row2] id yc by auto
  have wf2: "wf_tables db2" using close(1) wf_db_tables [OF wf] by blast
  have js: "job_state_of db2 (j_id job) \<noteq> None" using row2 by (simp add: job_state_of_def)
  obtain r0 where r0: "attempt_row db (a_id a) = Some r0" using cur by (auto simp: current_def)
  have wf3: "wf_tables db3" and abs3: "q_edge (abs_queue db3) = q_edge (abs_queue db)"
    using finalize_job_ok [OF _ js wf2, of A_Failed now a message actor] db3(1) close(6) [OF r0]
    by (auto simp: ended_state_def q_updates simp del: abs_queue_sel)
  have "edges_satisfied (abs_queue db3) (a_job a)"
    using current_edges [OF wf cur] edges_satisfied_cong [OF abs3] by blast
  then have "job_state_of db' (a_job a) = job_state_of db3 (a_job a)"
    unfolding db3(2) by (rule advance_keeps_state [OF wf3])
  then obtain r where r: "job_row db' (a_job a) = Some r" "j_state r = j_state r3" "settings r = settings r3"
    using settings_advance [of now db3 "a_job a"] r3(1) by (auto simp: db3(2) job_state_of_def)
  then show ?thesis
    using r3(2) settings_retry [OF r(3)] saturating_add_in_i64 saturating_add_ge saturating_add_exact
    by (auto split: if_splits)
qed

theorem failed_attempt_retry_witness:
  "\<exists>db'. finalize_tx 100 (staged_attempt A_Running) A_Failed (Some 1) None None ''runner'' (staged_db A_Running) = Inr db' \<and>
     (\<exists>r. job_row db' 1 = Some r \<and> j_state r = J_Queued \<and> j_retry_not_before r = Some 1100)"
proof -
  let ?a = "staged_attempt A_Running"
  have job: "job_row (staged_db A_Running) (a_job ?a) = Some (sample_job 1 J_Running (Some 1))"
    by (simp add: staged_db_rows)
  obtain db' where db': "finalize_tx 100 ?a A_Failed (Some 1) None None ''runner'' (staged_db A_Running) = Inr db'"
    using finalize_tx_ok [OF wf_staged_db current_staged ended_failed, of A_Running] attempt_live_simps(3) by blast
  show ?thesis
    using failed_attempt_retry [OF wf_staged_db current_staged job db'] db'
    by (simp add: yield_count_def sample_defs in_i64_def i64_min_def i64_max_def)
qed

text \<open>
  C26: a launch hands a runner its command or ends the attempt. After it, either exactly one
  runner was started, for this attempt, whose directory holds a command record with the
  attempt's token (the record built from the job when there was none before), or no runner was
  started, the attempt has failed and its lease is released.
\<close>

theorem launch_outcome:
  assumes wf: "wf_db (co_db co)" and a: "attempt_row (co_db co) i = Some a" "attempt_live (a_state a)"
    and job: "job_row (co_db co) (a_job a) = Some job" and co': "co' = launch w i co"
  shows "(co_runners co' = co_runners co @ [i] \<and> attempt_row (co_db co') i = Some a \<and>
      (\<exists>c. ad_command (co_dirs co' i) = Present c \<and> cf_token c = a_launch_token a \<and>
        (ad_command (co_dirs co i) = Absent \<longrightarrow> c = command_record (co_config co) job a))) \<or>
    (co_runners co' = co_runners co \<and> map_option a_state (attempt_row (co_db co') i) = Some A_Failed \<and>
      i \<notin> open_attempts (co_db co'))"
proof -
  have id: "a_id a = i" using a(1) attempt_table.lookup_Some by blast
  let ?co0 = "co\<lparr>co_spawned := (co_spawned co)(i \<mapsto> w_instant w)\<rparr>"
  obtain err co1 where l: "try_launch w i ?co0 = (err, co1)" by fastforce
  show ?thesis
  proof (cases err)
    case None
    then show ?thesis
      using l a job try_launch_ok [of w i ?co0 co1 a job] by (simp add: co' launch_def id)
  next
    case (Some e)
    then have same: "co_db co1 = co_db co" "co_runners co1 = co_runners co"
      using try_launch_failed [of w i ?co0 e co1] l by simp_all
    have "current (co_db co) a" using a id by (simp add: current_def)
    then obtain db' where db': "finalize_tx (w_now w) a A_Failed None None (Some (''runner spawn failed: '' @ e)) ''daemon''
        (co_db co) = Inr db'" "attempt_ended a A_Failed (co_db co) db'"
      using finalize_tx_ok [OF wf _ ended_failed] by blast
    then show ?thesis
      using Some l a same by (simp add: co' launch_def attempt_live_iff finalize_attempt_and_job_def attempt_ended_def id)
  qed
qed

definition launched_sample :: coordinator where
  "launched_sample = launch sample_world 1
     ((staged_coordinator A_Prepared)\<lparr>co_dirs := (\<lambda>_. empty_dir)\<rparr>)"

lemma launched_runners: "co_runners launched_sample = [1]"
  by (simp add: launched_sample_def launch_def try_launch_def staged_coordinator_def staged_db_rows
      prepare_command_def stale_file_def write_file_def store_artifact_def empty_dir_def sample_world_def
      sample_coordinator_def update_dir_def)

theorem launch_outcome_witness:
  "\<exists>c. ad_command (co_dirs launched_sample 1) = Present c \<and> cf_token c = ''t1''"
  using launch_outcome [OF _ _ _ _ launched_sample_def, where
      a = "staged_attempt A_Prepared" and job = "sample_job 1 J_Starting (Some 1)"] launched_runners
  by (auto simp: wf_staged_db staged_db_rows staged_coordinator_def sample_coordinator_def)




definition sample_submission :: submit_params where
  "sample_submission = \<lparr>sp_name = ''eval'', sp_cwd = ''/w'', sp_args = [''run''], sp_env = [], sp_max_parallel_runs = 1,
     sp_priority = 0, sp_max_attempts = 1, sp_retry_delay_ms = 5, sp_time_limit_ms = Some 60,
     sp_dependencies = [\<lparr>ds_job = 1, ds_condition = Dep_Succeeded\<rparr>], sp_yield_policy = None\<rparr>"

definition submitted_sample :: database where
  "submitted_sample = (case apply_submit sample_paths 100 None sample_submission sample_db of
     Inr (_, db) \<Rightarrow> db | Inl _ \<Rightarrow> empty_db)"

lemma sample_submit:
  "(case apply_submit sample_paths 100 None sample_submission sample_db of Inr (_, db) \<Rightarrow> True | Inl _ \<Rightarrow> False)"
  by code_simp


end
