(* ===== verification/Policy_Properties.thy ===== *)
theory Policy_Properties
  imports Daemon_Examples
begin

text \<open>
  What the scheduling transaction commits, what it considers, that an operator's hold does not
  cost a job its place, and how a database is brought to the current schema.
\<close>

section \<open>Scheduling\<close>



text \<open>
  The candidates of a pass are exactly the queued jobs that are ready and due, each once,
  with their stored priority and limit, the higher priority first and within a priority in the
  order in which they became ready.
\<close>

theorem eligible_candidates_exact:
  assumes wf: "wf_db db"
  shows "(\<forall>i. i \<in> cand_job ` set (eligible_candidates db now) \<longleftrightarrow>
      (\<exists>j. job_row db i = Some j \<and> j_state j = J_Queued \<and> j_ready_seq j \<noteq> None \<and>
        (case j_retry_not_before j of None \<Rightarrow> True | Some t \<Rightarrow> t \<le> now))) \<and>
    distinct (map cand_job (eligible_candidates db now)) \<and>
    sorted_wrt (\<lambda>c d. cand_priority d < cand_priority c \<or>
      cand_priority c = cand_priority d \<and> cand_ready_seq c < cand_ready_seq d) (eligible_candidates db now)"
proof -
  have wft: "wf_tables db" using wf by (rule wf_db_tables)
  have "i \<in> cand_job ` set (eligible_candidates db now) \<longleftrightarrow>
      (\<exists>j. job_row db i = Some j \<and> j_state j = J_Queued \<and> j_ready_seq j \<noteq> None \<and>
        (case j_retry_not_before j of None \<Rightarrow> True | Some t \<Rightarrow> t \<le> now))" (is "?in \<longleftrightarrow> ?ex") for i
  proof
    assume ?in
    then obtain c where c: "i = cand_job c" "c \<in> set (eligible_candidates db now)" by blast
    then obtain j where "j \<in> set (jobs db)" "j_state j = J_Queued"
      "j_ready_seq j = Some (cand_ready_seq c)" "i = j_id j"
      "case j_retry_not_before j of None \<Rightarrow> True | Some t \<Rightarrow> t \<le> now"
      unfolding eligible_candidates_mem by blast
    then show ?ex
      using job_table.lookup_unique [OF wf_tables_distinct(1) [OF wft]] by auto
  next
    assume ?ex
    then obtain j n where j: "job_row db i = Some j" "j_state j = J_Queued" "j_ready_seq j = Some n"
      "case j_retry_not_before j of None \<Rightarrow> True | Some t \<Rightarrow> t \<le> now" by auto
    have "\<lparr>cand_job = i, cand_ready_seq = n, cand_limit = j_max_parallel_runs j, cand_priority = j_priority j\<rparr>
        \<in> set (eligible_candidates db now)"
      unfolding eligible_candidates_mem using j job_table.lookup_Some [OF j(1)]
      by (intro bexI [of _ j]) simp_all
    then show ?in by (intro image_eqI) simp_all
  qed
  moreover have "sorted_wrt ranks_before (eligible_candidates db now)"
    using eligible_candidates_sorted [OF wf] by (simp add: pass_sorted_wrt)
  ultimately show ?thesis
    using eligible_candidates_distinct [OF wft] by (simp add: ranks_before_def [abs_def])
qed

lemma sample_ready_row:
  "(case job_row (advance_dependency_graph 20 sample_db) 2 of
      Some j \<Rightarrow> j_state j = J_Queued \<and> j_ready_seq j \<noteq> None \<and> j_retry_not_before j = None
    | None \<Rightarrow> False)"
  by code_simp

lemma wf_advanced_sample: "wf_db (advance_dependency_graph 20 sample_db)"
  using refines_wf [OF wf_sample_db refines_advance [OF refines_refl [OF wf_tables_sample_db]]] .

theorem eligible_candidates_exact_witness:
  "2 \<in> cand_job ` set (eligible_candidates (advance_dependency_graph 20 sample_db) 100)"
  using eligible_candidates_exact [OF wf_advanced_sample, of 100] sample_ready_row
  by (auto split: option.splits)

section \<open>Hold and release\<close>

lemma job_row_invalidate [simp]:
  "job_row (invalidate_reservation_if_protected i reason now db) = job_row db"
  by (simp add: invalidate_reservation_if_protected_def resolve_reservation_def job_row_def fun_eq_iff
      split: option.split)

text \<open>
  A hold is undone by a release. A job that is held and then released is queued again with
  the readiness number it had, so that it keeps its place among the jobs of its priority, and
  with everything else of its row but the time of the update and the reason of its state. No
  other job's row changes.
\<close>

theorem hold_release_keeps_place:
  assumes wf: "wf_db db" and held: "apply_hold paths now job db = Inr (r, db1)"
    and released: "apply_release paths' now' job db1 = Inr (r', db2)"
  shows "(\<exists>row. job_row db job = Some row \<and>
      job_row db2 job = Some (row\<lparr>j_state_reason := None, j_updated_at := now'\<rparr>)) \<and>
    (\<forall>k. k \<noteq> job \<longrightarrow> job_row db2 k = job_row db k)"
proof -
  from held obtain row where row: "job_row db job = Some row" "j_state row = J_Queued"
    and db1: "db1 = append_event now (Some (j_id row)) None ''job_held'' ''client'' None
      (update_job_state (j_id row) J_Held None now
        (invalidate_reservation_if_protected (j_id row) ''protected job was held'' now db))"
    by (auto simp: apply_hold_def result_eqs get_job_ok dest: finish_mutation_ok)
  from released obtain row1 where db2: "db2 = append_event now' (Some (j_id row1)) None ''job_released'' ''client'' None
      (update_job_state (j_id row1) J_Queued None now' db1)" and row1: "job_row db1 job = Some row1"
    by (auto simp: apply_release_def result_eqs get_job_ok dest: finish_mutation_ok)
  have id: "j_id row = job" "j_id row1 = job" using job_row_id row(1) row1 by blast+
  have "row \<in> set (jobs db)" using job_table.lookup_Some row(1) by blast
  then have "wf_job_row row" using wf by (simp add: wf_db_def wf_tables_def wf_jobs_def)
  then have "j_finished_at row = None" using row(2) by (auto simp: wf_job_row_def)
  then show ?thesis
    using row by (auto simp: db2 db1 id update_job_state_def job_table.lookup_update intro: job_record.equality)
qed

definition held_and_released :: "(database \<times> database) option" where
  "held_and_released =
     (case apply_hold sample_paths 100 2 sample_db of
        Inr (_, db1) \<Rightarrow> (case apply_release sample_paths 200 2 db1 of Inr (_, db2) \<Rightarrow> Some (db1, db2) | Inl _ \<Rightarrow> None)
      | Inl _ \<Rightarrow> None)"

lemma sample_held_and_released: "(case held_and_released of Some _ \<Rightarrow> True | None \<Rightarrow> False)"
  by code_simp

theorem hold_release_keeps_place_witness:
  "\<exists>db1 db2. held_and_released = Some (db1, db2) \<and> job_row db2 3 = job_row sample_db 3"
proof -
  obtain r db1 r' db2 where both: "apply_hold sample_paths 100 2 sample_db = Inr (r, db1)"
    "apply_release sample_paths 200 2 db1 = Inr (r', db2)" "held_and_released = Some (db1, db2)"
    using sample_held_and_released by (auto simp: held_and_released_def split: sum.splits prod.splits option.splits)
  have "job_row db2 3 = job_row sample_db 3"
    using hold_release_keeps_place [OF wf_sample_db both(1,2)] by simp
  then show ?thesis using both(3) by blast
qed

section \<open>Migrations\<close>

lemma apply_missing_prefix:
  assumes "0 \<le> v" "v \<le> m" "m \<le> n" "apply_missing f v [m + 1..n] (m, s) = (err, (v', s'))"
  shows "m \<le> v' \<and> v' \<le> n \<and> foldE f [m + 1..v'] s = Inr s' \<and>
    (err = None \<longleftrightarrow> v' = n) \<and> (err \<noteq> None \<longrightarrow> (\<exists>e. f (v' + 1) s' = Inl e))"
  using assms
proof (induction "nat (n - m)" arbitrary: m s)
  case 0
  then show ?case by simp
next
  case (Suc k)
  then have lt: "m < n" by simp
  then have split: "[m + 1..n] = (m + 1) # [(m + 1) + 1..n]" by (intro upto_rec1) simp
  show ?case
  proof (cases "f (m + 1) s")
    case (Inl e)
    then show ?thesis using Suc.prems(2,4) lt by (simp only: split apply_missing.simps) auto
  next
    case (Inr s1)
    then have "apply_missing f v [(m + 1) + 1..n] (m + 1, s1) = (err, (v', s'))"
      using Suc.prems by (simp only: split apply_missing.simps) simp
    then have IH: "m + 1 \<le> v' \<and> v' \<le> n \<and> foldE f [(m + 1) + 1..v'] s1 = Inr s' \<and>
        (err = None \<longleftrightarrow> v' = n) \<and> (err \<noteq> None \<longrightarrow> (\<exists>e. f (v' + 1) s' = Inl e))"
      using Suc by (intro Suc.hyps(1)) simp_all
    then have "[m + 1..v'] = (m + 1) # [(m + 1) + 1..v']" by (intro upto_rec1) simp
    then show ?thesis using IH Inr by (simp only: foldE.simps) auto
  qed
qed

lemma apply_missing_skip:
  "0 \<le> v \<Longrightarrow> v \<le> n \<Longrightarrow> apply_missing f v [1..n] (v, s) = apply_missing f v [v + 1..n] (v, s)"
proof -
  assume v: "0 \<le> v" "v \<le> n"
  have skip: "apply_missing f v (xs @ ys) vs = apply_missing f v ys vs" if "\<forall>x\<in>set xs. x \<le> v" for xs ys vs
    using that by (induction xs) simp_all
  have "[1..n] = [1..v] @ [v + 1..n]" using v upto_split2 [of 1 v n] by (cases "v = 0") simp_all
  then show ?thesis by (simp add: skip)
qed

text \<open>
  A database is migrated by exactly the migrations it lacks, in order and once each. A newer
  database is refused untouched. A failing migration leaves those before it in place, at the
  version they reached, so that the next start resumes with the one that failed.
\<close>

theorem migrate_resumes:
  assumes "migrate f (v, s) = (err, (v', s'))"
  shows "(v > 9 \<longrightarrow> err \<noteq> None \<and> (v', s') = (v, s)) \<and>
    (0 \<le> v \<and> v \<le> 9 \<longrightarrow> v \<le> v' \<and> v' \<le> 9 \<and> foldE f [v + 1..v'] s = Inr s' \<and>
      (err = None \<longleftrightarrow> v' = 9) \<and> (err \<noteq> None \<longrightarrow> (\<exists>e. f (v' + 1) s' = Inl e)))"
  using assms apply_missing_prefix [of v v 9 f s err v' s'] apply_missing_skip [of v 9 f s]
  by (auto simp: migrate_def MIGRATION_COUNT_def)

lemma sample_migration:
  "migrate (\<lambda>n s. if n = 8 then Inl ''disk full'' else Inr (s @ [n])) (5, []) =
     (Some ''applying migration 8'', (7, [6, 7]))"
  by code_simp

theorem migrate_resumes_witness:
  "foldE (\<lambda>n s. if n = 8 then Inl ''disk full'' else Inr (s @ [n])) [5 + 1..7] [] = Inr [6, 7 :: int]"
  using migrate_resumes [OF sample_migration] by simp

end
