(* ===== verification/Runner.thy ===== *)
theory Runner
  imports Artifacts
begin

unbundle bit_operations_syntax

text \<open>
  Model of \<^verbatim>\<open>src/src/process/runner.rs\<close>: the supervisor of one attempt. It takes
  the lock of the attempt directory, announces itself, waits for the start artifact, spawns the
  command into a process group of its own, supervises it and publishes the result.

  The daemon and the command run concurrently with the runner. Every read the runner makes of
  something they change (the control artifacts, the wait status of the command, \<open>/proc\<close>, the
  clocks) is therefore an input of its own, taken at the point where the code takes it: an iteration
  of a loop has a record of the reads it makes, and a loop consumes a list of such records. The end
  of the list stands for a runner that is still running or was killed, so a statement about every
  list covers every point at which the runner may die. The files only the runner writes are the
  state, with the trace of its effects. Instants are in nanoseconds.

  The log file of the runner is not modelled (\<open>log_line\<close> ignores every failure).
\<close>

section \<open>Wait statuses\<close>

type_synonym exit_status = "32 word"

text \<open>\<open>ExitStatus::code\<close> and \<open>ExitStatus::signal\<close> on Linux.\<close>

definition status_code :: "exit_status \<Rightarrow> int option" where
  "status_code s = (if s AND 0x7F = 0 then Some (uint (drop_bit 8 s AND 0xFF)) else None)"

definition status_signal :: "exit_status \<Rightarrow> int option" where
  "status_signal s =
     (let sig = s AND 0x7F in if sig \<noteq> 0 \<and> sig \<noteq> 0x7F then Some (uint sig) else None)"

datatype cld_code = CLD_EXITED | CLD_DUMPED | CLD_KILLED

record siginfo =
  si_pid :: int
  si_code :: cld_code
  si_status :: "32 word"

text \<open>The argument is what \<open>waitid\<close> with \<open>WNOHANG | WNOWAIT\<close> reports.\<close>

definition peek_exit :: "string + siginfo \<Rightarrow> string + exit_status option" where
  "peek_exit waitid =
     bindE waitid (\<lambda>info.
       if si_pid info = 0 then Inr None
       else Inr (Some (case si_code info of
              CLD_EXITED \<Rightarrow> push_bit 8 (si_status info AND 0xFF)
            | CLD_DUMPED \<Rightarrow> si_status info OR 0x80
            | CLD_KILLED \<Rightarrow> si_status info)))"

section \<open>Reading control artifacts\<close>

record live_limit =
  ll_ms :: "nat option"
  ll_set_at :: "millis option"

definition observed_time_limit :: "limit_file artifact \<Rightarrow> command_file \<Rightarrow> live_limit" where
  "observed_time_limit limit_json command =
     (let snapshot = \<lparr>ll_ms = cf_time_limit_ms command, ll_set_at = None\<rparr> in
      case limit_json of
        Present limit \<Rightarrow>
          if lf_token limit = cf_token command
          then \<lparr>ll_ms = lf_time_limit_ms limit, ll_set_at = lf_updated_at limit\<rparr> else snapshot
      | Absent \<Rightarrow> snapshot
      | Corrupt _ \<Rightarrow> snapshot)"

definition read_cancel :: "cancel_file artifact \<Rightarrow> string \<Rightarrow> cancel_file option" where
  "read_cancel cancel_json token =
     (case cancel_json of
        Present cancel \<Rightarrow> if caf_token cancel = token then Some cancel else None
      | _ \<Rightarrow> None)"

definition read_yield :: "yield_file artifact \<Rightarrow> string \<Rightarrow> yield_file option" where
  "read_yield yield_json token =
     (case yield_json of
        Present request \<Rightarrow> if yf_token request = token then Some request else None
      | _ \<Rightarrow> None)"

section \<open>Effects\<close>

text \<open>\<open>Wrote name\<close> records that the file changed.\<close>

datatype runner_action =
    Wrote string
  | SpawnCommand int
  | SignalGroup int signal
  | SignalLeader int yield_signal
  | ReapLeader int

record runner =
  ru_dir :: attempt_dir
  ru_actions :: "runner_action list"

text \<open>
  How a runner ends: \<open>run\<close> returns, fails or panics, or it never gets that far.
\<close>

datatype run_end = RunOk | RunFailed string | RunPanic | RunUnfinished

type_synonym run_result = "run_end \<times> runner"

definition act :: "runner_action \<Rightarrow> runner \<Rightarrow> runner" where
  "act a r = r\<lparr>ru_actions := ru_actions r @ [a]\<rparr>"

definition runner_write ::
  "disk_fault option \<Rightarrow> string \<Rightarrow> bool \<Rightarrow> bool \<Rightarrow> (attempt_dir \<Rightarrow> attempt_dir) \<Rightarrow> runner \<Rightarrow>
     write_error option \<times> runner" where
  "runner_write fault name exclusive present put r =
     (let (err, dir) = store_artifact fault name exclusive present put (ru_dir r)
      in (err, if dir = ru_dir r then r else act (Wrote name) (r\<lparr>ru_dir := dir\<rparr>)))"

definition publish_result ::
  "disk_fault option \<Rightarrow> millis \<Rightarrow> command_file \<Rightarrow> result_outcome \<Rightarrow> int option \<Rightarrow> int option \<Rightarrow>
     string option \<Rightarrow> runner \<Rightarrow> run_result" where
  "publish_result fault now command outcome exit_code term_signal message r =
     (let result = \<lparr>rf_token = cf_token command, rf_outcome = outcome, rf_exit_code = exit_code,
            rf_term_signal = term_signal, rf_message = message, rf_finished_at = now\<rparr>;
          (err, r) = runner_write fault RESULT_FILE True (ad_result (ru_dir r) \<noteq> Absent)
            (\<lambda>d. d\<lparr>ad_result := Present result\<rparr>) r
      in (case err of Some e \<Rightarrow> RunFailed (write_error_text e) | None \<Rightarrow> RunOk, r))"

section \<open>Announcing the runner\<close>

record runner_start =
  st_lock_error :: "string option"
  st_locked :: bool
  st_command :: "command_file artifact"
  st_pid :: int
  st_proc :: proc_view
  st_identity_fault :: "disk_fault option"
  st_instant :: nat

definition boot_id_error :: string where
  "boot_id_error = ''reading boot id''"

text \<open>The part of \<open>run\<close> before the wait: the lock, the command record and the identity.\<close>

definition announce :: "runner_start \<Rightarrow> runner \<Rightarrow> run_result + command_file \<times> runner" where
  "announce st r =
     (case st_lock_error st of
        Some e \<Rightarrow> Inl (RunFailed e, r)
      | None \<Rightarrow>
          if \<not> st_locked st then Inl (RunFailed ''another runner already owns this attempt directory'', r)
          else
            (case st_command st of
               Corrupt e \<Rightarrow> Inl (RunFailed e, r)
             | Absent \<Rightarrow> Inl (RunFailed (''missing '' @ COMMAND_FILE), r)
             | Present command \<Rightarrow>
                 (case proc_stat (st_proc st) (st_pid st) of
                    None \<Rightarrow> Inl (RunFailed ''cannot read own /proc stat'', r)
                  | Some stat \<Rightarrow>
                      (case boot_id (st_proc st) of
                         None \<Rightarrow> Inl (RunFailed boot_id_error, r)
                       | Some boot \<Rightarrow>
                           (case runner_write (st_identity_fault st) IDENTITY_FILE False
                                   (ad_identity (ru_dir r) \<noteq> Absent)
                                   (\<lambda>d. d\<lparr>ad_identity := Present \<lparr>if_token = cf_token command,
                                      if_runner_pid = st_pid st, if_runner_start_time = pst_start_time stat,
                                      if_boot_id = boot\<rparr>\<rparr>) r of
                              (Some e, r) \<Rightarrow> Inl (RunFailed (write_error_text e), r)
                            | (None, r) \<Rightarrow> Inr (command, r))))))"

section \<open>Waiting for authorization\<close>

record wait_poll =
  wp_cancel :: "cancel_file artifact"
  wp_start :: "start_file artifact"
  wp_instant :: nat
  wp_now :: millis
  wp_result_fault :: "disk_fault option"

definition ns_of_ms :: "nat \<Rightarrow> nat" where
  "ns_of_ms ms = ms * 1000000"

fun await_authorization :: "command_file \<Rightarrow> nat \<Rightarrow> wait_poll list \<Rightarrow> runner \<Rightarrow> run_result + runner" where
  "await_authorization command deadline [] r = Inl (RunUnfinished, r)"
| "await_authorization command deadline (w # ws) r =
     (let publish = (\<lambda>outcome message.
            Inl (publish_result (wp_result_fault w) (wp_now w) command outcome None None (Some message) r)) in
      if read_cancel (wp_cancel w) (cf_token command) \<noteq> None then publish RO_Cancelled ''cancelled before launch''
      else
        (case wp_start w of
           Present start \<Rightarrow>
             if sf_token start = cf_token command then Inr r
             else publish RO_LaunchFailed ''authorization token mismatch''
         | Corrupt err \<Rightarrow> publish RO_LaunchFailed (''corrupt start artifact: '' @ err)
         | Absent \<Rightarrow>
             if deadline \<le> wp_instant w
             then publish RO_AuthorizationTimeout
                    (''no authorization within '' @ show_nat (cf_start_wait_ms command) @ '' ms'')
             else await_authorization command deadline ws r))"

section \<open>Launching the command\<close>

record launch_step =
  la_log_error :: "string option"
  la_spawn :: "string + int"
  la_now :: millis
  la_instant :: nat
  la_limit :: "limit_file artifact"
  la_proc :: proc_view
  la_exec_fault :: "disk_fault option"
  la_result_now :: millis
  la_result_fault :: "disk_fault option"

record supervision =
  su_pid :: int
  su_started_at :: millis
  su_started :: nat
  su_limit :: live_limit
  su_exit_status :: "exit_status option"
  su_term_sent :: bool
  su_cancelled_before_exit :: bool
  su_cancel_too_late :: bool
  su_kill_at :: "nat option"
  su_kill_sent :: bool
  su_timed_out :: bool
  su_yield_sent :: bool
  su_yield_record_failed :: bool
  su_empty_scans :: nat

definition new_supervision :: "command_file \<Rightarrow> launch_step \<Rightarrow> int \<Rightarrow> supervision" where
  "new_supervision command la pid =
     \<lparr>su_pid = pid, su_started_at = la_now la, su_started = la_instant la,
      su_limit = observed_time_limit (la_limit la) command, su_exit_status = None,
      su_term_sent = False, su_cancelled_before_exit = False, su_cancel_too_late = False,
      su_kill_at = None, su_kill_sent = False, su_timed_out = False, su_yield_sent = False,
      su_yield_record_failed = False, su_empty_scans = 0\<rparr>"

text \<open>
  \<open>argv[0]\<close> panics on an empty argument vector. An error after the spawn ends the runner and leaves
  the command running.
\<close>

definition launch_command :: "command_file \<Rightarrow> launch_step \<Rightarrow> runner \<Rightarrow> run_result + supervision \<times> runner" where
  "launch_command command la r =
     (case la_log_error la of
        Some e \<Rightarrow> Inl (RunFailed e, r)
      | None \<Rightarrow>
          if cf_argv command = [] then Inl (RunPanic, r)
          else
            (case la_spawn la of
               Inl err \<Rightarrow>
                 Inl (publish_result (la_result_fault la) (la_result_now la) command RO_LaunchFailed None None
                   (Some (''launch failed: '' @ err)) r)
             | Inr pid \<Rightarrow>
                 (let r = act (SpawnCommand pid) r;
                      start_time = (case proc_stat (la_proc la) pid of
                        Some stat \<Rightarrow> pst_start_time stat | None \<Rightarrow> 0) in
                  case boot_id (la_proc la) of
                    None \<Rightarrow> Inl (RunFailed boot_id_error, r)
                  | Some boot \<Rightarrow>
                      (case runner_write (la_exec_fault la) EXEC_FILE True (ad_exec (ru_dir r) \<noteq> Absent)
                              (\<lambda>d. d\<lparr>ad_exec := Present \<lparr>xf_token = cf_token command, xf_pid = pid, xf_pgid = pid,
                                 xf_start_time = start_time, xf_boot_id = boot,
                                 xf_started_at = Some (la_now la)\<rparr>\<rparr>) r of
                         (Some e, r) \<Rightarrow> Inl (RunFailed (write_error_text e), r)
                       | (None, r) \<Rightarrow> Inr (new_supervision command la pid, r)))))"

section \<open>Supervision\<close>

text \<open>The reads of one iteration, in the order in which the body makes them.\<close>

record poll =
  po_exit :: "string + siginfo"
  po_proc :: proc_view
  po_cancel :: "cancel_file artifact"
  po_limit :: "limit_file artifact"
  po_elapsed_at :: nat
  po_timeout_now :: millis
  po_timeout_fault :: "disk_fault option"
  po_deadline_at :: nat
  po_cancel_at :: nat
  po_yield :: "yield_file artifact"
  po_yield_now :: millis
  po_yield_fault :: "disk_fault option"
  po_exit_again :: "string + siginfo"
  po_kill_check_at :: nat

definition observe_exit :: "poll \<Rightarrow> supervision \<Rightarrow> string + supervision" where
  "observe_exit p s =
     (if su_exit_status s \<noteq> None then Inr s
      else bindE (peek_exit (po_exit p)) (\<lambda>status. Inr (s\<lparr>su_exit_status := status\<rparr>)))"

definition group_drained :: "poll \<Rightarrow> supervision \<Rightarrow> bool" where
  "group_drained p s \<longleftrightarrow> su_exit_status s \<noteq> None \<and> group_empty_except (po_proc p) (su_pid s) (su_pid s)"

definition count_scan :: "bool \<Rightarrow> supervision \<Rightarrow> supervision" where
  "count_scan drained s = s\<lparr>su_empty_scans := if drained then su_empty_scans s + 1 else 0\<rparr>"

definition refresh_limit :: "command_file \<Rightarrow> poll \<Rightarrow> supervision \<Rightarrow> supervision" where
  "refresh_limit command p s =
     (if su_timed_out s then s else s\<lparr>su_limit := observed_time_limit (po_limit p) command\<rparr>)"

definition deadline_expired :: "poll \<Rightarrow> supervision \<Rightarrow> bool" where
  "deadline_expired p s \<longleftrightarrow>
     (case ll_ms (su_limit s) of
        None \<Rightarrow> False
      | Some limit \<Rightarrow> ns_of_ms limit \<le> po_elapsed_at p - su_started s)"

definition timeout_deadline :: "supervision \<Rightarrow> millis option" where
  "timeout_deadline s =
     Option.bind (ll_ms (su_limit s)) (\<lambda>limit.
       Option.bind (i64_try_from limit) (\<lambda>limit. checked_add (su_started_at s) limit))"

definition limit_classifies :: "poll \<Rightarrow> cancel_file option \<Rightarrow> supervision \<Rightarrow> bool" where
  "limit_classifies p cancel s \<longleftrightarrow>
     deadline_expired p s \<and>
     (case cancel of
        None \<Rightarrow> True
      | Some c \<Rightarrow>
          (case (caf_requested_at c, timeout_deadline s) of
             (Some cancelled_at, Some deadline) \<Rightarrow>
               timeout_wins_over_cancel cancelled_at deadline (ll_set_at (su_limit s))
           | _ \<Rightarrow> False))"

definition send_term :: "supervision \<times> runner \<Rightarrow> supervision \<times> runner" where
  "send_term = (\<lambda>(s, r).
     if su_term_sent s then (s, r)
     else (s\<lparr>su_term_sent := True\<rparr>, act (SignalGroup (su_pid s) SIGTERM) r))"

definition arm_kill :: "command_file \<Rightarrow> nat \<Rightarrow> supervision \<Rightarrow> supervision" where
  "arm_kill command now s =
     (if su_kill_at s = None \<and> \<not> su_kill_sent s
      then s\<lparr>su_kill_at := Some (now + ns_of_ms (cf_cancel_grace_ms command))\<rparr> else s)"

text \<open>The commitment to a timeout, recorded once; a failing record does not stop the termination.\<close>

definition commit_timeout :: "command_file \<Rightarrow> poll \<Rightarrow> supervision \<times> runner \<Rightarrow> supervision \<times> runner" where
  "commit_timeout command p = (\<lambda>(s, r).
     (s\<lparr>su_timed_out := True\<rparr>,
      case timeout_deadline s of
        None \<Rightarrow> r
      | Some deadline \<Rightarrow>
          snd (runner_write (po_timeout_fault p) TIMEOUT_FILE True (ad_timeout (ru_dir r) \<noteq> Absent)
            (\<lambda>d. d\<lparr>ad_timeout := Present \<lparr>tf_token = cf_token command, tf_deadline = deadline,
               tf_observed_at = po_timeout_now p\<rparr>\<rparr>) r)))"

definition enforce_deadline ::
  "command_file \<Rightarrow> poll \<Rightarrow> bool \<Rightarrow> cancel_file option \<Rightarrow> supervision \<times> runner \<Rightarrow> supervision \<times> runner" where
  "enforce_deadline command p drained cancel = (\<lambda>(s, r).
     if deadline_expired p s \<and> \<not> drained then
       (let (s, r) = (if limit_classifies p cancel s \<and> \<not> su_timed_out s
                      then commit_timeout command p (s, r) else (s, r));
            (s, r) = send_term (s, r)
        in (arm_kill command (po_deadline_at p) s, r))
     else (s, r))"

definition deliver_cancel ::
  "command_file \<Rightarrow> poll \<Rightarrow> cancel_file option \<Rightarrow> supervision \<times> runner \<Rightarrow> supervision \<times> runner" where
  "deliver_cancel command p cancel = (\<lambda>(s, r).
     case cancel of
       None \<Rightarrow> (s, r)
     | Some c \<Rightarrow>
         (let s = (if su_timed_out s then s
                   else if su_exit_status s = None then s\<lparr>su_cancelled_before_exit := True\<rparr>
                   else s\<lparr>su_cancel_too_late := True\<rparr>);
              (s, r) = send_term (s, r)
          in (if caf_force c then arm_kill command (po_cancel_at p) s else s, r)))"

definition record_yield :: "command_file \<Rightarrow> poll \<Rightarrow> runner \<Rightarrow> bool \<times> runner" where
  "record_yield command p r =
     (let (err, r) = runner_write (po_yield_fault p) YIELD_SENT_FILE True (ad_yield_sent (ru_dir r) \<noteq> Absent)
            (\<lambda>d. d\<lparr>ad_yield_sent := Present \<lparr>ysf_token = cf_token command, ysf_sent_at = po_yield_now p\<rparr>\<rparr>) r
      in (case err of None \<Rightarrow> True | Some (AlreadyExists _) \<Rightarrow> True | Some (WriteFailed _) \<Rightarrow> False, r))"

definition deliver_yield ::
  "command_file \<Rightarrow> poll \<Rightarrow> supervision \<times> runner \<Rightarrow> string option \<times> supervision \<times> runner" where
  "deliver_yield command p = (\<lambda>(s, r).
     case cf_yield_policy command of
       None \<Rightarrow> (None, s, r)
     | Some policy \<Rightarrow>
         if \<not> su_yield_sent s \<and> \<not> su_term_sent s \<and> su_exit_status s = None \<and>
            read_yield (po_yield p) (cf_token command) \<noteq> None
         then
           (case record_yield command p r of
              (False, r) \<Rightarrow> (None, s\<lparr>su_yield_record_failed := True\<rparr>, r)
            | (True, r) \<Rightarrow>
                (case peek_exit (po_exit_again p) of
                   Inl e \<Rightarrow> (Some e, s, r)
                 | Inr (Some _) \<Rightarrow> (None, s, r)
                 | Inr None \<Rightarrow>
                     (None, s\<lparr>su_yield_sent := True\<rparr>, act (SignalLeader (su_pid s) (yp_signal policy)) r)))
         else (None, s, r))"

definition escalate :: "poll \<Rightarrow> supervision \<times> runner \<Rightarrow> supervision \<times> runner" where
  "escalate p = (\<lambda>(s, r).
     case su_kill_at s of
       None \<Rightarrow> (s, r)
     | Some at \<Rightarrow>
         if at \<le> po_kill_check_at p
         then (s\<lparr>su_kill_sent := True, su_kill_at := None\<rparr>, act (SignalGroup (su_pid s) SIGKILL) r)
         else (s, r))"

text \<open>One iteration: an error, the end of the loop, or the state for the next iteration.\<close>

datatype poll_result = PollFailed string runner | PollDone supervision runner | PollNext supervision runner

definition control_step :: "command_file \<Rightarrow> poll \<Rightarrow> bool \<Rightarrow> supervision \<Rightarrow> runner \<Rightarrow> poll_result" where
  "control_step command p drained s r =
     (let cancel = read_cancel (po_cancel p) (cf_token command);
          s = refresh_limit command p s;
          (s, r) = enforce_deadline command p drained cancel (s, r);
          (s, r) = deliver_cancel command p cancel (s, r)
      in case deliver_yield command p (s, r) of
           (Some e, s, r) \<Rightarrow> PollFailed e r
         | (None, s, r) \<Rightarrow> (let (s, r) = escalate p (s, r) in PollNext s r))"

definition supervise_poll :: "command_file \<Rightarrow> poll \<Rightarrow> supervision \<Rightarrow> runner \<Rightarrow> poll_result" where
  "supervise_poll command p s r =
     (case observe_exit p s of
        Inl e \<Rightarrow> PollFailed e r
      | Inr s \<Rightarrow>
          (let drained = group_drained p s; s = count_scan drained s in
           if drained \<and> 2 \<le> su_empty_scans s then PollDone s r
           else control_step command p drained s r))"

fun supervise :: "command_file \<Rightarrow> poll list \<Rightarrow> supervision \<Rightarrow> runner \<Rightarrow> run_result + supervision \<times> runner" where
  "supervise command [] s r = Inl (RunUnfinished, r)"
| "supervise command (p # ps) s r =
     (case supervise_poll command p s r of
        PollFailed e r' \<Rightarrow> Inl (RunFailed e, r')
      | PollDone s' r' \<Rightarrow> Inr (s', r')
      | PollNext s' r' \<Rightarrow> supervise command ps s' r')"

section \<open>The result\<close>

definition yield_answered :: "command_file \<Rightarrow> supervision \<Rightarrow> exit_status \<Rightarrow> yield_policy option" where
  "yield_answered command s status =
     (case cf_yield_policy command of
        None \<Rightarrow> None
      | Some policy \<Rightarrow>
          if su_yield_sent s \<and> status_code status = Some (int (yp_exit_code policy)) then Some policy else None)"

text \<open>
  The outcome, exit code, signal and message of the result. \<open>None\<close> is the panic of
  \<open>expect\<close> on a missing limit.
\<close>

definition final_result ::
  "command_file \<Rightarrow> supervision \<Rightarrow> exit_status \<Rightarrow> (result_outcome \<times> int option \<times> int option \<times> string option) option" where
  "final_result command s status =
     (if su_timed_out s then
        map_option (\<lambda>ms. (RO_TimedOut, status_code status, status_signal status,
          Some (''time limit of '' @ show_nat ms @ '' ms exceeded''))) (ll_ms (su_limit s))
      else if su_cancelled_before_exit s then
        Some (RO_Cancelled, status_code status, status_signal status, Some ''cancelled by request'')
      else
        (case yield_answered command s status of
           Some policy \<Rightarrow>
             Some (RO_Yielded, status_code status, None,
               Some (''yielded: exited with code '' @ show_nat (yp_exit_code policy) @ '' after '' @
                 yield_signal_as_str (yp_signal policy) @
                 (if su_cancel_too_late s then '' (cancellation_too_late)'' else [])))
         | None \<Rightarrow>
             Some (RO_Exited, status_code status, status_signal status,
               if su_cancel_too_late s then Some ''cancellation_too_late'' else None)))"

record final_step =
  fs_now :: millis
  fs_result_fault :: "disk_fault option"

definition conclude :: "command_file \<Rightarrow> final_step \<Rightarrow> supervision \<Rightarrow> runner \<Rightarrow> run_result" where
  "conclude command fs s r =
     (let r = act (ReapLeader (su_pid s)) r in
      case Option.bind (su_exit_status s) (final_result command s) of
        None \<Rightarrow> (RunPanic, r)
      | Some (outcome, exit_code, term_signal, message) \<Rightarrow>
          publish_result (fs_result_fault fs) (fs_now fs) command outcome exit_code term_signal message r)"

section \<open>The runner\<close>

record runner_input =
  ri_start :: runner_start
  ri_waits :: "wait_poll list"
  ri_launch :: launch_step
  ri_polls :: "poll list"
  ri_final :: final_step

definition runner_run :: "runner_input \<Rightarrow> runner \<Rightarrow> run_result" where
  "runner_run i r =
     (case announce (ri_start i) r of
        Inl res \<Rightarrow> res
      | Inr (command, r) \<Rightarrow>
          (case await_authorization command
                  (st_instant (ri_start i) + ns_of_ms (cf_start_wait_ms command)) (ri_waits i) r of
             Inl res \<Rightarrow> res
           | Inr r \<Rightarrow>
               (case launch_command command (ri_launch i) r of
                  Inl res \<Rightarrow> res
                | Inr (s, r) \<Rightarrow>
                    (case supervise command (ri_polls i) s r of
                       Inl res \<Rightarrow> res
                     | Inr (s, r) \<Rightarrow> conclude command (ri_final i) s r))))"

text \<open>The exit code of the process; a panic of the main thread is 101.\<close>

definition runner_main :: "runner_input \<Rightarrow> runner \<Rightarrow> int option \<times> runner" where
  "runner_main i r =
     (case runner_run i r of
        (RunOk, r) \<Rightarrow> (Some 0, r)
      | (RunFailed _, r) \<Rightarrow> (Some 1, r)
      | (RunPanic, r) \<Rightarrow> (Some 101, r)
      | (RunUnfinished, r) \<Rightarrow> (None, r))"

end
