(* ===== verification/Runner_Proofs.thy ===== *)
theory Runner_Proofs
  imports Runner
begin

text \<open>
  The invariant of the supervision loop: how the flags of the loop, the trace of effects and the
  reads of the iterations so far belong together. Each stage of an iteration keeps it, so it holds
  at every point where the runner may end.
\<close>

section \<open>What the iterations have seen\<close>

fun first_exit :: "poll list \<Rightarrow> exit_status option" where
  "first_exit [] = None"
| "first_exit (p # ps) =
     (case peek_exit (po_exit p) of Inr (Some status) \<Rightarrow> Some status | _ \<Rightarrow> first_exit ps)"

definition limit_passed :: "command_file \<Rightarrow> nat \<Rightarrow> poll \<Rightarrow> bool" where
  "limit_passed command started q \<longleftrightarrow>
     (case ll_ms (observed_time_limit (po_limit q) command) of
        None \<Rightarrow> False
      | Some ms \<Rightarrow> ns_of_ms ms \<le> po_elapsed_at q - started)"

definition cancel_seen :: "command_file \<Rightarrow> poll \<Rightarrow> bool" where
  "cancel_seen command q \<longleftrightarrow> read_cancel (po_cancel q) (cf_token command) \<noteq> None"

definition forced_cancel_seen :: "command_file \<Rightarrow> poll \<Rightarrow> bool" where
  "forced_cancel_seen command q \<longleftrightarrow>
     (case read_cancel (po_cancel q) (cf_token command) of None \<Rightarrow> False | Some c \<Rightarrow> caf_force c)"

text \<open>The instants from which the runner may escalate because of what an iteration read.\<close>

definition runner_kill_due :: "command_file \<Rightarrow> nat \<Rightarrow> poll \<Rightarrow> nat \<Rightarrow> bool" where
  "runner_kill_due command started q at \<longleftrightarrow>
     (limit_passed command started q \<and> at = po_deadline_at q + ns_of_ms (cf_cancel_grace_ms command)) \<or>
     (forced_cancel_seen command q \<and> at = po_cancel_at q + ns_of_ms (cf_cancel_grace_ms command))"

definition yield_due :: "command_file \<Rightarrow> poll \<Rightarrow> bool" where
  "yield_due command q \<longleftrightarrow>
     read_yield (po_yield q) (cf_token command) \<noteq> None \<and> peek_exit (po_exit_again q) = Inr None"

text \<open>A cancellation was read in an iteration that found the command still running.\<close>

definition cancelled_in_time :: "command_file \<Rightarrow> poll list \<Rightarrow> bool" where
  "cancelled_in_time command seen \<longleftrightarrow>
     (\<exists>xs q ys. seen = xs @ q # ys \<and> cancel_seen command q \<and> first_exit (xs @ [q]) = None)"

lemma first_exit_append:
  "first_exit (xs @ ys) = (case first_exit xs of None \<Rightarrow> first_exit ys | Some status \<Rightarrow> Some status)"
  by (induction xs) (auto split: sum.splits option.splits)

lemma cancelled_in_time_append: "cancelled_in_time command xs \<Longrightarrow> cancelled_in_time command (xs @ ys)"
  by (force simp: cancelled_in_time_def)

section \<open>The invariant\<close>

fun is_signal :: "runner_action \<Rightarrow> bool" where
  "is_signal (SignalGroup pid sig) = True"
| "is_signal (SignalLeader pid sig) = True"
| "is_signal _ = False"

text \<open>Every signal to the leader comes after the record of its delivery, which may exist before.\<close>

fun recorded_first :: "bool \<Rightarrow> runner_action list \<Rightarrow> bool" where
  "recorded_first recorded [] = True"
| "recorded_first recorded (a # as) =
     (case a of
        Wrote name \<Rightarrow> recorded_first (recorded \<or> a = Wrote YIELD_SENT_FILE) as
      | SignalLeader pid sig \<Rightarrow> recorded \<and> recorded_first recorded as
      | _ \<Rightarrow> recorded_first recorded as)"

lemma recorded_first_append:
  "recorded_first recorded (xs @ ys) \<longleftrightarrow>
     recorded_first recorded xs \<and> recorded_first (recorded \<or> Wrote YIELD_SENT_FILE \<in> set xs) ys"
  by (induction xs arbitrary: recorded) (auto simp: disj_assoc eq_commute split: runner_action.split)

lemma recorded_first_quiet: "list_all (\<lambda>a. \<not> is_signal a) as \<Longrightarrow> recorded_first recorded as"
  by (induction as arbitrary: recorded) (auto split: runner_action.split)

lemma recorded_first_mono: "recorded_first recorded as \<Longrightarrow> recorded_first True as"
  by (induction as arbitrary: recorded) (auto split: runner_action.splits)

definition sent_signals :: "command_file \<Rightarrow> supervision \<Rightarrow> runner_action list" where
  "sent_signals command s =
     (case cf_yield_policy command of
        Some policy \<Rightarrow> if su_yield_sent s then [SignalLeader (su_pid s) (yp_signal policy)] else []
      | None \<Rightarrow> []) @
     (if su_term_sent s then [SignalGroup (su_pid s) SIGTERM] else []) @
     (if su_kill_sent s then [SignalGroup (su_pid s) SIGKILL] else [])"

definition flags_inv :: "command_file \<Rightarrow> nat \<Rightarrow> poll list \<Rightarrow> supervision \<Rightarrow> bool" where
  "flags_inv command started seen s \<longleftrightarrow>
     su_started s = started \<and>
     (su_timed_out s \<longrightarrow> ll_ms (su_limit s) \<noteq> None \<and> (su_kill_at s \<noteq> None \<or> su_kill_sent s) \<and>
        (\<exists>q\<in>set seen. limit_passed command started q)) \<and>
     (su_term_sent s \<longrightarrow> (\<exists>q\<in>set seen. limit_passed command started q \<or> cancel_seen command q)) \<and>
     (\<forall>at. su_kill_at s = Some at \<longrightarrow> su_term_sent s \<and> \<not> su_kill_sent s \<and>
        (\<exists>q\<in>set seen. runner_kill_due command started q at)) \<and>
     (su_kill_sent s \<longrightarrow> su_term_sent s \<and>
        (\<exists>q\<in>set seen. \<exists>p\<in>set seen. \<exists>at. runner_kill_due command started q at \<and> at \<le> po_kill_check_at p)) \<and>
     (su_cancelled_before_exit s \<longrightarrow> su_term_sent s \<and> cancelled_in_time command seen) \<and>
     (su_yield_sent s \<longrightarrow> cf_yield_policy command \<noteq> None \<and> (\<exists>q\<in>set seen. yield_due command q))"

definition trace_inv :: "command_file \<Rightarrow> runner \<Rightarrow> supervision \<Rightarrow> runner \<Rightarrow> bool" where
  "trace_inv command r0 s r \<longleftrightarrow>
     ad_exists (ru_dir r) = ad_exists (ru_dir r0) \<and> ad_result (ru_dir r) = ad_result (ru_dir r0) \<and>
     (\<exists>mid. ru_actions r = ru_actions r0 @ mid \<and>
        filter is_signal mid = sent_signals command s \<and>
        set mid \<subseteq> {Wrote TIMEOUT_FILE, Wrote YIELD_SENT_FILE} \<union> Collect is_signal \<and>
        (ad_yield_sent (ru_dir r) \<noteq> Absent \<longrightarrow>
           ad_yield_sent (ru_dir r0) \<noteq> Absent \<or> Wrote YIELD_SENT_FILE \<in> set mid) \<and>
        recorded_first (ad_yield_sent (ru_dir r0) \<noteq> Absent) mid)"

definition scan_inv :: "poll list \<Rightarrow> supervision \<Rightarrow> bool" where
  "scan_inv seen s \<longleftrightarrow>
     su_empty_scans s \<le> length seen \<and>
     (\<forall>q\<in>set (take (su_empty_scans s) (rev seen)). group_empty_except (po_proc q) (su_pid s) (su_pid s)) \<and>
     (0 < su_empty_scans s \<longrightarrow> first_exit (rev (drop (su_empty_scans s - 1) (rev seen))) \<noteq> None)"

definition sup_inv :: "command_file \<Rightarrow> int \<Rightarrow> nat \<Rightarrow> runner \<Rightarrow> poll list \<Rightarrow> supervision \<Rightarrow> runner \<Rightarrow> bool" where
  "sup_inv command pid started r0 seen s r \<longleftrightarrow>
     su_pid s = pid \<and> su_exit_status s = first_exit seen \<and> scan_inv seen s \<and>
     flags_inv command started seen s \<and> trace_inv command r0 s r"

section \<open>Effects on the trace\<close>

lemma runner_write_cases:
  assumes "runner_write fault name exclusive present put r = (err, r')"
  obtains "r' = r"
  | "r' = act (Wrote name) (r\<lparr>ru_dir := put (ru_dir r)\<rparr>)" "\<not> (exclusive \<and> present)"
  using assms
  by (auto simp: runner_write_def store_artifact_def split: if_splits option.splits disk_fault.splits)

lemma runner_write_published:
  assumes "runner_write fault name exclusive present put r = (None, r')"
  shows "ru_dir r' = put (ru_dir r) \<and> \<not> (exclusive \<and> present)"
  using assms
  by (auto simp: runner_write_def store_artifact_def act_def split: if_splits option.splits disk_fault.splits)

lemma trace_inv_signals:
  "sent_signals command s = sent_signals command s' \<Longrightarrow>
     trace_inv command r0 s r = trace_inv command r0 s' r"
  by (simp add: trace_inv_def)

lemma sent_signals_frame [simp]:
  "sent_signals command (s\<lparr>su_limit := l\<rparr>) = sent_signals command s"
  "sent_signals command (s\<lparr>su_exit_status := e\<rparr>) = sent_signals command s"
  "sent_signals command (s\<lparr>su_cancelled_before_exit := b\<rparr>) = sent_signals command s"
  "sent_signals command (s\<lparr>su_cancel_too_late := b\<rparr>) = sent_signals command s"
  "sent_signals command (s\<lparr>su_kill_at := k\<rparr>) = sent_signals command s"
  "sent_signals command (s\<lparr>su_timed_out := b\<rparr>) = sent_signals command s"
  "sent_signals command (s\<lparr>su_yield_record_failed := b\<rparr>) = sent_signals command s"
  "sent_signals command (s\<lparr>su_empty_scans := n\<rparr>) = sent_signals command s"
  by (simp_all add: sent_signals_def split: option.splits)

lemma trace_inv_frame [simp]:
  "trace_inv command r0 (s\<lparr>su_limit := l\<rparr>) r = trace_inv command r0 s r"
  "trace_inv command r0 (s\<lparr>su_exit_status := e\<rparr>) r = trace_inv command r0 s r"
  "trace_inv command r0 (s\<lparr>su_cancelled_before_exit := b\<rparr>) r = trace_inv command r0 s r"
  "trace_inv command r0 (s\<lparr>su_cancel_too_late := b\<rparr>) r = trace_inv command r0 s r"
  "trace_inv command r0 (s\<lparr>su_kill_at := k\<rparr>) r = trace_inv command r0 s r"
  "trace_inv command r0 (s\<lparr>su_timed_out := b\<rparr>) r = trace_inv command r0 s r"
  "trace_inv command r0 (s\<lparr>su_yield_record_failed := b\<rparr>) r = trace_inv command r0 s r"
  "trace_inv command r0 (s\<lparr>su_empty_scans := n\<rparr>) r = trace_inv command r0 s r"
  by (rule trace_inv_signals, simp)+

lemma trace_inv_act:
  assumes "trace_inv command r0 s r"
    and "sent_signals command s' = sent_signals command s @ filter is_signal [a]"
    and "a \<in> {Wrote TIMEOUT_FILE, Wrote YIELD_SENT_FILE} \<union> Collect is_signal"
    and "ad_exists dir = ad_exists (ru_dir r)" and "ad_result dir = ad_result (ru_dir r)"
    and "a \<noteq> Wrote YIELD_SENT_FILE \<longrightarrow> ad_yield_sent dir = ad_yield_sent (ru_dir r)"
    and "\<And>pid sig. a = SignalLeader pid sig \<Longrightarrow> ad_yield_sent (ru_dir r) \<noteq> Absent"
  shows "trace_inv command r0 s' (act a (r\<lparr>ru_dir := dir\<rparr>))"
proof -
  obtain mid where mid: "ru_actions r = ru_actions r0 @ mid" "filter is_signal mid = sent_signals command s"
    "set mid \<subseteq> {Wrote TIMEOUT_FILE, Wrote YIELD_SENT_FILE} \<union> Collect is_signal"
    "ad_yield_sent (ru_dir r) \<noteq> Absent \<longrightarrow> ad_yield_sent (ru_dir r0) \<noteq> Absent \<or> Wrote YIELD_SENT_FILE \<in> set mid"
    "recorded_first (ad_yield_sent (ru_dir r0) \<noteq> Absent) mid"
    using assms(1) by (auto simp: trace_inv_def)
  have "recorded_first (ad_yield_sent (ru_dir r0) \<noteq> Absent) (mid @ [a])"
    using mid(4,5) assms(7) by (cases a) (auto simp: recorded_first_append)
  then show ?thesis
    using assms(1-6) mid unfolding trace_inv_def
    by (auto simp: act_def intro!: exI [of _ "mid @ [a]"])
qed

lemma trace_inv_signal:
  assumes "trace_inv command r0 s r" and "is_signal a"
    and "sent_signals command s' = sent_signals command s @ [a]"
    and "\<And>pid sig. a = SignalLeader pid sig \<Longrightarrow> ad_yield_sent (ru_dir r) \<noteq> Absent"
  shows "trace_inv command r0 s' (act a r)"
  using trace_inv_act [of command r0 s r s' a "ru_dir r"] assms by simp

lemma trace_inv_write:
  assumes "trace_inv command r0 s r" and "runner_write fault name exclusive present put r = (err, r')"
    and "name \<in> {TIMEOUT_FILE, YIELD_SENT_FILE}"
    and "\<And>d. ad_exists (put d) = ad_exists d" and "\<And>d. ad_result (put d) = ad_result d"
    and "name \<noteq> YIELD_SENT_FILE \<Longrightarrow> ad_yield_sent (put (ru_dir r)) = ad_yield_sent (ru_dir r)"
  shows "trace_inv command r0 s r'"
  using assms(2)
proof (cases rule: runner_write_cases)
  case 2
  then show ?thesis
    using trace_inv_act [of command r0 s r s "Wrote name" "put (ru_dir r)"] assms by auto
qed (use assms in simp)

section \<open>Stages of an iteration\<close>

lemma flags_inv_append:
  "flags_inv command started seen s \<Longrightarrow> flags_inv command started (seen @ ys) s"
  unfolding flags_inv_def by (auto intro: cancelled_in_time_append)

lemma sup_inv_observe:
  assumes "sup_inv command pid started r0 seen s r" and "observe_exit p s = Inr s1"
    and "s2 = count_scan (group_drained p s1) s1"
  shows "sup_inv command pid started r0 (seen @ [p]) s2 r"
proof -
  have s1: "s1 = s\<lparr>su_exit_status := first_exit (seen @ [p])\<rparr>"
    using assms(1,2)
    by (auto simp: sup_inv_def observe_exit_def first_exit_append bindE_eq_Inr split: if_splits option.splits sum.splits)
  have "flags_inv command started (seen @ [p]) s2"
    using flags_inv_append [of command started seen s "[p]"] assms(1)
    by (simp add: s1 assms(3) count_scan_def sup_inv_def flags_inv_def)
  moreover have "scan_inv (seen @ [p]) s2"
  proof (cases "group_drained p s1")
    case True
    then show ?thesis
      using assms(1) by (cases "su_empty_scans s")
        (auto simp: s1 assms(3) count_scan_def sup_inv_def scan_inv_def group_drained_def)
  qed (simp add: assms(3) count_scan_def scan_inv_def)
  ultimately show ?thesis
    using assms(1) by (simp add: sup_inv_def s1 assms(3) count_scan_def)
qed

text \<open>
  A stage behind the scan changes neither the observed exit nor the scans; \<open>p\<close> is the iteration
  in progress, and the limit in force is the one it read unless a timeout is committed.
\<close>

definition stage_inv :: "command_file \<Rightarrow> nat \<Rightarrow> runner \<Rightarrow> poll list \<Rightarrow> poll \<Rightarrow> supervision \<times> runner \<Rightarrow> bool" where
  "stage_inv command started r0 seen p = (\<lambda>(s, r).
     flags_inv command started (seen @ [p]) s \<and> trace_inv command r0 s r \<and>
     (su_timed_out s \<or> su_limit s = observed_time_limit (po_limit p) command))"

definition same_scan :: "supervision \<Rightarrow> supervision \<Rightarrow> bool" where
  "same_scan s s' \<longleftrightarrow> su_pid s' = su_pid s \<and> su_exit_status s' = su_exit_status s \<and>
     su_empty_scans s' = su_empty_scans s"

lemma stage_refresh_limit:
  assumes "flags_inv command started (seen @ [p]) s" and "trace_inv command r0 s r"
  shows "stage_inv command started r0 seen p (refresh_limit command p s, r)"
    and "same_scan s (refresh_limit command p s)"
proof -
  have "flags_inv command started (seen @ [p]) (refresh_limit command p s)"
    using assms(1) by (cases "su_timed_out s") (simp_all add: refresh_limit_def flags_inv_def)
  then show "stage_inv command started r0 seen p (refresh_limit command p s, r)"
    using assms(2) by (simp add: stage_inv_def refresh_limit_def)
  show "same_scan s (refresh_limit command p s)"
    by (simp add: refresh_limit_def same_scan_def)
qed

lemma deadline_passed:
  assumes "flags_inv command started (seen @ [p]) s" and "deadline_expired p s"
    and "su_timed_out s \<or> su_limit s = observed_time_limit (po_limit p) command"
  shows "\<exists>q\<in>set (seen @ [p]). limit_passed command started q"
    and "\<not> su_timed_out s \<Longrightarrow> limit_passed command started p \<and> ll_ms (su_limit s) \<noteq> None"
proof -
  show "\<not> su_timed_out s \<Longrightarrow> limit_passed command started p \<and> ll_ms (su_limit s) \<noteq> None"
    using assms by (auto simp: flags_inv_def deadline_expired_def limit_passed_def split: option.splits)
  then show "\<exists>q\<in>set (seen @ [p]). limit_passed command started q"
    using assms(1) by (cases "su_timed_out s") (auto simp: flags_inv_def)
qed

text \<open>Sending SIGTERM, and arming the escalation.\<close>

lemma send_term_eq:
  "send_term (s, r) =
     (s\<lparr>su_term_sent := True\<rparr>, if su_term_sent s then r else act (SignalGroup (su_pid s) SIGTERM) r)"
  by (simp add: send_term_def)

lemma trace_send_term:
  assumes "trace_inv command r0 s r" and "su_kill_sent s \<longrightarrow> su_term_sent s"
    and "send_term (s, r) = (s', r')"
  shows "trace_inv command r0 s' r'"
proof (cases "su_term_sent s")
  case False
  then have "sent_signals command s' = sent_signals command s @ [SignalGroup (su_pid s) SIGTERM]"
    using assms(2,3) by (auto simp: send_term_eq sent_signals_def split: option.splits)
  then show ?thesis
    using trace_inv_signal [OF assms(1), of "SignalGroup (su_pid s) SIGTERM" s'] False assms(3)
    by (auto simp: send_term_eq)
next
  case True
  then have "s' = s" "r' = r" using assms(3) by (auto simp: send_term_eq)
  then show ?thesis using assms(1) by simp
qed

lemma sent_signals_arm_kill [simp]: "sent_signals command (arm_kill command' now s) = sent_signals command s"
  by (simp add: arm_kill_def)

lemma trace_inv_arm_kill [simp]: "trace_inv command r0 (arm_kill command' now s) r = trace_inv command r0 s r"
  by (simp add: arm_kill_def)

lemma flags_arm_kill:
  assumes "flags_inv command started seen (s\<lparr>su_timed_out := False\<rparr>)" and "su_term_sent s"
    and "q \<in> set seen" and "runner_kill_due command started q (now + ns_of_ms (cf_cancel_grace_ms command))"
    and "su_timed_out s \<longrightarrow> ll_ms (su_limit s) \<noteq> None \<and> (\<exists>q\<in>set seen. limit_passed command started q)"
  shows "flags_inv command started seen (arm_kill command now s)"
  using assms by (auto simp: arm_kill_def flags_inv_def)

lemma flags_term:
  assumes "flags_inv command started seen s"
    and "q \<in> set seen" and "limit_passed command started q \<or> cancel_seen command q"
  shows "flags_inv command started seen (s\<lparr>su_term_sent := True\<rparr>)"
  using assms by (auto simp: flags_inv_def)

lemma flags_not_timed_out:
  "flags_inv command started seen s \<Longrightarrow> flags_inv command started seen (s\<lparr>su_timed_out := False\<rparr>)"
  by (simp add: flags_inv_def)

lemma stage_enforce_deadline:
  assumes "stage_inv command started r0 seen p (s, r)"
    and "enforce_deadline command p drained cancel (s, r) = (s', r')"
  shows "stage_inv command started r0 seen p (s', r') \<and> same_scan s s'"
proof (cases "deadline_expired p s \<and> \<not> drained")
  case True
  define b where "b = (su_timed_out s \<or> limit_classifies p cancel s)"
  define s1 where "s1 = s\<lparr>su_timed_out := b\<rparr>"
  obtain r1 where r1: "(if limit_classifies p cancel s \<and> \<not> su_timed_out s
      then commit_timeout command p (s, r) else (s, r)) = (s1, r1)" and "trace_inv command r0 s r1"
  proof (cases "limit_classifies p cancel s \<and> \<not> su_timed_out s")
    case True
    moreover have "trace_inv command r0 s (snd (commit_timeout command p (s, r)))"
      using assms(1) by (auto simp: stage_inv_def commit_timeout_def split: option.split
          intro: trace_inv_write [OF _ surjective_pairing])
    ultimately show ?thesis using that [of "snd (commit_timeout command p (s, r))"]
      by (auto simp: commit_timeout_def s1_def b_def)
  qed (use assms(1) in \<open>auto simp: stage_inv_def s1_def b_def intro!: that [of r]\<close>)
  have flags: "flags_inv command started (seen @ [p]) s"
    and limit: "su_timed_out s \<or> su_limit s = observed_time_limit (po_limit p) command"
    using assms(1) by (auto simp: stage_inv_def)
  note passed = deadline_passed [OF flags _ limit]
  obtain s2 r2 where s2: "send_term (s1, r1) = (s2, r2)" by (metis prod.exhaust)
  have "trace_inv command r0 s1 r1"
    using \<open>trace_inv command r0 s r1\<close>
    by (simp add: s1_def)
  then have "trace_inv command r0 s2 r2"
    using trace_send_term [OF _ _ s2] flags by (auto simp: flags_inv_def s1_def)
  have s': "s' = arm_kill command (po_deadline_at p) s2" "r' = r2"
    using assms(2) True by (auto simp: enforce_deadline_def r1 s2)
  have s2_eq: "s2 = s\<lparr>su_timed_out := b, su_term_sent := True\<rparr>"
    using s2 by (auto simp: send_term_eq s1_def)
  obtain q where q: "q \<in> set (seen @ [p])" "limit_passed command started q"
    using passed(1) True by blast
  have "flags_inv command started (seen @ [p]) s'"
  proof (cases "su_timed_out s")
    case True
    then show ?thesis
      using flags by (auto simp: s' s2_eq b_def arm_kill_def flags_inv_def)
  next
    case False
    then have p: "limit_passed command started p" "ll_ms (su_limit s) \<noteq> None"
      using passed(2) True by blast+
    have "flags_inv command started (seen @ [p]) (s2\<lparr>su_timed_out := False\<rparr>)"
      using flags_term [OF flags, of p] p False by (simp add: s2_eq flags_inv_def)
    then show ?thesis
      using p flags_arm_kill [of command started "seen @ [p]" s2 p "po_deadline_at p"]
      by (auto simp: s' s2_eq runner_kill_due_def)
  qed
  moreover have "su_timed_out s' \<or> su_limit s' = observed_time_limit (po_limit p) command"
    using limit by (auto simp: s' s2_eq b_def arm_kill_def)
  ultimately show ?thesis
    using \<open>trace_inv command r0 s2 r2\<close> by (simp add: stage_inv_def s' same_scan_def) (simp add: s2_eq arm_kill_def)
qed (use assms in \<open>auto simp: enforce_deadline_def same_scan_def\<close>)

lemma flags_cancelled:
  assumes "flags_inv command started seen s" and "su_term_sent s" and "cancelled_in_time command seen"
  shows "flags_inv command started seen (s\<lparr>su_cancelled_before_exit := True\<rparr>)"
  using assms by (simp add: flags_inv_def)

lemma stage_deliver_cancel:
  assumes "stage_inv command started r0 seen p (s, r)"
    and "su_exit_status s = first_exit (seen @ [p])"
    and "deliver_cancel command p (read_cancel (po_cancel p) (cf_token command)) (s, r) = (s', r')"
  shows "stage_inv command started r0 seen p (s', r') \<and> same_scan s s'"
proof (cases "read_cancel (po_cancel p) (cf_token command)")
  case None
  then show ?thesis using assms by (simp add: deliver_cancel_def same_scan_def)
next
  case (Some c)
  define s1 where "s1 = (if su_timed_out s then s else if su_exit_status s = None
      then s\<lparr>su_cancelled_before_exit := True\<rparr> else s\<lparr>su_cancel_too_late := True\<rparr>)"
  obtain s2 r2 where s2: "send_term (s1, r) = (s2, r2)" by (metis prod.exhaust)
  have s': "s' = (if caf_force c then arm_kill command (po_cancel_at p) s2 else s2)" "r' = r2"
    using assms(3) Some s2 by (auto simp: deliver_cancel_def s1_def Let_def)
  have flags: "flags_inv command started (seen @ [p]) s" and trace: "trace_inv command r0 s r"
    and limit: "su_timed_out s \<or> su_limit s = observed_time_limit (po_limit p) command"
    using assms(1) by (auto simp: stage_inv_def)
  have s2_eq: "s2 = s1\<lparr>su_term_sent := True\<rparr>"
    using s2 by (simp add: send_term_eq)
  have "cancelled_in_time command (seen @ [p])" if running: "su_exit_status s = None"
    using running assms(2) Some unfolding cancelled_in_time_def cancel_seen_def by fastforce
  then have "flags_inv command started (seen @ [p]) s2"
    using flags_term [OF flags, of p] Some
    by (auto simp: s2_eq s1_def cancel_seen_def flags_inv_def)
  moreover from this have "su_timed_out s2 \<longrightarrow> ll_ms (su_limit s2) \<noteq> None \<and>
      (\<exists>q\<in>set (seen @ [p]). limit_passed command started q)"
    unfolding flags_inv_def by blast
  ultimately have "flags_inv command started (seen @ [p]) s'"
    using flags_arm_kill [of command started "seen @ [p]" s2 p "po_cancel_at p"] Some
    by (simp add: s' runner_kill_due_def forced_cancel_seen_def s2_eq flags_not_timed_out)
  moreover have "trace_inv command r0 s1 r"
    using trace by (simp add: s1_def)
  then have "trace_inv command r0 s2 r2"
    using trace_send_term [OF _ _ s2] flags by (auto simp: flags_inv_def s1_def)
  moreover have "su_timed_out s' \<or> su_limit s' = observed_time_limit (po_limit p) command"
    using limit by (auto simp: s' s2_eq s1_def arm_kill_def)
  ultimately show ?thesis
    by (simp add: stage_inv_def s' same_scan_def) (simp add: s2_eq s1_def arm_kill_def)
qed

lemma record_yield_trace:
  assumes "record_yield command p r = (recorded, r')" and "trace_inv command r0 s r"
  shows "trace_inv command r0 s r' \<and> (recorded \<longrightarrow> ad_yield_sent (ru_dir r') \<noteq> Absent)"
proof -
  define put where "put = (\<lambda>d::attempt_dir. d\<lparr>ad_yield_sent := Present \<lparr>ysf_token = cf_token command, ysf_sent_at = po_yield_now p\<rparr>\<rparr>)"
  obtain err where w: "runner_write (po_yield_fault p) YIELD_SENT_FILE True (ad_yield_sent (ru_dir r) \<noteq> Absent) put r =
      (err, r')" and "recorded = (case err of Some (WriteFailed _) \<Rightarrow> False | _ \<Rightarrow> True)"
    using assms(1) by (auto simp: record_yield_def put_def split: prod.splits option.splits write_error.splits)
  moreover have "ad_yield_sent (ru_dir r') \<noteq> Absent" if "err = None"
    using runner_write_published [OF w [unfolded that]] by (simp add: put_def)
  moreover have "ad_yield_sent (ru_dir r') \<noteq> Absent" if "err = Some (AlreadyExists e)" for e
    using w that
    by (auto simp: runner_write_def store_artifact_def split: if_splits option.splits disk_fault.splits)
  ultimately show ?thesis
    using trace_inv_write [OF assms(2) w] by (auto simp: put_def split: option.splits write_error.splits)
qed

lemma flags_yield_failed:
  "flags_inv command started seen s \<Longrightarrow> flags_inv command started seen (s\<lparr>su_yield_record_failed := b\<rparr>)"
  by (simp add: flags_inv_def)

lemma flags_yield_sent:
  "flags_inv command started seen s \<Longrightarrow> q \<in> set seen \<Longrightarrow> yield_due command q \<Longrightarrow>
     cf_yield_policy command \<noteq> None \<Longrightarrow> flags_inv command started seen (s\<lparr>su_yield_sent := True\<rparr>)"
  by (auto simp: flags_inv_def)

lemma stage_deliver_yield:
  assumes "stage_inv command started r0 seen p (s, r)"
    and "deliver_yield command p (s, r) = (err, s', r')"
  shows "stage_inv command started r0 seen p (s', r') \<and> same_scan s s'"
proof (cases "cf_yield_policy command")
  case (Some policy)
  show ?thesis
  proof (cases "\<not> su_yield_sent s \<and> \<not> su_term_sent s \<and> su_exit_status s = None \<and>
      read_yield (po_yield p) (cf_token command) \<noteq> None")
    case due: True
    obtain recorded r1 where rec: "record_yield command p r = (recorded, r1)" by (metis prod.exhaust)
    have trace: "trace_inv command r0 s r1" and ready: "recorded \<longrightarrow> ad_yield_sent (ru_dir r1) \<noteq> Absent"
      using record_yield_trace [OF rec] assms(1) by (auto simp: stage_inv_def)
    consider (quiet) "s' = s \<or> s' = s\<lparr>su_yield_record_failed := True\<rparr>" "r' = r1"
      | (sent) "recorded" "peek_exit (po_exit_again p) = Inr None" "s' = s\<lparr>su_yield_sent := True\<rparr>"
          "r' = act (SignalLeader (su_pid s) (yp_signal policy)) r1"
      using assms(2) Some due rec
      by (auto simp: deliver_yield_def split: bool.splits sum.splits option.splits)
    then show ?thesis
    proof cases
      case quiet
      then show ?thesis
        using assms(1) trace flags_yield_failed [of command started "seen @ [p]" s]
        by (elim disjE) (simp_all add: stage_inv_def same_scan_def)
    next
      case sent
      have "su_kill_sent s \<longrightarrow> su_term_sent s"
        using assms(1) by (simp add: stage_inv_def flags_inv_def)
      then have "sent_signals command s' = sent_signals command s @ [SignalLeader (su_pid s) (yp_signal policy)]"
        using due Some by (simp add: sent sent_signals_def)
      then have "trace_inv command r0 s' r'"
        unfolding sent(4) using ready sent(1) by (intro trace_inv_signal [OF trace]) auto
      moreover have "yield_due command p"
        using due sent by (simp add: yield_due_def)
      ultimately show ?thesis
        using assms(1) Some flags_yield_sent [of command started "seen @ [p]" s p]
        by (simp add: stage_inv_def same_scan_def sent)
    qed
  qed (use assms Some in \<open>auto simp: deliver_yield_def same_scan_def\<close>)
qed (use assms in \<open>simp add: deliver_yield_def same_scan_def\<close>)

lemma stage_escalate:
  assumes "stage_inv command started r0 seen p (s, r)" and "escalate p (s, r) = (s', r')"
  shows "stage_inv command started r0 seen p (s', r') \<and> same_scan s s'"
proof (cases "\<exists>at. su_kill_at s = Some at \<and> at \<le> po_kill_check_at p")
  case True
  then obtain at where at: "su_kill_at s = Some at" "at \<le> po_kill_check_at p" by blast
  have s': "s' = s\<lparr>su_kill_sent := True, su_kill_at := None\<rparr>" "r' = act (SignalGroup (su_pid s) SIGKILL) r"
    using assms(2) at by (auto simp: escalate_def)
  have flags: "su_term_sent s" "\<not> su_kill_sent s" "\<exists>q\<in>set (seen @ [p]). runner_kill_due command started q at"
    using assms(1) at by (auto simp: stage_inv_def flags_inv_def)
  have "sent_signals command s' = sent_signals command s @ [SignalGroup (su_pid s) SIGKILL]"
    using flags by (simp add: s' sent_signals_def split: option.splits)
  then have "trace_inv command r0 s' r'"
    unfolding s'(2) using assms(1) by (intro trace_inv_signal [of command r0 s r]) (auto simp: stage_inv_def)
  moreover have "\<exists>q\<in>set (seen @ [p]). \<exists>p'\<in>set (seen @ [p]). \<exists>at.
      runner_kill_due command started q at \<and> at \<le> po_kill_check_at p'"
    using flags(3) at(2) by auto
  ultimately show ?thesis
    using assms(1) flags(1) by (simp add: stage_inv_def same_scan_def s' flags_inv_def)
qed (use assms in \<open>auto simp: escalate_def same_scan_def split: option.splits if_splits\<close>)

section \<open>The loop\<close>

lemma sup_inv_stage:
  assumes "sup_inv command pid started r0 (seen @ [p]) s r"
    and "stage_inv command started r0 seen p (s', r')" and "same_scan s s'"
  shows "sup_inv command pid started r0 (seen @ [p]) s' r'"
  using assms by (auto simp: sup_inv_def stage_inv_def same_scan_def scan_inv_def)

lemma same_scan_trans: "same_scan a b \<Longrightarrow> same_scan b c \<Longrightarrow> same_scan a c"
  by (simp add: same_scan_def)

fun poll_state :: "poll_result \<Rightarrow> (supervision \<Rightarrow> runner \<Rightarrow> bool) \<Rightarrow> bool" where
  "poll_state (PollFailed e r) P = (\<exists>s. P s r)"
| "poll_state (PollDone s r) P = P s r"
| "poll_state (PollNext s r) P = P s r"

lemma control_step_stages:
  obtains s2 r2 s3 r3 err s4 r4 s5 r5
  where "enforce_deadline command p drained (read_cancel (po_cancel p) (cf_token command))
      (refresh_limit command p s, r) = (s2, r2)"
    and "deliver_cancel command p (read_cancel (po_cancel p) (cf_token command)) (s2, r2) = (s3, r3)"
    and "deliver_yield command p (s3, r3) = (err, s4, r4)" and "escalate p (s4, r4) = (s5, r5)"
    and "control_step command p drained s r = (case err of Some e \<Rightarrow> PollFailed e r4 | None \<Rightarrow> PollNext s5 r5)"
proof -
  let ?cancel = "read_cancel (po_cancel p) (cf_token command)"
  obtain s2 r2 where s2: "enforce_deadline command p drained ?cancel (refresh_limit command p s, r) = (s2, r2)"
    by (metis prod.exhaust)
  obtain s3 r3 where s3: "deliver_cancel command p ?cancel (s2, r2) = (s3, r3)" by (metis prod.exhaust)
  obtain err s4 r4 where s4: "deliver_yield command p (s3, r3) = (err, s4, r4)" by (metis prod_cases3)
  obtain s5 r5 where s5: "escalate p (s4, r4) = (s5, r5)" by (metis prod.exhaust)
  show thesis
    using that [OF s2 s3 s4 s5] s2 s3 s4 s5 by (simp add: control_step_def split: option.split)
qed

lemma control_step_inv:
  assumes "sup_inv command pid started r0 (seen @ [p]) s r"
  shows "poll_state (control_step command p drained s r) (sup_inv command pid started r0 (seen @ [p]))"
proof -
  define s1 where "s1 = refresh_limit command p s"
  define cancel where "cancel = read_cancel (po_cancel p) (cf_token command)"
  obtain s2 r2 s3 r3 err s4 r4 s5 r5
    where s2: "enforce_deadline command p drained cancel (s1, r) = (s2, r2)"
      and s3: "deliver_cancel command p cancel (s2, r2) = (s3, r3)"
      and s4: "deliver_yield command p (s3, r3) = (err, s4, r4)"
      and s5: "escalate p (s4, r4) = (s5, r5)"
      and step: "control_step command p drained s r = (case err of Some e \<Rightarrow> PollFailed e r4 | None \<Rightarrow> PollNext s5 r5)"
    unfolding s1_def cancel_def by (rule control_step_stages)
  have 1: "stage_inv command started r0 seen p (s1, r)" "same_scan s s1"
    using stage_refresh_limit [of command started seen p s r0 r] assms by (auto simp: s1_def sup_inv_def)
  then have 2: "stage_inv command started r0 seen p (s2, r2)" "same_scan s s2"
    using stage_enforce_deadline [OF _ s2] same_scan_trans by blast+
  then have "su_exit_status s2 = first_exit (seen @ [p])"
    using assms by (simp add: same_scan_def sup_inv_def)
  then have 3: "stage_inv command started r0 seen p (s3, r3)" "same_scan s s3"
    using stage_deliver_cancel [OF 2(1) _ s3 [unfolded cancel_def]] 2(2) same_scan_trans by blast+
  then have 4: "stage_inv command started r0 seen p (s4, r4)" "same_scan s s4"
    using stage_deliver_yield [OF _ s4] same_scan_trans by blast+
  then have 5: "stage_inv command started r0 seen p (s5, r5)" "same_scan s s5"
    using stage_escalate [OF _ s5] same_scan_trans by blast+
  show ?thesis
    unfolding step using sup_inv_stage [OF assms 4] sup_inv_stage [OF assms 5] by (auto split: option.split)
qed

lemma supervise_poll_inv:
  assumes "sup_inv command pid started r0 seen s r"
  shows "(\<exists>e. supervise_poll command p s r = PollFailed e r) \<or>
    poll_state (supervise_poll command p s r) (sup_inv command pid started r0 (seen @ [p]))"
  using sup_inv_observe [OF assms _ refl, of p] control_step_inv
  by (auto simp: supervise_poll_def Let_def split: sum.split)

lemma supervise_poll_done:
  "supervise_poll command p s r = PollDone s' r' \<Longrightarrow> 2 \<le> su_empty_scans s' \<and> r' = r"
  by (auto simp: supervise_poll_def control_step_def Let_def split: sum.splits if_splits prod.splits option.splits)

lemma supervise_inv:
  assumes "sup_inv command pid started r0 seen s r"
  shows "case supervise command ps s r of
      Inl (e, r') \<Rightarrow> e \<noteq> RunOk \<and>
        (\<exists>used rest s'. ps = used @ rest \<and> sup_inv command pid started r0 (seen @ used) s' r')
    | Inr (s', r') \<Rightarrow>
        (\<exists>used rest. ps = used @ rest \<and> sup_inv command pid started r0 (seen @ used) s' r') \<and> 2 \<le> su_empty_scans s'"
  using assms
proof (induction ps arbitrary: seen s r)
  case Nil
  then show ?case by auto
next
  case (Cons p ps)
  show ?case
  proof (cases "supervise_poll command p s r")
    case (PollFailed e r')
    then have "(\<exists>s'. sup_inv command pid started r0 (seen @ []) s' r') \<or>
        (\<exists>s'. sup_inv command pid started r0 (seen @ [p]) s' r')"
      using supervise_poll_inv [OF Cons.prems, of p] Cons.prems by auto
    then obtain used rest s' where "p # ps = used @ rest" "sup_inv command pid started r0 (seen @ used) s' r'"
      by (metis append_Nil append_Cons)
    moreover have "supervise command (p # ps) s r = Inl (RunFailed e, r')" using PollFailed by simp
    ultimately show ?thesis by (simp only: sum.case prod.case) blast
  next
    case (PollDone s' r')
    then have "p # ps = [p] @ ps" "sup_inv command pid started r0 (seen @ [p]) s' r'"
      using supervise_poll_inv [OF Cons.prems, of p] by auto
    moreover have "supervise command (p # ps) s r = Inr (s', r')" using PollDone by simp
    ultimately show ?thesis
      using supervise_poll_done [OF PollDone] by (simp only: sum.case prod.case) blast
  next
    case (PollNext s' r')
    then have "sup_inv command pid started r0 (seen @ [p]) s' r'"
      using supervise_poll_inv [OF Cons.prems, of p] by auto
    note IH = Cons.IH [OF this]
    have step: "supervise command (p # ps) s r = supervise command ps s' r'" using PollNext by simp
    show ?thesis
    proof (cases "supervise command ps s' r'")
      case (Inl res)
      obtain e r2 where res: "res = (e, r2)" by (metis prod.exhaust)
      then have "e \<noteq> RunOk" using IH Inl by simp
      obtain used rest s2 where "ps = used @ rest" "sup_inv command pid started r0 ((seen @ [p]) @ used) s2 r2"
        using IH Inl res by auto
      then have "p # ps = (p # used) @ rest" "sup_inv command pid started r0 (seen @ p # used) s2 r2" by simp_all
      with \<open>e \<noteq> RunOk\<close> show ?thesis unfolding step Inl res by (simp only: sum.case prod.case) blast
    next
      case (Inr res)
      obtain s2 r2 where res: "res = (s2, r2)" by (metis prod.exhaust)
      then have "2 \<le> su_empty_scans s2" using IH Inr by simp
      obtain used rest where "ps = used @ rest" "sup_inv command pid started r0 ((seen @ [p]) @ used) s2 r2"
        using IH Inr res by auto
      then have "p # ps = (p # used) @ rest" "sup_inv command pid started r0 (seen @ p # used) s2 r2" by simp_all
      with \<open>2 \<le> su_empty_scans s2\<close> show ?thesis unfolding step Inr res by (simp only: sum.case prod.case) blast
    qed
  qed
qed

end
