(* ===== verification/Runner_Properties.thy ===== *)
theory Runner_Properties
  imports Runner_Proofs Reconcile
begin

unbundle bit_operations_syntax

text \<open>
  What a runner guarantees, whatever the daemon, the command and the clocks do, and wherever it
  dies: when it spawns the command, which signals it sends, what its result says, and that it
  returns once the process group is empty. The result is read with \<open>result_state\<close>, the daemon's
  classification of it.
\<close>

section \<open>Wait statuses\<close>

text \<open>
  The status \<open>peek_exit\<close> assembles decodes to what the kernel reported: the low byte of an exit
  code, or the signal that killed the command, with or without a core dump.
\<close>

lemma low_bits: "(0x7F :: 32 word) = mask 7" "(0xFF :: 32 word) = mask 8"
  by (simp_all add: mask_eq_exp_minus_1)

lemma bit_core_flag: "bit (0x80 :: 32 word) n \<longleftrightarrow> n = 7"
  using bit_exp_iff [where 'a = "32 word", of 7 n] by (auto simp: possible_bit_def)

lemma peek_exit_exited:
  assumes "si_pid info \<noteq> 0" and "si_code info = CLD_EXITED"
  shows "\<exists>status. peek_exit (Inr info) = Inr (Some status) \<and>
    status_code status = Some (uint (si_status info AND 0xFF)) \<and> status_signal status = None"
proof -
  let ?s = "si_status info AND mask 8"
  have "push_bit 8 ?s AND mask 7 = 0"
    by (rule bit_word_eqI) (auto simp: bit_simps)
  moreover have "drop_bit 8 (push_bit 8 ?s) AND mask 8 = ?s"
    by (rule bit_word_eqI) (auto simp: bit_simps)
  ultimately show ?thesis
    using assms by (simp add: peek_exit_def status_code_def status_signal_def low_bits Let_def)
qed

lemma peek_exit_killed:
  assumes "si_pid info \<noteq> 0" and "si_code info \<noteq> CLD_EXITED" and "0 < si_status info" "si_status info < 0x7F"
  shows "\<exists>status. peek_exit (Inr info) = Inr (Some status) \<and>
    status_code status = None \<and> status_signal status = Some (uint (si_status info))"
proof -
  have "unat (si_status info) < 2 ^ 7"
    using assms(4) by (simp add: word_less_nat_alt)
  then have "unat (take_bit 7 (si_status info)) = unat (si_status info)"
    unfolding unsigned_take_bit_eq by (rule take_bit_nat_eq_self)
  then have "si_status info AND mask 7 = si_status info"
    by (simp add: word_unat_eq_iff flip: take_bit_eq_mask)
  moreover have "(si_status info OR 0x80) AND mask 7 = si_status info AND mask 7"
    by (rule bit_word_eqI) (simp only: bit_and_iff bit_or_iff bit_mask_iff bit_core_flag, auto)
  ultimately show ?thesis
    using assms by (cases "si_code info") (auto simp: peek_exit_def status_code_def status_signal_def low_bits Let_def)
qed

section \<open>Phases\<close>

lemma publish_result_cases:
  assumes "publish_result fault now command outcome code signal message r = (e, r')"
  obtains "e \<noteq> RunOk" "r' = r"
  | result where "ad_result (ru_dir r) = Absent" "rf_token result = cf_token command" "rf_outcome result = outcome"
      "rf_exit_code result = code" "rf_term_signal result = signal" "rf_message result = message"
      "r' = act (Wrote RESULT_FILE) (r\<lparr>ru_dir := ru_dir r\<lparr>ad_result := Present result\<rparr>\<rparr>)"
proof -
  define result where "result = \<lparr>rf_token = cf_token command, rf_outcome = outcome, rf_exit_code = code,
    rf_term_signal = signal, rf_message = message, rf_finished_at = now\<rparr>"
  obtain err where w: "runner_write fault RESULT_FILE True (ad_result (ru_dir r) \<noteq> Absent)
      (\<lambda>d. d\<lparr>ad_result := Present result\<rparr>) r = (err, r')"
    and e: "e = (case err of Some e \<Rightarrow> RunFailed (write_error_text e) | None \<Rightarrow> RunOk)"
    using assms by (auto simp: publish_result_def result_def split: prod.splits)
  have changed: "ru_dir r\<lparr>ad_result := Present result\<rparr> \<noteq> ru_dir r" if "ad_result (ru_dir r) = Absent"
  proof
    assume "ru_dir r\<lparr>ad_result := Present result\<rparr> = ru_dir r"
    then have "ad_result (ru_dir r\<lparr>ad_result := Present result\<rparr>) = ad_result (ru_dir r)" by simp
    then show False using that by simp
  qed
  from w show thesis
  proof (cases rule: runner_write_cases)
    case 1
    have "err \<noteq> None"
    proof
      assume "err = None"
      from runner_write_published [OF w [unfolded this]] changed 1 show False by simp
    qed
    then show thesis using 1 e that(1) by auto
  next
    case 2
    then show thesis using that(2) [of result] by (simp add: result_def)
  qed
qed

lemma announce_cases:
  assumes "announce st r = x"
  obtains e r' acts where "x = Inl (e, r')" "e \<noteq> RunOk" "e \<noteq> RunPanic" "ru_actions r' = ru_actions r @ acts"
      "set acts \<subseteq> {Wrote IDENTITY_FILE}"
  | command r' acts ident where "x = Inr (command, r')" "st_locked st" "st_command st = Present command"
      "ru_actions r' = ru_actions r @ acts" "set acts \<subseteq> {Wrote IDENTITY_FILE}"
      "ru_dir r' = ru_dir r\<lparr>ad_identity := Present ident\<rparr>" "if_token ident = cf_token command"
      "if_runner_pid ident = st_pid st"
proof -
  have trace: "\<exists>acts. ru_actions r' = ru_actions r @ acts \<and> set acts \<subseteq> {Wrote IDENTITY_FILE}"
    if "runner_write (st_identity_fault st) IDENTITY_FILE False present put r = (err, r')" for present put err r'
    using that by (cases rule: runner_write_cases) (auto simp: act_def)
  show thesis
    using assms that trace
    by (fastforce simp: announce_def dest: runner_write_published
        split: option.splits if_splits artifact.splits prod.splits)
qed

text \<open>
  The start artifact with the runner's token is found in an iteration before which, and in which, no
  cancellation is read, and before which no start artifact is seen and the wait has not expired.
\<close>

definition start_granted :: "command_file \<Rightarrow> nat \<Rightarrow> wait_poll list \<Rightarrow> bool" where
  "start_granted command deadline ws \<longleftrightarrow>
     (\<exists>pre w post start. ws = pre @ w # post \<and> wp_start w = Present start \<and> sf_token start = cf_token command \<and>
        (\<forall>v\<in>set (pre @ [w]). read_cancel (wp_cancel v) (cf_token command) = None) \<and>
        (\<forall>v\<in>set pre. wp_start v = Absent \<and> wp_instant v < deadline))"

lemma start_granted_Cons:
  assumes "start_granted command deadline ws" and "read_cancel (wp_cancel w) (cf_token command) = None"
    and "wp_start w = Absent" and "wp_instant w < deadline"
  shows "start_granted command deadline (w # ws)"
proof -
  obtain pre v post start where "ws = pre @ v # post" "wp_start v = Present start" "sf_token start = cf_token command"
    "\<forall>u\<in>set (pre @ [v]). read_cancel (wp_cancel u) (cf_token command) = None"
    "\<forall>u\<in>set pre. wp_start u = Absent \<and> wp_instant u < deadline"
    using assms(1) unfolding start_granted_def by blast
  then show ?thesis
    using assms(2-4) unfolding start_granted_def
    by - (rule exI [of _ "w # pre"], rule exI [of _ v], auto)
qed

lemma publish_result_trace:
  assumes "publish_result fault now command outcome code signal message r = (e, r')"
  shows "e \<noteq> RunPanic \<and> (\<exists>acts. ru_actions r' = ru_actions r @ acts \<and> set acts \<subseteq> {Wrote RESULT_FILE})"
proof -
  have "e \<noteq> RunPanic"
    using assms by (auto simp: publish_result_def Let_def split: prod.splits option.splits)
  from assms show ?thesis by (cases rule: publish_result_cases) (use \<open>e \<noteq> RunPanic\<close> in \<open>auto simp: act_def\<close>)
qed

lemma await_authorization_cases:
  "case await_authorization command deadline ws r of
     Inl (e, r') \<Rightarrow> e \<noteq> RunPanic \<and> (\<exists>acts. ru_actions r' = ru_actions r @ acts \<and> set acts \<subseteq> {Wrote RESULT_FILE})
   | Inr r' \<Rightarrow> r' = r \<and> start_granted command deadline ws"
proof (induction ws)
  case (Cons w ws)
  let ?publish = "\<lambda>outcome message. publish_result (wp_result_fault w) (wp_now w) command outcome None None (Some message) r"
  have published: "case ?publish outcome message of (e, r') \<Rightarrow> e \<noteq> RunPanic \<and>
      (\<exists>acts. ru_actions r' = ru_actions r @ acts \<and> set acts \<subseteq> {Wrote RESULT_FILE})" for outcome message
    using publish_result_trace by (auto split: prod.split)
  show ?case
  proof (cases "read_cancel (wp_cancel w) (cf_token command)")
    case None
    show ?thesis
    proof (cases "wp_start w")
      case Absent
      then show ?thesis
        using None Cons.IH published start_granted_Cons [of command deadline ws w]
        by (auto simp: not_le split: sum.splits)
    next
      case (Present start)
      have "start_granted command deadline (w # ws)" if token: "sf_token start = cf_token command"
        using token Present None unfolding start_granted_def by (intro exI [of _ "[]"]) auto
      then show ?thesis using None Present published by simp
    qed (use None published in simp)
  qed (use published in simp)
qed simp

lemma launch_command_cases:
  assumes "launch_command command la r = x"
  obtains (unlaunched) e r' acts where "x = Inl (e, r')" "ru_actions r' = ru_actions r @ acts"
      "set acts \<subseteq> {Wrote RESULT_FILE}" "e = RunPanic \<longrightarrow> cf_argv command = []"
  | (unrecorded) e r' pid acts where "x = Inl (e, r')" "e \<noteq> RunOk" "e \<noteq> RunPanic" "la_spawn la = Inr pid"
      "ru_actions r' = ru_actions r @ SpawnCommand pid # acts" "set acts \<subseteq> {Wrote EXEC_FILE}"
  | (launched) r' pid acts exec where "x = Inr (new_supervision command la pid, r')" "la_spawn la = Inr pid"
      "ru_actions r' = ru_actions r @ SpawnCommand pid # acts" "set acts \<subseteq> {Wrote EXEC_FILE}"
      "ru_dir r' = ru_dir r\<lparr>ad_exec := Present exec\<rparr>"
proof (cases "la_log_error la = None \<and> cf_argv command \<noteq> []")
  case runs: True
  show thesis
  proof (cases "la_spawn la")
    case (Inl err)
    obtain e r' where p: "publish_result (la_result_fault la) (la_result_now la) command RO_LaunchFailed None None
        (Some (''launch failed: '' @ err)) r = (e, r')" by (metis prod.exhaust)
    then show thesis
      using publish_result_trace [OF p] assms runs Inl unlaunched by (auto simp: launch_command_def)
  next
    case (Inr pid)
    show thesis
    proof (cases "boot_id (la_proc la)")
      case None
      then show thesis
        using unrecorded [where e = "RunFailed boot_id_error" and r' = "act (SpawnCommand pid) r" and pid = pid and acts = "[]"] assms runs Inr
        by (simp add: launch_command_def act_def Let_def)
    next
      case (Some boot)
      define exec where "exec = \<lparr>xf_token = cf_token command, xf_pid = pid, xf_pgid = pid,
        xf_start_time = (case proc_stat (la_proc la) pid of Some stat \<Rightarrow> pst_start_time stat | None \<Rightarrow> 0),
        xf_boot_id = boot, xf_started_at = Some (la_now la)\<rparr>"
      obtain err r' where w: "runner_write (la_exec_fault la) EXEC_FILE True (ad_exec (ru_dir r) \<noteq> Absent)
          (\<lambda>d. d\<lparr>ad_exec := Present exec\<rparr>) (act (SpawnCommand pid) r) = (err, r')" by (metis prod.exhaust)
      have acts: "\<exists>acts. ru_actions r' = ru_actions r @ SpawnCommand pid # acts \<and> set acts \<subseteq> {Wrote EXEC_FILE}"
        using w by (cases rule: runner_write_cases) (auto simp: act_def)
      have x: "x = (case err of Some e \<Rightarrow> Inl (RunFailed (write_error_text e), r')
          | None \<Rightarrow> Inr (new_supervision command la pid, r'))"
        using assms runs Inr Some w by (auto simp: launch_command_def Let_def exec_def act_def split: option.split)
      show thesis
      proof (cases err)
        case None
        from runner_write_published [OF w [unfolded None]] acts show thesis
          using launched [where exec = exec] Inr x None by (auto simp: act_def)
      next
        case (Some e)
        then show thesis using acts unrecorded Inr x by auto
      qed
    qed
  qed
next
  case False
  then show thesis
    using unlaunched [where acts = "[]"] assms by (cases "la_log_error la") (auto simp: launch_command_def)
qed

section \<open>The whole run\<close>

text \<open>
  A run ends before the spawn, at the record of the spawned command, or in the supervision of it.
\<close>

lemma runner_run_cases:
  assumes "runner_run i r0 = (e, r)"
  obtains (early) acts where "ru_actions r = ru_actions r0 @ acts"
      "set acts \<subseteq> {Wrote IDENTITY_FILE, Wrote RESULT_FILE}"
      "e = RunPanic \<longrightarrow> (\<exists>command. st_command (ri_start i) = Present command \<and> cf_argv command = [])"
  | (unrecorded) command pid acts acts' where "st_locked (ri_start i)" "st_command (ri_start i) = Present command"
      "start_granted command (st_instant (ri_start i) + ns_of_ms (cf_start_wait_ms command)) (ri_waits i)"
      "la_spawn (ri_launch i) = Inr pid" "e \<noteq> RunOk" "e \<noteq> RunPanic"
      "ru_actions r = ru_actions r0 @ acts @ SpawnCommand pid # acts'"
      "set acts \<subseteq> {Wrote IDENTITY_FILE}" "set acts' \<subseteq> {Wrote EXEC_FILE}"
  | (supervised) command pid acts acts' r1 where "st_locked (ri_start i)" "st_command (ri_start i) = Present command"
      "start_granted command (st_instant (ri_start i) + ns_of_ms (cf_start_wait_ms command)) (ri_waits i)"
      "la_spawn (ri_launch i) = Inr pid"
      "ru_actions r1 = ru_actions r0 @ acts @ SpawnCommand pid # acts'"
      "set acts \<subseteq> {Wrote IDENTITY_FILE}" "set acts' \<subseteq> {Wrote EXEC_FILE}"
      "ad_result (ru_dir r1) = ad_result (ru_dir r0)" "ad_yield_sent (ru_dir r1) = ad_yield_sent (ru_dir r0)"
      "(e, r) = (case supervise command (ri_polls i) (new_supervision command (ri_launch i) pid) r1 of
         Inl res \<Rightarrow> res | Inr (s, r) \<Rightarrow> conclude command (ri_final i) s r)"
proof (rule announce_cases [OF refl, of "ri_start i" r0])
  fix e' r' acts
  assume "announce (ri_start i) r0 = Inl (e', r')" "e' \<noteq> RunOk" "e' \<noteq> RunPanic"
    "ru_actions r' = ru_actions r0 @ acts" "set acts \<subseteq> {Wrote IDENTITY_FILE}"
  then show thesis using early [of acts] assms by (auto simp: runner_run_def)
next
  fix command ra acts ident
  assume ann: "announce (ri_start i) r0 = Inr (command, ra)" "st_locked (ri_start i)"
    "st_command (ri_start i) = Present command" "ru_actions ra = ru_actions r0 @ acts"
    "set acts \<subseteq> {Wrote IDENTITY_FILE}" "ru_dir ra = ru_dir r0\<lparr>ad_identity := Present ident\<rparr>"
  define deadline where "deadline = st_instant (ri_start i) + ns_of_ms (cf_start_wait_ms command)"
  note await = await_authorization_cases [where command = command and deadline = deadline and ws = "ri_waits i" and r = ra]
  show thesis
  proof (cases "await_authorization command deadline (ri_waits i) ra")
    case (Inl res)
    then obtain acts' where "res = (e, r)" "e \<noteq> RunPanic" "ru_actions r = ru_actions ra @ acts'"
      "set acts' \<subseteq> {Wrote RESULT_FILE}"
      using assms ann(1) await by (auto simp: runner_run_def deadline_def)
    then show thesis using early [of "acts @ acts'"] ann(4,5) by auto
  next
    case (Inr rb)
    then have granted: "start_granted command deadline (ri_waits i)" and "rb = ra"
      using await by auto
    then have run: "(e, r) = (case launch_command command (ri_launch i) ra of
        Inl res \<Rightarrow> res
      | Inr (s, r) \<Rightarrow> (case supervise command (ri_polls i) s r of
          Inl res \<Rightarrow> res | Inr (s, r) \<Rightarrow> conclude command (ri_final i) s r))"
      using assms ann(1) Inr by (simp add: runner_run_def deadline_def)
    show thesis
    proof (rule launch_command_cases [OF refl, of command "ri_launch i" ra])
      fix e' r' acts'
      assume "launch_command command (ri_launch i) ra = Inl (e', r')" "ru_actions r' = ru_actions ra @ acts'"
        "set acts' \<subseteq> {Wrote RESULT_FILE}" "e' = RunPanic \<longrightarrow> cf_argv command = []"
      then show thesis using early [of "acts @ acts'"] ann run by auto
    next
      fix e' r' pid acts'
      assume "launch_command command (ri_launch i) ra = Inl (e', r')" "e' \<noteq> RunOk" "e' \<noteq> RunPanic"
        "la_spawn (ri_launch i) = Inr pid" "ru_actions r' = ru_actions ra @ SpawnCommand pid # acts'"
        "set acts' \<subseteq> {Wrote EXEC_FILE}"
      then show thesis using unrecorded ann granted run by (simp add: deadline_def)
    next
      fix r1 pid acts' exec
      assume "launch_command command (ri_launch i) ra = Inr (new_supervision command (ri_launch i) pid, r1)"
        "la_spawn (ri_launch i) = Inr pid" "ru_actions r1 = ru_actions ra @ SpawnCommand pid # acts'"
        "set acts' \<subseteq> {Wrote EXEC_FILE}" "ru_dir r1 = ru_dir ra\<lparr>ad_exec := Present exec\<rparr>"
      then show thesis using supervised [where command = command and pid = pid and acts = acts and acts' = acts' and ?r1.0 = r1] ann granted run by (simp add: deadline_def)
    qed
  qed
qed

lemma sup_inv_new:
  "sup_inv command pid (la_instant la) r [] (new_supervision command la pid) r"
  by (simp add: sup_inv_def new_supervision_def scan_inv_def flags_inv_def trace_inv_def sent_signals_def
      split: option.split)

lemma two_scans:
  assumes "scan_inv seen s" and "2 \<le> su_empty_scans s"
  obtains xs p q where "seen = xs @ [p, q]" "first_exit (xs @ [p]) \<noteq> None"
    "group_empty_except (po_proc p) (su_pid s) (su_pid s)" "group_empty_except (po_proc q) (su_pid s) (su_pid s)"
proof -
  have "Suc (Suc 0) \<le> length (rev seen)"
    using assms by (simp add: scan_inv_def)
  then obtain q p ys where rev: "rev seen = q # p # ys"
    by (metis Suc_le_length_iff)
  then have seen: "seen = rev ys @ [p, q]"
    by (metis append.assoc append_Cons append_Nil rev.simps(2) rev_rev_ident)
  have scans: "\<forall>x\<in>set (take (su_empty_scans s) (q # p # ys)). group_empty_except (po_proc x) (su_pid s) (su_pid s)"
    and exit: "first_exit (rev (drop (su_empty_scans s - 1) (q # p # ys))) \<noteq> None"
    using assms unfolding scan_inv_def rev by auto
  obtain n where n: "su_empty_scans s = Suc (Suc n)"
    using assms(2) by (metis Suc_le_D numeral_2_eq_2 Suc_le_mono)
  have "first_exit (rev (drop n (p # ys))) \<noteq> None"
    using exit n by simp
  moreover have "rev ys @ [p] = rev (drop n (p # ys)) @ rev (take n (p # ys))"
    by (metis append_take_drop_id rev.simps(2) rev_append)
  ultimately have "first_exit (rev ys @ [p]) \<noteq> None"
    by (auto simp: first_exit_append)
  then show thesis using that [of "rev ys" p q] seen scans n by simp
qed

lemma supervise_no_panic: "supervise command ps s r = Inl (e, r') \<Longrightarrow> e \<noteq> RunPanic"
  by (induction ps arbitrary: s r) (auto split: poll_result.splits)

lemma conclude_cases:
  assumes "sup_inv command pid started r1 seen s r" and "2 \<le> su_empty_scans s"
    and "conclude command fs s r = (e, r')"
  obtains (unpublished) "e \<noteq> RunOk" "e \<noteq> RunPanic" "ru_actions r' = ru_actions r @ [ReapLeader pid]"
  | (published) status result where "e \<noteq> RunPanic" "su_exit_status s = Some status" "ad_result (ru_dir r1) = Absent"
      "ru_actions r' = ru_actions r @ [ReapLeader pid, Wrote RESULT_FILE]" "ad_result (ru_dir r') = Present result"
      "rf_token result = cf_token command"
      "final_result command s status =
         Some (rf_outcome result, rf_exit_code result, rf_term_signal result, rf_message result)"
proof -
  have "scan_inv seen s" "su_pid s = pid" using assms(1) by (simp_all add: sup_inv_def)
  then obtain xs p q where "seen = (xs @ [p]) @ [q]" "first_exit (xs @ [p]) \<noteq> None"
    using two_scans [OF _ assms(2)] by (metis append_Cons append_Nil append.assoc)
  then obtain status where status: "su_exit_status s = Some status"
    using assms(1) by (auto simp: sup_inv_def first_exit_append [of "xs @ [p]"] simp del: append.assoc append_assoc)
  have "final_result command s status \<noteq> None"
    using assms(1) by (auto simp: sup_inv_def flags_inv_def final_result_def split: option.split)
  then obtain outcome code sig message where final: "final_result command s status = Some (outcome, code, sig, message)"
    by (metis option.exhaust prod_cases4)
  then have "publish_result (fs_result_fault fs) (fs_now fs) command outcome code sig message (act (ReapLeader pid) r) = (e, r')"
    using assms(3) status \<open>su_pid s = pid\<close> by (simp add: conclude_def Let_def)
  moreover from publish_result_trace [OF this] have "e \<noteq> RunPanic" by blast
  moreover have "ad_result (ru_dir r1) = ad_result (ru_dir r)"
    using assms(1) by (simp add: sup_inv_def trace_inv_def)
  ultimately show thesis
    using status final by (auto elim!: publish_result_cases intro: unpublished published simp: act_def)
qed

text \<open>How far the invariant of the supervision reaches at the end of a run.\<close>

lemma supervised_end:
  assumes "(e, r) = (case supervise command ps (new_supervision command la pid) r1 of
      Inl res \<Rightarrow> res | Inr (s, r) \<Rightarrow> conclude command fs s r)"
  obtains used rest s r2 post where "ps = used @ rest" "sup_inv command pid (la_instant la) r1 used s r2"
    "ru_actions r = ru_actions r2 @ post" "set post \<subseteq> {ReapLeader pid, Wrote RESULT_FILE}" "e \<noteq> RunPanic"
    "e = RunOk \<longrightarrow> 2 \<le> su_empty_scans s \<and> conclude command fs s r2 = (e, r)"
proof (cases "supervise command ps (new_supervision command la pid) r1")
  case (Inl res)
  then show thesis
    using supervise_inv [OF sup_inv_new [of command pid la r1], of ps] assms that [where post = "[]"]
      supervise_no_panic [of command ps "new_supervision command la pid" r1] by force
next
  case (Inr sr)
  obtain s r2 where sr: "sr = (s, r2)" by (metis prod.exhaust)
  obtain used rest where used: "ps = used @ rest" "sup_inv command pid (la_instant la) r1 used s r2" "2 \<le> su_empty_scans s"
    using supervise_inv [OF sup_inv_new [of command pid la r1], of ps] Inr sr by auto
  have c: "conclude command fs s r2 = (e, r)" using assms Inr sr by simp
  show thesis
    using conclude_cases [OF used(2,3) c]
  proof cases
    case 1
    then show thesis using that [OF used(1,2), of "[ReapLeader pid]"] used(3) c by simp
  next
    case (2 status result)
    then show thesis using that [OF used(1,2), of "[ReapLeader pid, Wrote RESULT_FILE]"] used(3) c by simp
  qed
qed

lemma unsignalled:
  "set as \<subseteq> A \<Longrightarrow> \<forall>a\<in>A. \<not> is_signal a \<Longrightarrow> filter is_signal as = [] \<and> recorded_first b as"
  by (intro conjI recorded_first_quiet) (simp add: filter_empty_conv list_all_iff, blast)+

text \<open>The trace of a run, with the invariant of the supervision where it ended.\<close>

lemma runner_trace:
  assumes "runner_run i r0 = (e, r)"
  obtains (quiet) acts where "ru_actions r = ru_actions r0 @ acts"
      "set acts \<subseteq> {Wrote IDENTITY_FILE, Wrote RESULT_FILE}"
  | (spawned) command pid pre mid post used rest s where "st_locked (ri_start i)"
      "st_command (ri_start i) = Present command"
      "start_granted command (st_instant (ri_start i) + ns_of_ms (cf_start_wait_ms command)) (ri_waits i)"
      "la_spawn (ri_launch i) = Inr pid" "ru_actions r = ru_actions r0 @ pre @ SpawnCommand pid # mid @ post"
      "set pre \<subseteq> {Wrote IDENTITY_FILE}" "set post \<subseteq> {ReapLeader pid, Wrote RESULT_FILE}"
      "set mid \<subseteq> {Wrote EXEC_FILE, Wrote TIMEOUT_FILE, Wrote YIELD_SENT_FILE} \<union> Collect is_signal"
      "filter is_signal mid = sent_signals command s" "su_pid s = pid"
      "recorded_first (ad_yield_sent (ru_dir r0) \<noteq> Absent) mid"
      "ri_polls i = used @ rest" "flags_inv command (la_instant (ri_launch i)) used s"
  using assms
proof (cases rule: runner_run_cases)
  case (early acts)
  then show thesis using quiet by blast
next
  case (unrecorded command pid acts acts')
  let ?s = "new_supervision command (ri_launch i) pid"
  have "sup_inv command pid (la_instant (ri_launch i)) r [] ?s r" by (rule sup_inv_new)
  then have "flags_inv command (la_instant (ri_launch i)) [] ?s" "sent_signals command ?s = []" "su_pid ?s = pid"
    by (auto simp: sup_inv_def trace_inv_def)
  moreover have "filter is_signal acts' = []" "recorded_first (ad_yield_sent (ru_dir r0) \<noteq> Absent) acts'"
    using unsignalled [OF unrecorded(9)] by auto
  ultimately show thesis
    using spawned [of command pid acts acts' "[]" ?s "[]" "ri_polls i"] unrecorded by auto
next
  case (supervised command pid acts acts' r1)
  from supervised(10) obtain used rest s r2 post where sup: "ri_polls i = used @ rest"
    "sup_inv command pid (la_instant (ri_launch i)) r1 used s r2"
    "ru_actions r = ru_actions r2 @ post" "set post \<subseteq> {ReapLeader pid, Wrote RESULT_FILE}"
    by (rule supervised_end)
  then obtain mid where mid: "ru_actions r2 = ru_actions r1 @ mid" "filter is_signal mid = sent_signals command s"
    "set mid \<subseteq> {Wrote TIMEOUT_FILE, Wrote YIELD_SENT_FILE} \<union> Collect is_signal"
    "recorded_first (ad_yield_sent (ru_dir r1) \<noteq> Absent) mid"
    by (auto simp: sup_inv_def trace_inv_def)
  have quiet_acts: "filter is_signal acts' = []" "recorded_first b acts'" "Wrote YIELD_SENT_FILE \<notin> set acts'" for b
    using supervised(7) unsignalled [OF supervised(7)] by (auto simp: EXEC_FILE_def YIELD_SENT_FILE_def)
  have "recorded_first (ad_yield_sent (ru_dir r0) \<noteq> Absent) (acts' @ mid)"
    using mid(4) quiet_acts supervised(9) by (simp add: recorded_first_append)
  moreover have "filter is_signal (acts' @ mid) = sent_signals command s"
    using mid(2) quiet_acts by simp
  moreover have "set (acts' @ mid) \<subseteq> {Wrote EXEC_FILE, Wrote TIMEOUT_FILE, Wrote YIELD_SENT_FILE} \<union> Collect is_signal"
    using mid(3) supervised(7) by auto
  ultimately show thesis
    using spawned [of command pid acts "acts' @ mid" post s used rest] supervised(1-6) sup mid(1)
    by (simp add: sup_inv_def)
qed

lemma runner_spawn_unique:
  assumes "ru_actions r0 = []" and "runner_run i r0 = (e, r)" and "SpawnCommand pid \<in> set (ru_actions r)"
  shows "la_spawn (ri_launch i) = Inr pid"
  using assms(2)
proof (cases rule: runner_trace)
  case (quiet acts)
  then show ?thesis using assms by auto
next
  case (spawned command pid' pre mid post used rest s)
  have "SpawnCommand pid \<notin> set pre \<union> set mid \<union> set post" using spawned(6-8) by auto
  then show ?thesis using spawned(4,5) assms by auto
qed

text \<open>The two \<open>expect\<close> of the code hold: only an empty argument vector makes a runner panic.\<close>

lemma runner_no_panic:
  assumes "st_command (ri_start i) = Present command" and "cf_argv command \<noteq> []"
  shows "fst (runner_run i r0) \<noteq> RunPanic"
proof -
  obtain e r where run: "runner_run i r0 = (e, r)" by (metis prod.exhaust)
  then show ?thesis
  proof (cases rule: runner_run_cases)
    case (supervised command pid acts acts' r1)
    from supervised(10) have "e \<noteq> RunPanic" by (rule supervised_end)
    then show ?thesis using run by simp
  qed (use run assms in auto)
qed

section \<open>Guarantees\<close>

text \<open>
  C8: a runner spawns the command at most once, and only while it holds the lock of the attempt
  directory, after the start artifact with its own token, with no cancellation read before it and
  within the authorized wait; the pid is the one the system call returned.
\<close>

theorem runner_spawn_gate:
  assumes "ru_actions r0 = []" and "SpawnCommand pid \<in> set (ru_actions (snd (runner_run i r0)))"
  shows "\<exists>command. st_command (ri_start i) = Present command \<and> st_locked (ri_start i) \<and>
      start_granted command (st_instant (ri_start i) + ns_of_ms (cf_start_wait_ms command)) (ri_waits i) \<and>
      la_spawn (ri_launch i) = Inr pid \<and>
      count_list (ru_actions (snd (runner_run i r0))) (SpawnCommand pid) = 1"
proof -
  obtain e r where run: "runner_run i r0 = (e, r)" by (metis prod.exhaust)
  then show ?thesis
  proof (cases rule: runner_trace)
    case (quiet acts)
    then show ?thesis using assms run by auto
  next
    case (spawned command pid' pre mid post used rest s)
    have "SpawnCommand pid \<notin> set pre \<union> set mid \<union> set post"
      using spawned(6-8) by auto
    then show ?thesis
      using spawned(1-5) assms run by (auto simp: count_list_0_iff)
  qed
qed

text \<open>
  C7: the signals of a runner, wherever it ends: at most one yield signal to the leader, then at most
  one SIGTERM and at most one SIGKILL to the group, all to the command it spawned. The yield signal
  needs a yield policy and a request, is sent to a leader that has not exited and comes after the
  record of its delivery; SIGTERM needs a cancellation or a passed time limit; SIGKILL follows
  SIGTERM and needs a forced cancellation or a passed time limit, and the grace period after it.
\<close>

theorem runner_signals:
  assumes "ru_actions r0 = []" and "st_command (ri_start i) = Present command"
    and "acts = ru_actions (snd (runner_run i r0))" and "started = la_instant (ri_launch i)"
  shows "recorded_first (ad_yield_sent (ru_dir r0) \<noteq> Absent) acts \<and>
    (\<exists>pid yielded terminated killed.
       filter is_signal acts = map (SignalLeader pid) yielded @
         (if terminated then [SignalGroup pid SIGTERM] else []) @ (if killed then [SignalGroup pid SIGKILL] else []) \<and>
       (filter is_signal acts \<noteq> [] \<longrightarrow> SpawnCommand pid \<in> set acts) \<and>
       (yielded = [] \<or> (\<exists>policy. cf_yield_policy command = Some policy \<and> yielded = [yp_signal policy] \<and>
          (\<exists>q\<in>set (ri_polls i). yield_due command q))) \<and>
       (terminated \<longrightarrow> (\<exists>q\<in>set (ri_polls i). limit_passed command started q \<or> cancel_seen command q)) \<and>
       (killed \<longrightarrow> terminated \<and> (\<exists>q\<in>set (ri_polls i). \<exists>p\<in>set (ri_polls i). \<exists>at.
          runner_kill_due command started q at \<and> at \<le> po_kill_check_at p)))"
proof -
  obtain e r where run: "runner_run i r0 = (e, r)" by (metis prod.exhaust)
  then show ?thesis
  proof (cases rule: runner_trace)
    case (quiet acts')
    then have "list_all (\<lambda>a. \<not> is_signal a) acts"
      using assms run by (auto simp: list_all_iff)
    moreover from this have "filter is_signal acts = []" by (simp add: list_all_iff filter_empty_conv)
    ultimately show ?thesis
      using recorded_first_quiet by (intro conjI exI [of _ "0 :: int"] exI [of _ "[] :: yield_signal list"] exI [of _ False]) auto
  next
    case (spawned command' pid pre mid post used rest s)
    have [simp]: "command' = command" using spawned(2) assms(2) by simp
    have ends: "list_all (\<lambda>a. \<not> is_signal a) pre" "list_all (\<lambda>a. \<not> is_signal a) post" "Wrote YIELD_SENT_FILE \<notin> set pre"
      using spawned(6,7) by (auto simp: list_all_iff IDENTITY_FILE_def YIELD_SENT_FILE_def)
    then have signals: "filter is_signal acts = sent_signals command s"
      using spawned(5,9) assms(1,3) run by (auto simp: list_all_iff filter_empty_conv)
    have "recorded_first (ad_yield_sent (ru_dir r0) \<noteq> Absent) acts"
      using spawned(5,11) assms(1,3) run ends recorded_first_quiet
      by (simp add: recorded_first_append)
    moreover have "set used \<subseteq> set (ri_polls i)" using spawned(12) by simp
    note flags = spawned(13) [unfolded flags_inv_def, folded assms(4), simplified \<open>command' = command\<close>]
    have terminated: "su_term_sent s \<longrightarrow> (\<exists>q\<in>set (ri_polls i). limit_passed command started q \<or> cancel_seen command q)"
      using flags \<open>set used \<subseteq> _\<close> by blast
    have killed: "su_kill_sent s \<longrightarrow> su_term_sent s \<and> (\<exists>q\<in>set (ri_polls i). \<exists>p\<in>set (ri_polls i). \<exists>at.
        runner_kill_due command started q at \<and> at \<le> po_kill_check_at p)"
      using flags \<open>set used \<subseteq> _\<close> by blast
    have yielded: "su_yield_sent s \<longrightarrow> cf_yield_policy command \<noteq> None \<and> (\<exists>q\<in>set (ri_polls i). yield_due command q)"
      using flags \<open>set used \<subseteq> _\<close> by blast
    define ys where "ys = (case cf_yield_policy command of
        Some policy \<Rightarrow> if su_yield_sent s then [yp_signal policy] else [] | None \<Rightarrow> [])"
    have "SpawnCommand pid \<in> set acts" using spawned(5) assms(3) run by simp
    moreover have "filter is_signal acts = map (SignalLeader pid) ys @
        (if su_term_sent s then [SignalGroup pid SIGTERM] else []) @
        (if su_kill_sent s then [SignalGroup pid SIGKILL] else [])"
      using spawned(10) by (simp add: signals sent_signals_def ys_def split: option.split)
    moreover have "ys = [] \<or> (\<exists>policy. cf_yield_policy command = Some policy \<and> ys = [yp_signal policy] \<and>
        (\<exists>q\<in>set (ri_polls i). yield_due command q))"
      using yielded by (auto simp: ys_def split: option.split)
    ultimately show ?thesis using terminated killed by blast
  qed
qed

text \<open>What the outcome of a supervision says about the iterations, in the daemon's terms.\<close>

lemma final_result_meaning:
  assumes "sup_inv command pid started r1 seen s r"
    and "final_result command s status =
      Some (rf_outcome result, rf_exit_code result, rf_term_signal result, rf_message result)"
    and "state = fst (result_state result)"
  shows "rf_exit_code result = status_code status"
    and "state \<in> {A_Succeeded, A_Failed, A_Cancelled, A_Yielded}"
    and "state = A_Succeeded \<Longrightarrow> status_code status = Some 0"
    and "state = A_Failed \<Longrightarrow> status_code status \<noteq> Some 0 \<or> (\<exists>q\<in>set seen. limit_passed command started q)"
    and "state = A_Cancelled \<Longrightarrow> cancelled_in_time command seen"
    and "state = A_Yielded \<Longrightarrow> \<exists>policy. cf_yield_policy command = Some policy \<and>
      SignalLeader pid (yp_signal policy) \<in> set (ru_actions r) \<and> status_code status = Some (int (yp_exit_code policy))"
proof -
  have flags: "flags_inv command started seen s" and pid: "su_pid s = pid"
    using assms(1) by (auto simp: sup_inv_def)
  obtain mid where "ru_actions r = ru_actions r1 @ mid" "filter is_signal mid = sent_signals command s"
    using assms(1) by (auto simp: sup_inv_def trace_inv_def)
  then have sent: "set (sent_signals command s) \<subseteq> set (ru_actions r)"
    by (metis Un_upper2 filter_is_subset order_trans set_append)
  consider (timed) "su_timed_out s" "rf_outcome result = RO_TimedOut"
    | (cancelled) "su_cancelled_before_exit s" "rf_outcome result = RO_Cancelled"
    | (yielded) policy where "yield_answered command s status = Some policy" "rf_outcome result = RO_Yielded"
    | (exited) "rf_outcome result = RO_Exited"
    using assms(2) by (auto simp: final_result_def split: if_splits option.splits)
  note cases = this
  show code: "rf_exit_code result = status_code status"
    using assms(2) by (auto simp: final_result_def split: if_splits option.splits)
  show "state \<in> {A_Succeeded, A_Failed, A_Cancelled, A_Yielded}"
    using cases by cases (auto simp: assms(3) result_state_def Let_def)
  show "status_code status = Some 0" if "state = A_Succeeded"
    using cases that code by cases (auto simp: assms(3) result_state_def Let_def split: if_splits)
  show "status_code status \<noteq> Some 0 \<or> (\<exists>q\<in>set seen. limit_passed command started q)" if "state = A_Failed"
    using cases that code flags
    by cases (auto simp: assms(3) result_state_def Let_def flags_inv_def split: if_splits)
  show "cancelled_in_time command seen" if "state = A_Cancelled"
    using cases that flags
    by cases (auto simp: assms(3) result_state_def Let_def flags_inv_def split: if_splits)
  show "\<exists>policy. cf_yield_policy command = Some policy \<and> SignalLeader pid (yp_signal policy) \<in> set (ru_actions r) \<and>
      status_code status = Some (int (yp_exit_code policy))" if "state = A_Yielded"
    using cases
  proof cases
    case (yielded policy)
    then show ?thesis
      using sent pid by (auto simp: yield_answered_def sent_signals_def split: option.splits if_splits)
  qed (use that in \<open>auto simp: assms(3) result_state_def Let_def split: if_splits\<close>)
qed

text \<open>
  C6: a runner that returns after spawning the command has published its result, under the token of
  the attempt and over no earlier one, only after it saw the leader exit and then found the process
  group empty in two consecutive scans. The result carries the exit code of the leader, and the
  daemon reads it as it should: succeeded only for exit code zero, failed for another status or a
  passed time limit, cancelled only if a cancellation was read while the command was running, and
  yielded only if the yield signal was delivered and answered with the agreed exit code.
\<close>

theorem runner_result:
  assumes "ru_actions r0 = []" and "st_command (ri_start i) = Present command"
    and "runner_run i r0 = (RunOk, r)" and "SpawnCommand pid \<in> set (ru_actions r)"
  shows "\<exists>xs p q rest status result state.
      ri_polls i = xs @ p # q # rest \<and> first_exit (xs @ [p]) = Some status \<and>
      group_empty_except (po_proc p) pid pid \<and> group_empty_except (po_proc q) pid pid \<and>
      ad_result (ru_dir r0) = Absent \<and> ad_result (ru_dir r) = Present result \<and>
      rf_token result = cf_token command \<and> rf_exit_code result = status_code status \<and>
      state = fst (result_state result) \<and> state \<in> {A_Succeeded, A_Failed, A_Cancelled, A_Yielded} \<and>
      (state = A_Succeeded \<longrightarrow> status_code status = Some 0) \<and>
      (state = A_Failed \<longrightarrow> status_code status \<noteq> Some 0 \<or>
         (\<exists>v\<in>set (xs @ [p, q]). limit_passed command (la_instant (ri_launch i)) v)) \<and>
      (state = A_Cancelled \<longrightarrow> cancelled_in_time command (xs @ [p, q])) \<and>
      (state = A_Yielded \<longrightarrow> (\<exists>policy. cf_yield_policy command = Some policy \<and>
         SignalLeader pid (yp_signal policy) \<in> set (ru_actions r) \<and>
         status_code status = Some (int (yp_exit_code policy))))"
  using assms(3)
proof (cases rule: runner_run_cases)
  case (early acts)
  then show ?thesis using assms by auto
next
  case (supervised command' pid' acts acts' r1)
  have [simp]: "command' = command" using supervised(2) assms(2) by simp
  from supervised(10) obtain used rest s r2 where sup: "ri_polls i = used @ rest"
    "sup_inv command pid' (la_instant (ri_launch i)) r1 used s r2"
    "2 \<le> su_empty_scans s" "conclude command (ri_final i) s r2 = (RunOk, r)"
    by (rule supervised_end) auto
  have "scan_inv used s" "su_pid s = pid'" "su_exit_status s = first_exit used"
    using sup(2) by (auto simp: sup_inv_def)
  then obtain xs p q where scans: "used = xs @ [p, q]" "first_exit (xs @ [p]) \<noteq> None"
    "group_empty_except (po_proc p) pid' pid'" "group_empty_except (po_proc q) pid' pid'"
    using two_scans [OF _ sup(3), of used] by blast
  have "pid' = pid" using runner_spawn_unique [OF assms(1,3,4)] supervised(4) by simp
  from conclude_cases [OF sup(2-4)] show ?thesis
  proof cases
    case (2 status result)
    have "first_exit (xs @ [p]) = Some status"
      using 2(2) scans(1,2) \<open>su_exit_status s = first_exit used\<close> first_exit_append [of "xs @ [p]" "[q]"] by auto
    moreover have "set (ru_actions r2) \<subseteq> set (ru_actions r)" using 2(4) by auto
    ultimately show ?thesis
      using final_result_meaning [OF sup(2) 2(7) refl] 2(3,5,6) supervised(8) sup(1) scans \<open>pid' = pid\<close>
      by (intro exI [of _ xs] exI [of _ p] exI [of _ q] exI [of _ rest] exI [of _ status] exI [of _ result]
          exI [of _ "fst (result_state result)"]) auto
  qed simp
qed (use assms in auto)

section \<open>The runner returns\<close>

lemma await_authorization_granted:
  assumes "start_granted command deadline ws"
  shows "await_authorization command deadline ws r = Inr r"
proof -
  obtain pre w post start where ws: "ws = pre @ w # post" and w: "wp_start w = Present start" "sf_token start = cf_token command"
    and quiet: "\<forall>v\<in>set (pre @ [w]). read_cancel (wp_cancel v) (cf_token command) = None"
      "\<forall>v\<in>set pre. wp_start v = Absent \<and> wp_instant v < deadline"
    using assms unfolding start_granted_def by blast
  from quiet show ?thesis
    unfolding ws using w by (induction pre) (auto simp: not_le)
qed

lemma same_scan_stages:
  "same_scan s (refresh_limit command p s)"
  "enforce_deadline command p drained cancel (s, r) = (s', r') \<Longrightarrow> same_scan s s'"
  "deliver_cancel command p cancel (s, r) = (s', r') \<Longrightarrow> same_scan s s'"
  "deliver_yield command p (s, r) = (err, s', r') \<Longrightarrow> same_scan s s'"
  "escalate p (s, r) = (s', r') \<Longrightarrow> same_scan s s'"
  by (auto simp: refresh_limit_def enforce_deadline_def commit_timeout_def send_term_eq deliver_cancel_def
      deliver_yield_def escalate_def arm_kill_def same_scan_def Let_def
      split: if_splits option.splits prod.splits sum.splits bool.splits)

lemma control_step_scan:
  assumes "control_step command p drained s r = PollNext s' r'"
  shows "same_scan s s'"
proof (rule control_step_stages [of command p drained s r])
  fix s2 r2 s3 r3 err s4 r4 s5 r5
  assume stages: "enforce_deadline command p drained (read_cancel (po_cancel p) (cf_token command))
      (refresh_limit command p s, r) = (s2, r2)"
    "deliver_cancel command p (read_cancel (po_cancel p) (cf_token command)) (s2, r2) = (s3, r3)"
    "deliver_yield command p (s3, r3) = (err, s4, r4)" "escalate p (s4, r4) = (s5, r5)"
    "control_step command p drained s r = (case err of Some e \<Rightarrow> PollFailed e r4 | None \<Rightarrow> PollNext s5 r5)"
  have "s5 = s'" using stages(5) assms by (simp split: option.splits)
  then show ?thesis
    using same_scan_stages(1) [of s command p] same_scan_stages(2) [OF stages(1)] same_scan_stages(3) [OF stages(2)]
      same_scan_stages(4) [OF stages(3)] same_scan_stages(5) [OF stages(4)] by (auto simp: same_scan_def)
qed

text \<open>An iteration in which no system call fails ends the loop or counts its scan.\<close>

definition calls_succeed :: "poll \<Rightarrow> bool" where
  "calls_succeed p \<longleftrightarrow> (\<exists>info. po_exit p = Inr info) \<and> (\<exists>info. po_exit_again p = Inr info)"

lemma supervise_poll_runs:
  assumes "calls_succeed p"
  obtains s' r' where "supervise_poll command p s r = PollDone s' r'"
  | s' r' where "supervise_poll command p s r = PollNext s' r'" "su_pid s' = su_pid s"
      "su_exit_status s' = (case su_exit_status s of None \<Rightarrow> first_exit [p] | Some status \<Rightarrow> Some status)"
      "su_exit_status s' \<noteq> None \<longrightarrow> group_empty_except (po_proc p) (su_pid s) (su_pid s) \<longrightarrow>
         su_empty_scans s' = Suc (su_empty_scans s) \<and> su_empty_scans s' < 2"
proof -
  obtain info info' where info: "po_exit p = Inr info" "po_exit_again p = Inr info'"
    using assms by (auto simp: calls_succeed_def)
  define s1 where "s1 = s\<lparr>su_exit_status := (case su_exit_status s of None \<Rightarrow> first_exit [p] | Some status \<Rightarrow> Some status)\<rparr>"
  have s1: "observe_exit p s = Inr s1"
    using info by (auto simp: observe_exit_def s1_def peek_exit_def bindE_def split: option.splits)
  define s2 where "s2 = count_scan (group_drained p s1) s1"
  show thesis
  proof (cases "group_drained p s1 \<and> 2 \<le> su_empty_scans s2")
    case True
    then show thesis using that(1) s1 by (auto simp: supervise_poll_def s2_def Let_def)
  next
    case False
    then have poll: "supervise_poll command p s r = control_step command p (group_drained p s1) s2 r"
      using s1 by (auto simp: supervise_poll_def s2_def Let_def)
    have "control_step command p (group_drained p s1) s2 r \<noteq> PollFailed e r'" for e r'
      using info by (auto simp: control_step_def deliver_yield_def peek_exit_def bindE_def Let_def
          split: prod.splits option.splits if_splits bool.splits sum.splits)
    moreover have "control_step command p (group_drained p s1) s2 r \<noteq> PollDone s' r'" for s' r'
      by (auto simp: control_step_def Let_def split: prod.splits option.splits)
    ultimately obtain s' r' where step: "control_step command p (group_drained p s1) s2 r = PollNext s' r'"
      by (metis poll_result.exhaust)
    then have "same_scan s2 s'" by (rule control_step_scan)
    then show thesis
      using that(2) poll step False
      by (auto simp: same_scan_def s2_def count_scan_def group_drained_def s1_def split: if_splits)
  qed
qed

lemma supervise_completes:
  assumes "\<forall>v\<in>set (xs @ [p, q]). calls_succeed v"
    and "(case su_exit_status s of None \<Rightarrow> first_exit (xs @ [p]) | Some status \<Rightarrow> Some status) \<noteq> None"
    and "group_empty_except (po_proc p) (su_pid s) (su_pid s)" "group_empty_except (po_proc q) (su_pid s) (su_pid s)"
  shows "\<exists>s' r'. supervise command (xs @ p # q # rest) s r = Inr (s', r')"
  using assms
proof (induction xs arbitrary: s r)
  case Nil
  have calls: "calls_succeed p" "calls_succeed q" using Nil.prems(1) by auto
  show ?case
  proof (rule supervise_poll_runs [OF calls(1), of command s r])
    fix s1 r1
    assume p: "supervise_poll command p s r = PollNext s1 r1" "su_pid s1 = su_pid s"
      "su_exit_status s1 = (case su_exit_status s of None \<Rightarrow> first_exit [p] | Some status \<Rightarrow> Some status)"
      "su_exit_status s1 \<noteq> None \<longrightarrow> group_empty_except (po_proc p) (su_pid s) (su_pid s) \<longrightarrow>
         su_empty_scans s1 = Suc (su_empty_scans s) \<and> su_empty_scans s1 < 2"
    have s1: "su_exit_status s1 \<noteq> None" using p(3) Nil.prems(2) by (simp split: option.splits)
    then have scans: "su_empty_scans s1 = Suc (su_empty_scans s)" using p(4) Nil.prems(3) by simp
    show ?thesis
    proof (rule supervise_poll_runs [OF calls(2), of command s1 r1])
      fix s2 r2
      assume "su_exit_status s2 = (case su_exit_status s1 of None \<Rightarrow> first_exit [q] | Some status \<Rightarrow> Some status)"
        "su_exit_status s2 \<noteq> None \<longrightarrow> group_empty_except (po_proc q) (su_pid s1) (su_pid s1) \<longrightarrow>
           su_empty_scans s2 = Suc (su_empty_scans s1) \<and> su_empty_scans s2 < 2"
      then have False using s1 scans Nil.prems(4) p(2) by auto
      then show ?thesis ..
    qed (use p(1) in simp)
  qed simp
next
  case (Cons v xs)
  have "calls_succeed v" using Cons.prems(1) by simp
  then show ?case
  proof (rule supervise_poll_runs [of v command s r])
    fix s1 r1
    assume v: "supervise_poll command v s r = PollNext s1 r1" "su_pid s1 = su_pid s"
      "su_exit_status s1 = (case su_exit_status s of None \<Rightarrow> first_exit [v] | Some status \<Rightarrow> Some status)"
    have "(case su_exit_status s1 of None \<Rightarrow> first_exit (xs @ [p]) | Some status \<Rightarrow> Some status) \<noteq> None"
      using Cons.prems(2) v(3) by (auto split: option.splits sum.splits)
    then show ?thesis using Cons.IH [of s1 r1] Cons.prems v(1,2) by simp
  qed simp
qed

lemma conclude_ok:
  assumes "ad_exists (ru_dir r)" "ad_result (ru_dir r) = Absent" "fs_result_fault fs = None"
    and "fst (conclude command fs s r) \<noteq> RunPanic"
  shows "fst (conclude command fs s r) = RunOk"
proof -
  have "fst (publish_result None now command outcome code sig message (act a r)) = RunOk" for now outcome code sig message a
    using assms(1,2) by (simp add: publish_result_def runner_write_def store_artifact_def act_def Let_def split: prod.split)
  then show ?thesis using assms(3,4) by (auto simp: conclude_def Let_def split: option.splits)
qed

text \<open>
  C9: a runner does not hang on a finished command. Once it is authorized and has recorded the
  spawned command, an observed exit of the leader and two consecutive scans that find the group empty
  make it return, whatever the control artifacts say, with its result published.
\<close>

theorem runner_returns:
  assumes "announce (ri_start i) r0 = Inr (command, ra)"
    and "start_granted command (st_instant (ri_start i) + ns_of_ms (cf_start_wait_ms command)) (ri_waits i)"
    and "launch_command command (ri_launch i) ra = Inr (s0, rb)"
    and "ri_polls i = xs @ p # q # rest" and "\<forall>v\<in>set (xs @ [p, q]). calls_succeed v"
    and "first_exit (xs @ [p]) \<noteq> None"
    and "group_empty_except (po_proc p) (su_pid s0) (su_pid s0)" "group_empty_except (po_proc q) (su_pid s0) (su_pid s0)"
    and "ad_exists (ru_dir rb)" and "ad_result (ru_dir rb) = Absent" and "fs_result_fault (ri_final i) = None"
  shows "fst (runner_run i r0) = RunOk \<and> ad_result (ru_dir (snd (runner_run i r0))) \<noteq> Absent"
proof -
  obtain pid where pid: "s0 = new_supervision command (ri_launch i) pid"
    using assms(3) by (auto elim!: launch_command_cases)
  then have "su_exit_status s0 = None" by (simp add: new_supervision_def)
  then obtain s r where sup: "supervise command (ri_polls i) s0 rb = Inr (s, r)"
    using supervise_completes [of xs p q s0 command rest rb] assms(4-8) by auto
  then have run: "runner_run i r0 = conclude command (ri_final i) s r"
    using assms(1-3) by (simp add: runner_run_def await_authorization_granted)
  obtain used where inv: "sup_inv command pid (la_instant (ri_launch i)) rb used s r" "2 \<le> su_empty_scans s"
    using supervise_inv [OF sup_inv_new [of command pid "ri_launch i" rb], of "ri_polls i"] sup pid by auto
  then have dir: "ad_exists (ru_dir r)" "ad_result (ru_dir r) = Absent"
    using assms(9,10) by (auto simp: sup_inv_def trace_inv_def)
  obtain e r' where c: "conclude command (ri_final i) s r = (e, r')" by (metis prod.exhaust)
  from conclude_cases [OF inv c] have "e \<noteq> RunPanic" by cases auto
  then have "e = RunOk" using conclude_ok [OF dir assms(11), of command s] c by simp
  from conclude_cases [OF inv c] show ?thesis
    by cases (use \<open>e = RunOk\<close> run c in simp_all)
qed

section \<open>A sample run\<close>

text \<open>
  The command is asked to yield, exits with the agreed code, and a forced cancellation arrives too
  late: the group is signalled, but the result stays a yield.
\<close>

definition runner_view :: proc_view where
  "runner_view = \<lparr>pv_boot_id = Some ''boot'',
     pv_stat = (\<lambda>pid. Some ''9 (mlqd) S 1 9 9 0 0 0 0 0 0 0 0 0 0 0 0 0 0 0 77''), pv_entries = Some []\<rparr>"

definition sample_command :: command_file where
  "sample_command = \<lparr>cf_attempt_id = 1, cf_job_id = 1, cf_token = ''t'', cf_argv = [''train''], cf_cwd = ''/'',
     cf_env = [], cf_start_wait_ms = 1000, cf_cancel_grace_ms = 5, cf_poll_ms = 10, cf_time_limit_ms = None,
     cf_yield_policy = Some \<lparr>yp_signal = Usr1, yp_exit_code = 75\<rparr>\<rparr>"

definition sample_poll :: poll where
  "sample_poll = \<lparr>po_exit = Inr \<lparr>si_pid = 0, si_code = CLD_EXITED, si_status = 0\<rparr>, po_proc = runner_view,
     po_cancel = Absent, po_limit = Absent, po_elapsed_at = 0, po_timeout_now = 0, po_timeout_fault = None,
     po_deadline_at = 0, po_cancel_at = 0, po_yield = Present \<lparr>yf_token = ''t'', yf_requested_at = 3\<rparr>,
     po_yield_now = 4, po_yield_fault = None,
     po_exit_again = Inr \<lparr>si_pid = 0, si_code = CLD_EXITED, si_status = 0\<rparr>, po_kill_check_at = 10000000\<rparr>"

definition exited_poll :: poll where
  "exited_poll = sample_poll\<lparr>po_exit := Inr \<lparr>si_pid = 42, si_code = CLD_EXITED, si_status = 75\<rparr>,
     po_cancel := Present \<lparr>caf_token = ''t'', caf_force = True, caf_requested_at = Some 5\<rparr>\<rparr>"

definition sample_input :: runner_input where
  "sample_input = \<lparr>
     ri_start = \<lparr>st_lock_error = None, st_locked = True, st_command = Present sample_command, st_pid = 9,
       st_proc = runner_view, st_identity_fault = None, st_instant = 0\<rparr>,
     ri_waits = [\<lparr>wp_cancel = Absent, wp_start = Absent, wp_instant = 1, wp_now = 1, wp_result_fault = None\<rparr>,
       \<lparr>wp_cancel = Absent, wp_start = Present \<lparr>sf_token = ''t''\<rparr>, wp_instant = 2, wp_now = 2, wp_result_fault = None\<rparr>],
     ri_launch = \<lparr>la_log_error = None, la_spawn = Inr 42, la_now = 2, la_instant = 3, la_limit = Absent,
       la_proc = runner_view, la_exec_fault = None, la_result_now = 2, la_result_fault = None\<rparr>,
     ri_polls = [sample_poll, exited_poll, exited_poll],
     ri_final = \<lparr>fs_now = 9, fs_result_fault = None\<rparr>\<rparr>"

definition sample_runner :: runner where
  "sample_runner = \<lparr>ru_dir = empty_dir\<lparr>ad_exists := True\<rparr>, ru_actions = []\<rparr>"

lemma sample_runner_stat: "proc_stat runner_view pid =
    Some \<lparr>pst_pid = pid, pst_pgrp = 9, pst_start_time = 77, pst_zombie = False\<rparr>"
  unfolding proc_stat_def runner_view_def by (simp, simp add: parse_stat_def) code_simp

lemma sample_status:
  "peek_exit (Inr \<lparr>si_pid = 42, si_code = CLD_EXITED, si_status = 75\<rparr>) = Inr (Some 0x4B00)"
  "status_code 0x4B00 = Some 75"
  by (simp_all add: peek_exit_def bindE_def status_code_def)

lemma sample_group: "group_empty_except runner_view pid pid'"
  by (simp add: group_empty_except_def group_members_def runner_view_def)

lemma sample_boot: "boot_id runner_view = Some ''boot''"
  by (simp add: boot_id_def runner_view_def) code_simp

lemmas runner_sample_defs = sample_input_def sample_runner_def sample_command_def sample_poll_def exited_poll_def empty_dir_def

lemmas write_defs = runner_write_def store_artifact_def act_def

lemma sample_announced:
  "announce (ri_start sample_input) sample_runner = Inr (sample_command,
     \<lparr>ru_dir = ru_dir sample_runner\<lparr>ad_identity := Present \<lparr>if_token = ''t'', if_runner_pid = 9,
        if_runner_start_time = 77, if_boot_id = ''boot''\<rparr>\<rparr>, ru_actions = [Wrote IDENTITY_FILE]\<rparr>)"
  by (simp add: announce_def runner_sample_defs sample_runner_stat sample_boot write_defs)

lemma sample_granted: "start_granted sample_command 1000000000 (ri_waits sample_input)"
  unfolding start_granted_def
  by (rule exI [of _ "[hd (ri_waits sample_input)]"], rule exI [of _ "last (ri_waits sample_input)"])
    (simp add: runner_sample_defs read_cancel_def)

definition spawned_runner :: runner where
  "spawned_runner = \<lparr>ru_dir = ru_dir sample_runner\<lparr>ad_identity := Present \<lparr>if_token = ''t'', if_runner_pid = 9,
        if_runner_start_time = 77, if_boot_id = ''boot''\<rparr>,
      ad_exec := Present \<lparr>xf_token = ''t'', xf_pid = 42, xf_pgid = 42, xf_start_time = 77, xf_boot_id = ''boot'',
        xf_started_at = Some 2\<rparr>\<rparr>,
    ru_actions = [Wrote IDENTITY_FILE, SpawnCommand 42, Wrote EXEC_FILE]\<rparr>"

lemma sample_launched:
  "launch_command sample_command (ri_launch sample_input)
     \<lparr>ru_dir = ru_dir sample_runner\<lparr>ad_identity := Present \<lparr>if_token = ''t'', if_runner_pid = 9,
        if_runner_start_time = 77, if_boot_id = ''boot''\<rparr>\<rparr>, ru_actions = [Wrote IDENTITY_FILE]\<rparr> =
   Inr (new_supervision sample_command (ri_launch sample_input) 42, spawned_runner)"
  by (simp add: launch_command_def runner_sample_defs sample_runner_stat sample_boot write_defs spawned_runner_def)

lemma sample_not_exited: "peek_exit (Inr \<lparr>si_pid = 0, si_code = c, si_status = s\<rparr>) = Inr None"
  by (simp add: peek_exit_def bindE_def)

lemmas poll_defs = supervise_poll_def observe_exit_def bindE_def group_drained_def count_scan_def
  control_step_def refresh_limit_def enforce_deadline_def deadline_expired_def observed_time_limit_def read_cancel_def
  deliver_cancel_def deliver_yield_def read_yield_def record_yield_def escalate_def

lemma sample_first_poll:
  "supervise_poll sample_command sample_poll (new_supervision sample_command (ri_launch sample_input) 42) spawned_runner =
     PollNext (new_supervision sample_command (ri_launch sample_input) 42\<lparr>su_yield_sent := True\<rparr>)
       \<lparr>ru_dir = ru_dir spawned_runner\<lparr>ad_yield_sent := Present \<lparr>ysf_token = ''t'', ysf_sent_at = 4\<rparr>\<rparr>,
        ru_actions = ru_actions spawned_runner @ [Wrote YIELD_SENT_FILE, SignalLeader 42 Usr1]\<rparr>"
  by (simp add: poll_defs sample_not_exited new_supervision_def runner_sample_defs write_defs spawned_runner_def)

lemma sample_supervised:
  "supervise sample_command (ri_polls sample_input) (new_supervision sample_command (ri_launch sample_input) 42) spawned_runner =
     Inr (new_supervision sample_command (ri_launch sample_input) 42\<lparr>su_yield_sent := True, su_exit_status := Some 0x4B00,
         su_cancel_too_late := True, su_term_sent := True, su_kill_sent := True, su_empty_scans := 2\<rparr>,
       \<lparr>ru_dir = ru_dir spawned_runner\<lparr>ad_yield_sent := Present \<lparr>ysf_token = ''t'', ysf_sent_at = 4\<rparr>\<rparr>,
        ru_actions = ru_actions spawned_runner @ [Wrote YIELD_SENT_FILE, SignalLeader 42 Usr1,
          SignalGroup 42 SIGTERM, SignalGroup 42 SIGKILL]\<rparr>)"
proof -
  have polls: "ri_polls sample_input = [sample_poll, exited_poll, exited_poll]" by (simp add: sample_input_def)
  show ?thesis
    unfolding polls supervise.simps sample_first_poll poll_result.case
    by (simp add: poll_defs sample_status sample_group arm_kill_def ns_of_ms_def new_supervision_def send_term_def
        runner_sample_defs write_defs)
qed

lemma sample_run_result:
  "runner_run sample_input sample_runner = (RunOk,
     \<lparr>ru_dir = ru_dir spawned_runner\<lparr>ad_yield_sent := Present \<lparr>ysf_token = ''t'', ysf_sent_at = 4\<rparr>,
        ad_result := Present \<lparr>rf_token = ''t'', rf_outcome = RO_Yielded, rf_exit_code = Some 75, rf_term_signal = None,
          rf_message = Some ''yielded: exited with code 75 after SIGUSR1 (cancellation_too_late)'', rf_finished_at = 9\<rparr>\<rparr>,
      ru_actions = [Wrote IDENTITY_FILE, SpawnCommand 42, Wrote EXEC_FILE, Wrote YIELD_SENT_FILE, SignalLeader 42 Usr1,
        SignalGroup 42 SIGTERM, SignalGroup 42 SIGKILL, ReapLeader 42, Wrote RESULT_FILE]\<rparr>)"
proof -
  have seventy_five: "show_nat 75 = ''75''" by code_simp
  have wait: "st_instant (ri_start sample_input) + ns_of_ms (cf_start_wait_ms sample_command) = 1000000000"
    by (simp add: runner_sample_defs ns_of_ms_def)
  show ?thesis
    unfolding runner_run_def sample_announced sum.case prod.case wait
      await_authorization_granted [OF sample_granted] sample_launched sample_supervised
    by (simp add: conclude_def final_result_def yield_answered_def sample_status publish_result_def seventy_five
        new_supervision_def runner_sample_defs write_defs spawned_runner_def)
qed

theorem runner_spawn_gate_witness:
  "start_granted sample_command 1000000000 (ri_waits sample_input) \<and>
   count_list (ru_actions (snd (runner_run sample_input sample_runner))) (SpawnCommand 42) = 1"
proof -
  have "SpawnCommand 42 \<in> set (ru_actions (snd (runner_run sample_input sample_runner)))"
    by (simp add: sample_run_result)
  from runner_spawn_gate [OF _ this] show ?thesis
    by (simp add: sample_runner_def) (simp add: sample_input_def sample_command_def ns_of_ms_def)
qed

theorem runner_signals_witness:
  "recorded_first False (ru_actions (snd (runner_run sample_input sample_runner))) \<and>
   filter is_signal (ru_actions (snd (runner_run sample_input sample_runner))) =
     [SignalLeader 42 Usr1, SignalGroup 42 SIGTERM, SignalGroup 42 SIGKILL]"
proof -
  have "ru_actions sample_runner = []" "st_command (ri_start sample_input) = Present sample_command"
    "ad_yield_sent (ru_dir sample_runner) = Absent"
    by (simp_all add: runner_sample_defs)
  then show ?thesis
    using runner_signals [OF _ _ refl refl, of sample_runner sample_input sample_command]
    by (simp add: sample_run_result)
qed

theorem runner_result_witness:
  "\<exists>result status. ad_result (ru_dir (snd (runner_run sample_input sample_runner))) = Present result \<and>
     first_exit [sample_poll, exited_poll] = Some status \<and> rf_exit_code result = status_code status \<and>
     fst (result_state result) = A_Yielded"
proof -
  have "ru_actions sample_runner = []" "st_command (ri_start sample_input) = Present sample_command"
    by (simp_all add: runner_sample_defs)
  from runner_result [OF this sample_run_result, of 42] obtain xs p q rest status result where
    "ri_polls sample_input = xs @ p # q # rest" "first_exit (xs @ [p]) = Some status"
    "ad_result (ru_dir (snd (runner_run sample_input sample_runner))) = Present result"
    "rf_exit_code result = status_code status"
    by (auto simp: sample_run_result)
  moreover from this have "fst (result_state result) = A_Yielded"
    by (auto simp: sample_run_result result_state_def)
  moreover have "xs = [sample_poll]" "p = exited_poll"
    using calculation(1,2)
    by (cases xs; auto simp: sample_input_def Cons_eq_append_conv sample_poll_def sample_not_exited)+
  ultimately show ?thesis by auto
qed

theorem runner_returns_witness:
  "fst (runner_run sample_input sample_runner) = RunOk"
proof -
  have polls: "ri_polls sample_input = [sample_poll] @ exited_poll # exited_poll # []" by (simp add: sample_input_def)
  have calls: "\<forall>v\<in>set ([sample_poll] @ [exited_poll, exited_poll]). calls_succeed v"
    by (simp add: calls_succeed_def runner_sample_defs)
  have exit: "first_exit ([sample_poll] @ [exited_poll]) \<noteq> None"
    by (simp add: runner_sample_defs sample_not_exited sample_status)
  have wait: "st_instant (ri_start sample_input) + ns_of_ms (cf_start_wait_ms sample_command) = 1000000000"
    by (simp add: runner_sample_defs ns_of_ms_def)
  show ?thesis
    using runner_returns [OF sample_announced _ sample_launched polls calls exit] sample_granted
    by (simp add: wait) (simp add: runner_sample_defs sample_group spawned_runner_def)
qed

end
