(* ===== verification/Daemon_Shell.thy ===== *)
theory Daemon_Shell
  imports Coordinator
begin

text \<open>
  Model of the connections of \<^verbatim>\<open>src/src/daemon/mod.rs\<close>: the request/response loop of a
  client connection, and the stream a subscription turns it into. The bytes a peer sends before it
  closes (or stays silent for the idle timeout) are a list, the coordinator is asked through its
  message loop, and the JSON codec of requests and responses is the record \<open>wire\<close>.

  An iteration of a stream has as input how the coordinator answers at that time, whether the write
  fails or stalls, and what ends the wait: a new revision, the end of the coordinator, or anything
  from the peer. Accepting connections, the singleton lock, the tick timer and the shutdown
  are in \<open>Server\<close>.
\<close>

record wire =
  wr_encode_request :: "request \<Rightarrow> 8 word list"
  wr_decode_request :: "8 word list \<Rightarrow> string + request"
  wr_encode_response :: "response \<Rightarrow> 8 word list"
  wr_decode_response :: "8 word list \<Rightarrow> string + response"

definition max_subscriptions :: "config \<Rightarrow> nat" where
  "max_subscriptions cfg = min (max (cfg_max_connections cfg div 4) 1) (cfg_max_connections cfg - 1)"

definition max_frame :: "config \<Rightarrow> 32 word" where
  "max_frame cfg = word_of_nat (cfg_max_frame_bytes cfg)"

text \<open>The coordinator handles the request as one message of its loop.\<close>

definition ask :: "services \<Rightarrow> world \<Rightarrow> request \<Rightarrow> coordinator \<Rightarrow> response \<times> coordinator" where
  "ask svc w rq co = (let (resp, co) = handle_request svc w rq co in (resp, publish_revision co))"

section \<open>Requests and responses\<close>

fun io_error_text :: "io_error \<Rightarrow> string" where
  "io_error_text (InvalidInput e) = e"
| "io_error_text (InvalidData e) = e"
| "io_error_text UnexpectedEof = ''unexpected end of file''"

definition error_response :: "string \<Rightarrow> error_code \<Rightarrow> string \<Rightarrow> response" where
  "error_response request_id code message =
     \<lparr>rs_request_id = request_id, rs_reply = None, rs_error = Some \<lparr>eb_code = code, eb_message = message\<rparr>\<rparr>"

fun is_subscription :: "op \<Rightarrow> bool" where
  "is_subscription Subscribe = True"
| "is_subscription (SubscribeJob job aft) = True"
| "is_subscription _ = False"

text \<open>
  How a connection ends; \<open>ConnStream\<close> is the hand-over to \<open>stream_updates\<close>. \<open>slot_free\<close> says
  whether a subscription slot can be acquired.
\<close>

datatype conn_end = ConnClosed | ConnFailed string | ConnStream request

function serve_frames ::
  "wire \<Rightarrow> services \<Rightarrow> world \<Rightarrow> config \<Rightarrow> bool \<Rightarrow> 8 word list \<Rightarrow> 8 word list \<Rightarrow> coordinator \<Rightarrow>
     conn_end \<times> 8 word list \<times> coordinator" where
  "serve_frames wr svc w cfg slot_free inp out co =
     (case read_frame inp (max_frame cfg) of
        Inr (None, _) \<Rightarrow> (ConnClosed, out, co)
      | Inl err \<Rightarrow>
          (ConnClosed,
           case write_frame out (wr_encode_response wr (error_response [] MALFORMED_REQUEST (io_error_text err)))
                  (max_frame cfg) of
             Inr out' \<Rightarrow> out' | Inl _ \<Rightarrow> out,
           co)
      | Inr (Some frame, inp') \<Rightarrow>
          (let respond = (\<lambda>response co.
             case write_frame out (wr_encode_response wr response) (max_frame cfg) of
               Inl err \<Rightarrow> (ConnFailed (io_error_text err), out, co)
             | Inr out' \<Rightarrow> serve_frames wr svc w cfg slot_free inp' out' co)
           in case wr_decode_request wr frame of
                Inl err \<Rightarrow> respond (error_response [] MALFORMED_REQUEST (''invalid request JSON: '' @ err)) co
              | Inr rq \<Rightarrow>
                  if is_subscription (rq_op rq) then
                    (if slot_free then (ConnStream rq, out, co)
                     else respond (error_response (rq_request_id rq) TOO_MANY_SUBSCRIPTIONS
                            (''all '' @ show_nat (max_subscriptions cfg) @ '' subscription slots are in use; retry shortly'')) co)
                  else (let (response, co) = ask svc w rq co in respond response co)))"
  by pat_completeness auto
termination
  by (relation "measure (\<lambda>(wr, svc, w, cfg, slot_free, inp, out, co). length inp)") (auto dest: read_frame_consumes)

declare serve_frames.simps [simp del]

definition handle_connection ::
  "wire \<Rightarrow> services \<Rightarrow> world \<Rightarrow> config \<Rightarrow> bool \<Rightarrow> nat \<Rightarrow> nat \<Rightarrow> 8 word list \<Rightarrow> coordinator \<Rightarrow>
     conn_end \<times> 8 word list \<times> coordinator" where
  "handle_connection wr svc w cfg slot_free peer_uid euid inp co =
     (if peer_uid \<noteq> euid
      then (ConnFailed (''rejecting connection from uid '' @ show_nat peer_uid @ '' (daemon runs as '' @
              show_nat euid @ '')''), [], co)
      else serve_frames wr svc w cfg slot_free inp [] co)"

section \<open>Streams\<close>

text \<open>A page that does not fit the frame is halved; the omitted events are fetched next.\<close>

definition halve_page :: "job_update_view \<Rightarrow> job_update_view" where
  "halve_page u =
     (let evs = take (length (ju_events u) div 2) (ju_events u)
      in u\<lparr>ju_events := evs, ju_cursor := ev_id (last evs), ju_has_more := True\<rparr>)"

function shrink_page :: "(response \<Rightarrow> 8 word list) \<Rightarrow> nat \<Rightarrow> response \<Rightarrow> job_update_view \<Rightarrow> job_update_view" where
  "shrink_page encode mx resp u =
     (if mx < length (encode (resp\<lparr>rs_reply := Some (R_JobUpdate u)\<rparr>)) \<and> 1 < length (ju_events u)
      then shrink_page encode mx resp (halve_page u) else u)"
  by pat_completeness auto
termination
  by (relation "measure (\<lambda>(encode, mx, resp, u). length (ju_events u))") (auto simp: halve_page_def Let_def)

declare shrink_page.simps [simp del]

definition shrink_response :: "(response \<Rightarrow> 8 word list) \<Rightarrow> config \<Rightarrow> response \<Rightarrow> response" where
  "shrink_response encode cfg resp =
     (case rs_reply resp of
        Some (R_JobUpdate u) \<Rightarrow>
          resp\<lparr>rs_reply := Some (R_JobUpdate (shrink_page encode (cfg_max_frame_bytes cfg) resp u))\<rparr>
      | _ \<Rightarrow> resp)"

datatype wake = RevisionChanged | CoordinatorGone | PeerActivity

record stream_input =
  sn_ask :: "request \<Rightarrow> response option"
  sn_write_error :: "string option"
  sn_wake :: wake

record stream =
  sm_request :: request
  sm_sent :: "8 word list option"
  sm_first :: bool
  sm_out :: "8 word list"

datatype stream_end = StreamOpen | StreamClosed | StreamFailed string

definition resume_after :: "int \<Rightarrow> request \<Rightarrow> request" where
  "resume_after cursor rq =
     (case rq_op rq of
        SubscribeJob job _ \<Rightarrow> rq\<lparr>rq_op := SubscribeJob job (Some cursor)\<rparr>
      | _ \<Rightarrow> rq)"

definition is_job_stream :: "request \<Rightarrow> bool" where
  "is_job_stream rq = (case rq_op rq of SubscribeJob job aft \<Rightarrow> True | _ \<Rightarrow> False)"

text \<open>Whether the response is sent, whether more pages wait, and the request of the next iteration.\<close>

definition stream_plan :: "response \<Rightarrow> 8 word list \<Rightarrow> stream \<Rightarrow> bool \<times> bool \<times> request" where
  "stream_plan resp bytes st =
     (case rs_reply resp of
        Some (R_JobUpdate u) \<Rightarrow>
          (sm_first st \<or> ju_events u \<noteq> [], ju_has_more u, resume_after (ju_cursor u) (sm_request st))
      | _ \<Rightarrow> (sm_sent st \<noteq> Some bytes, False, sm_request st))"

definition stream_write :: "config \<Rightarrow> stream_input \<Rightarrow> 8 word list \<Rightarrow> stream \<Rightarrow> string + stream" where
  "stream_write cfg i bytes st =
     (case sn_write_error i of
        Some e \<Rightarrow> Inl e
      | None \<Rightarrow>
          (case write_frame (sm_out st) bytes (max_frame cfg) of
             Inl e \<Rightarrow> Inl (io_error_text e)
           | Inr out \<Rightarrow>
               Inr (st\<lparr>sm_out := out,
                      sm_sent := if is_job_stream (sm_request st) then sm_sent st else Some bytes\<rparr>)))"

fun stream_updates :: "wire \<Rightarrow> config \<Rightarrow> stream_input list \<Rightarrow> stream \<Rightarrow> stream_end \<times> stream" where
  "stream_updates wr cfg [] st = (StreamOpen, st)"
| "stream_updates wr cfg (i # is) st =
     (case sn_ask i (sm_request st) of
        None \<Rightarrow> (StreamClosed, st)
      | Some answer \<Rightarrow>
          (let resp = shrink_response (wr_encode_response wr) cfg answer;
               bytes = wr_encode_response wr resp;
               (send, has_more, request) = stream_plan resp bytes st;
               st = st\<lparr>sm_request := request\<rparr>
           in case (if send then stream_write cfg i bytes st else Inr st) of
                Inl e \<Rightarrow> (StreamFailed e, st)
              | Inr st \<Rightarrow>
                  if rs_error answer \<noteq> None then (StreamClosed, st)
                  else if has_more then stream_updates wr cfg is (st\<lparr>sm_first := False\<rparr>)
                  else (case sn_wake i of
                          RevisionChanged \<Rightarrow> stream_updates wr cfg is (st\<lparr>sm_first := False\<rparr>)
                        | CoordinatorGone \<Rightarrow> (StreamClosed, st)
                        | PeerActivity \<Rightarrow> (StreamClosed, st))))"

end
