(* ===== verification/Client.thy ===== *)
theory Client
  imports Daemon_Shell
begin

text \<open>
  Model of \<^verbatim>\<open>src/src/client.rs\<close>: a request with its retries, and the two subscriptions. A
  socket of the daemon is what happens to the bytes written to it: connecting fails, or the bytes are
  exchanged, which changes the state behind the socket and gives the bytes to read or an error. The
  JSON codec is the record \<open>wire\<close>; the errors of \<open>anyhow\<close> are their text.
\<close>

definition CLIENT_RETRIES :: nat where
  "CLIENT_RETRIES = 3"

datatype transport_error = TransportFrame io_error | TransportOs string

datatype client_error =
    Unavailable string transport_error
  | Daemon error_body
  | Other string

record 's socket =
  sk_connect :: "transport_error option"
  sk_exchange :: "8 word list \<Rightarrow> 's \<Rightarrow> (transport_error + 8 word list) \<times> 's"

definition frame_result :: "io_error + 'a \<Rightarrow> transport_error + 'a" where
  "frame_result r = (case r of Inl e \<Rightarrow> Inl (TransportFrame e) | Inr x \<Rightarrow> Inr x)"

section \<open>Requests\<close>

definition read_response :: "wire \<Rightarrow> 8 word list \<Rightarrow> transport_error + response" where
  "read_response wr inp =
     bindE (frame_result (read_frame inp DEFAULT_MAX_FRAME_BYTES)) (\<lambda>(frame, _).
     bindE (ok_or (TransportFrame UnexpectedEof) frame) (\<lambda>frame.
       case wr_decode_response wr frame of
         Inl e \<Rightarrow> Inl (TransportFrame (InvalidData e))
       | Inr response \<Rightarrow> Inr response))"

definition try_once :: "wire \<Rightarrow> 's socket \<Rightarrow> request \<Rightarrow> 's \<Rightarrow> (transport_error + response) \<times> 's" where
  "try_once wr sock rq s =
     (case sk_connect sock of
        Some e \<Rightarrow> (Inl e, s)
      | None \<Rightarrow>
          (case write_frame [] (wr_encode_request wr rq) DEFAULT_MAX_FRAME_BYTES of
             Inl e \<Rightarrow> (Inl (TransportFrame e), s)
           | Inr out \<Rightarrow>
               (let (inp, s) = sk_exchange sock out s in (bindE inp (read_response wr), s))))"

definition response_reply :: "response \<Rightarrow> client_error + reply" where
  "response_reply response =
     (case rs_error response of
        Some e \<Rightarrow> Inl (Daemon e)
      | None \<Rightarrow> ok_or (Other ''daemon response carried neither reply nor error'') (rs_reply response))"

text \<open>The loop over the attempts; \<open>last_io\<close> is the error of the last one.\<close>

fun request_attempts ::
  "wire \<Rightarrow> string \<Rightarrow> 's socket list \<Rightarrow> transport_error \<Rightarrow> request \<Rightarrow> 's \<Rightarrow> (client_error + reply) \<times> 's" where
  "request_attempts wr path [] last_io rq s = (Inl (Unavailable path last_io), s)"
| "request_attempts wr path (sock # socks) last_io rq s =
     (case try_once wr sock rq s of
        (Inr response, s) \<Rightarrow> (response_reply response, s)
      | (Inl e, s) \<Rightarrow> request_attempts wr path socks e rq s)"

text \<open>The socket of each attempt is what the client finds then.\<close>

definition client_request ::
  "wire \<Rightarrow> paths \<Rightarrow> (nat \<Rightarrow> 's socket) \<Rightarrow> string \<Rightarrow> op \<Rightarrow> string option \<Rightarrow> 's \<Rightarrow> (client_error + reply) \<times> 's" where
  "client_request wr p socks request_id o' key s =
     request_attempts wr (socket_path p) (map socks [0..<CLIENT_RETRIES]) (TransportOs [])
       \<lparr>rq_protocol_version = PROTOCOL_VERSION, rq_request_id = request_id, rq_idempotency_key = key, rq_op = o'\<rparr> s"

section \<open>Subscriptions\<close>

definition unexpected :: "string \<Rightarrow> string" where
  "unexpected expected = ''daemon returned an unexpected reply (expected '' @ expected @ '')''"

text \<open>One iteration of the loop of \<open>subscribe\<close>: \<open>None\<close> is the clean end of the stream.\<close>

definition next_snapshot ::
  "wire \<Rightarrow> string \<Rightarrow> 8 word list \<Rightarrow> client_error + (status_view \<times> 8 word list) option" where
  "next_snapshot wr path inp =
     (case read_frame inp DEFAULT_MAX_FRAME_BYTES of
        Inl e \<Rightarrow> Inl (Unavailable path (TransportFrame e))
      | Inr (None, _) \<Rightarrow> Inr None
      | Inr (Some frame, inp') \<Rightarrow>
          (case wr_decode_response wr frame of
             Inl e \<Rightarrow> Inl (Other (''daemon sent invalid JSON: '' @ e))
           | Inr response \<Rightarrow>
               (case rs_error response of
                  Some e \<Rightarrow> Inl (Daemon e)
                | None \<Rightarrow>
                    (case rs_reply response of
                       Some (R_Status v) \<Rightarrow> Inr (Some (v, inp'))
                     | _ \<Rightarrow> Inl (Other (unexpected ''status''))))))"

text \<open>
  The loop of \<open>subscribe\<close>. The callback changes a state of the caller and may fail, which ends the
  subscription with its error.
\<close>

function snapshots ::
  "wire \<Rightarrow> string \<Rightarrow> (status_view \<Rightarrow> 's \<Rightarrow> string option \<times> 's) \<Rightarrow> 8 word list \<Rightarrow> 's \<Rightarrow> client_error option \<times> 's" where
  "snapshots wr path on_snapshot inp s =
     (case next_snapshot wr path inp of
        Inl e \<Rightarrow> (Some e, s)
      | Inr None \<Rightarrow> (None, s)
      | Inr (Some (v, inp')) \<Rightarrow>
          (case on_snapshot v s of
             (Some e, s) \<Rightarrow> (Some (Other e), s)
           | (None, s) \<Rightarrow> snapshots wr path on_snapshot inp' s))"
  by pat_completeness auto
termination
  by (relation "measure (\<lambda>(wr, path, on_snapshot, inp, s). length inp)")
    (auto simp: next_snapshot_def dest: read_frame_consumes split: sum.splits option.splits prod.splits reply.splits)

text \<open>
  Opening a subscription writes its request once: \<open>failure\<close> is the error of the connection (for a
  job subscription also the time-out of its opening). The result are the bytes written.
\<close>

definition open_subscription :: "wire \<Rightarrow> string \<Rightarrow> transport_error option \<Rightarrow> request \<Rightarrow> client_error + 8 word list" where
  "open_subscription wr path failure rq =
     (case failure of
        Some e \<Rightarrow> Inl (Unavailable path e)
      | None \<Rightarrow>
          (case write_frame [] (wr_encode_request wr rq) DEFAULT_MAX_FRAME_BYTES of
             Inl e \<Rightarrow> Inl (Unavailable path (TransportFrame e))
           | Inr out \<Rightarrow> Inr out))"

text \<open>\<open>answer\<close> is what the daemon sends on the stream opened with the request.\<close>

definition subscribe ::
  "wire \<Rightarrow> paths \<Rightarrow> transport_error option \<Rightarrow> string \<Rightarrow> (8 word list \<Rightarrow> 8 word list) \<Rightarrow>
     (status_view \<Rightarrow> 's \<Rightarrow> string option \<times> 's) \<Rightarrow> 's \<Rightarrow> client_error option \<times> 's" where
  "subscribe wr p failure request_id answer on_snapshot s =
     (case open_subscription wr (socket_path p) failure
             \<lparr>rq_protocol_version = PROTOCOL_VERSION, rq_request_id = request_id, rq_idempotency_key = None,
              rq_op = Subscribe\<rparr> of
        Inl e \<Rightarrow> (Some e, s)
      | Inr out \<Rightarrow> snapshots wr (socket_path p) on_snapshot (answer out) s)"

record job_subscription =
  js_socket :: string
  js_request_id :: string
  js_job :: job_id
  js_cursor :: "int option"

definition subscription_request :: "string \<Rightarrow> job_id \<Rightarrow> int option \<Rightarrow> request" where
  "subscription_request request_id job aft =
     \<lparr>rq_protocol_version = PROTOCOL_VERSION, rq_request_id = request_id, rq_idempotency_key = None,
      rq_op = SubscribeJob job aft\<rparr>"

definition connect_job ::
  "wire \<Rightarrow> paths \<Rightarrow> transport_error option \<Rightarrow> string \<Rightarrow> job_id \<Rightarrow> int option \<Rightarrow>
     client_error + job_subscription \<times> 8 word list" where
  "connect_job wr p failure request_id job aft =
     bindE (open_subscription wr (socket_path p) failure (subscription_request request_id job aft)) (\<lambda>out.
       Inr (\<lparr>js_socket = socket_path p, js_request_id = request_id, js_job = job, js_cursor = aft\<rparr>, out))"

lemma connect_job_Inr:
  "connect_job wr p failure rid job aft = Inr (js, out) \<Longrightarrow>
     js = \<lparr>js_socket = socket_path p, js_request_id = rid, js_job = job, js_cursor = aft\<rparr> \<and>
     write_frame [] (wr_encode_request wr (subscription_request rid job aft)) DEFAULT_MAX_FRAME_BYTES = Inr out"
  by (auto simp: connect_job_def open_subscription_def split: option.splits sum.splits)

text \<open>The events of an update must belong to the job and climb from the cursor to the new one.\<close>

fun check_events :: "job_id \<Rightarrow> int \<Rightarrow> int \<Rightarrow> event_view list \<Rightarrow> bool" where
  "check_events job limit cursor [] = True"
| "check_events job limit cursor (e # es) \<longleftrightarrow>
     \<not> (ev_job e \<noteq> Some job \<or> ev_id e \<le> cursor \<or> limit < ev_id e) \<and> check_events job limit (ev_id e) es"

definition accept_update :: "job_update_view \<Rightarrow> job_subscription \<Rightarrow> client_error + job_update_view \<times> job_subscription" where
  "accept_update u js =
     (let cursor = (case js_cursor js of None \<Rightarrow> 0 | Some c \<Rightarrow> c) in
      if jv_id (ju_job u) \<noteq> js_job js \<or> ju_cursor u < cursor \<or> (ju_has_more u \<and> ju_events u = [])
      then Inl (Other ''invalid job subscription snapshot'')
      else if \<not> check_events (js_job js) (ju_cursor u) cursor (ju_events u)
      then Inl (Other ''invalid job subscription event cursor'')
      else Inr (u, js\<lparr>js_cursor := Some (ju_cursor u)\<rparr>))"

definition next_update ::
  "wire \<Rightarrow> 8 word list \<Rightarrow> job_subscription \<Rightarrow> client_error + (job_update_view \<times> job_subscription) \<times> 8 word list" where
  "next_update wr inp js =
     (case read_frame inp DEFAULT_MAX_FRAME_BYTES of
        Inl e \<Rightarrow> Inl (Unavailable (js_socket js) (TransportFrame e))
      | Inr (None, _) \<Rightarrow> Inl (Unavailable (js_socket js) (TransportFrame UnexpectedEof))
      | Inr (Some frame, inp') \<Rightarrow>
          (case wr_decode_response wr frame of
             Inl e \<Rightarrow> Inl (Other (''daemon sent invalid JSON: '' @ e))
           | Inr response \<Rightarrow>
               if rs_request_id response \<noteq> js_request_id js
               then Inl (Other ''subscription response request id mismatch'')
               else
                 (case rs_error response of
                    Some e \<Rightarrow> Inl (Daemon e)
                  | None \<Rightarrow>
                      (case rs_reply response of
                         Some (R_JobUpdate u) \<Rightarrow> bindE (accept_update u js) (\<lambda>r. Inr (r, inp'))
                       | _ \<Rightarrow> Inl (Other (unexpected ''job_update''))))))"

end
