(* ===== verification/Client_Properties.thy ===== *)
theory Client_Properties
  imports Client Request_Properties
begin

text \<open>
  The two ends of the wire together: a client that subscribes to a job gets every event of the job
  once and in order, and a mutation that the client sends again after a transport failure takes
  effect once.
\<close>

section \<open>The event log\<close>

definition wf_log :: "database \<Rightarrow> bool" where
  "wf_log db \<longleftrightarrow> 0 \<le> event_seq db \<and> sorted_wrt (<) (map e_id (events db)) \<and>
     (\<forall>e\<in>set (events db). 0 < e_id e \<and> e_id e \<le> event_seq db)"

text \<open>The selected entries of the log behind a cursor, up to another one or to the end.\<close>

definition log_slice :: "(event_row \<Rightarrow> bool) \<Rightarrow> database \<Rightarrow> int \<Rightarrow> int \<Rightarrow> event_row list" where
  "log_slice P db a b = filter (\<lambda>e. P e \<and> a < e_id e \<and> e_id e \<le> b) (events db)"

definition log_after :: "(event_row \<Rightarrow> bool) \<Rightarrow> database \<Rightarrow> int \<Rightarrow> event_row list" where
  "log_after P db a = filter (\<lambda>e. P e \<and> a < e_id e) (events db)"

definition job_log :: "database \<Rightarrow> job_id \<Rightarrow> int \<Rightarrow> int \<Rightarrow> event_row list" where
  "job_log db job a b = log_slice (\<lambda>e. e_job e = Some job) db a b"

definition job_log_from :: "database \<Rightarrow> job_id \<Rightarrow> int \<Rightarrow> event_row list" where
  "job_log_from db job a = log_after (\<lambda>e. e_job e = Some job) db a"

lemma upto_sorted: "sorted_wrt (<) [a..b::int]"
  by (induction a b rule: upto.induct) (subst upto.simps, simp)

lemma wf_log_logged:
  assumes "wf_log db" "logged db db'"
  shows "wf_log db'"
proof -
  obtain es where es: "events db' = events db @ es" "map e_id es = [event_seq db + 1 .. event_seq db']"
    and le: "event_seq db \<le> event_seq db'"
    using assms(2) by (auto simp: logged_def)
  have ids: "e_id e \<in> {event_seq db + 1 .. event_seq db'}" if "e \<in> set es" for e
    using that es(2) by (metis image_eqI set_map set_upto)
  show ?thesis
    using assms(1) le ids upto_sorted [of "event_seq db + 1" "event_seq db'"]
    by (fastforce simp: wf_log_def es sorted_wrt_append)
qed

lemma log_slice_logged:
  assumes "logged db db'" and "b \<le> event_seq db"
  shows "log_slice P db' a b = log_slice P db a b"
proof -
  obtain es where es: "events db' = events db @ es" "map e_id es = [event_seq db + 1 .. event_seq db']"
    using assms(1) by (auto simp: logged_def)
  have "event_seq db < e_id e" if "e \<in> set es" for e
    using that es(2) by (metis image_eqI set_map set_upto atLeastAtMost_iff zless_add1_eq zle_add1_eq_le linorder_not_le)
  then have "filter (\<lambda>e. P e \<and> a < e_id e \<and> e_id e \<le> b) es = []"
    using assms(2) by (fastforce simp: filter_empty_conv)
  then show ?thesis by (simp add: log_slice_def es(1))
qed

lemma log_slice_extend:
  assumes "wf_log db" and "a \<le> b" "b \<le> c"
  shows "log_slice P db a c = log_slice P db a b @ log_slice P db b c"
proof -
  have "filter (\<lambda>e. P e \<and> a < e_id e \<and> e_id e \<le> c) es =
      filter (\<lambda>e. P e \<and> a < e_id e \<and> e_id e \<le> b) es @
      filter (\<lambda>e. P e \<and> b < e_id e \<and> e_id e \<le> c) es"
    if "sorted_wrt (<) (map e_id es)" for es :: "event_row list"
    using that
  proof (induction es)
    case (Cons e es)
    show ?case
    proof (cases "e_id e \<le> b")
      case False
      then have "filter (\<lambda>e. P e \<and> a < e_id e \<and> e_id e \<le> b) es = []"
        using Cons.prems by (auto simp: filter_empty_conv)
      then show ?thesis using Cons False assms by auto
    qed (use Cons assms in auto)
  qed simp
  then show ?thesis using assms(1) by (simp add: log_slice_def wf_log_def)
qed

lemma log_slice_same [simp]: "log_slice P db a a = []"
  by (simp add: log_slice_def filter_empty_conv)

text \<open>A prefix of what follows the cursor is the log up to its last entry.\<close>

lemma log_slice_prefix:
  assumes "wf_log db" and "log_after P db a = es @ es'" and "es \<noteq> []"
  shows "log_slice P db a (e_id (last es)) = es"
proof -
  have "sorted_wrt (<) (map e_id (es @ es'))"
    using assms(1) unfolding assms(2) [symmetric] log_after_def
    by (simp add: wf_log_def sorted_wrt_map sorted_wrt_filter)
  then have low: "\<forall>e\<in>set es. e_id e \<le> e_id (last es)" and high: "\<forall>e\<in>set es'. e_id (last es) < e_id e"
    using assms(3) by (cases es rule: rev_cases; auto simp: sorted_wrt_append less_imp_le)+
  have "log_slice P db a (e_id (last es)) = filter (\<lambda>e. e_id e \<le> e_id (last es)) (es @ es')"
    unfolding assms(2) [symmetric] by (simp add: log_slice_def log_after_def conj_ac)
  also have "\<dots> = es"
    using low high by (auto simp: filter_empty_conv not_le)
  finally show ?thesis .
qed

lemmas job_log_logged = log_slice_logged [where P = "\<lambda>e. e_job e = Some job" for job, folded job_log_def]
  and job_log_extend = log_slice_extend [where P = "\<lambda>e. e_job e = Some job" for job, folded job_log_def]
  and job_log_same [simp] = log_slice_same [where P = "\<lambda>e. e_job e = Some job" for job, folded job_log_def]
  and job_log_prefix = log_slice_prefix [where P = "\<lambda>e. e_job e = Some job" for job, folded job_log_def job_log_from_def]

section \<open>Pages\<close>

text \<open>
  A page of the subscription of \<open>job\<close> from cursor \<open>c\<close>: the events of the job from the cursor to the
  new one, and whether more follow.
\<close>

definition page_ok :: "database \<Rightarrow> job_id \<Rightarrow> int \<Rightarrow> job_update_view \<Rightarrow> bool" where
  "page_ok db job c u \<longleftrightarrow>
     jv_id (ju_job u) = job \<and>
     (\<exists>es es'. job_log_from db job c = es @ es' \<and> map ev_id (ju_events u) = map e_id es \<and>
        list_all (\<lambda>e. ev_job e = Some job) (ju_events u) \<and>
        ju_cursor u = (if es = [] then c else e_id (last es)) \<and>
        (ju_has_more u \<longrightarrow> es \<noteq> []) \<and> (\<not> ju_has_more u \<longrightarrow> es' = []))"

lemma job_view_id: "job_view db p now row b = Inr v \<Longrightarrow> jv_id v = j_id row"
  by (auto simp: job_view_def Let_def bindE_eq_Inr)

lemma take_page:
  "(if n < length (take (n + 1) l) then butlast (take (n + 1) l) else take (n + 1) l) = take n l"
proof (cases "n < length l")
  case True
  then show ?thesis using butlast_take [of "n + 1" l] by (simp add: Suc_le_eq)
qed simp

lemma page_rows:
  "job_events_after db job c n = map (event_from_row db) (take n (job_log_from db job c))"
  by (simp add: job_events_after_def job_log_from_def log_after_def)

lemma subscribe_job_fields:
  assumes "subscribe_job w job aft co = Inr (R_JobUpdate u)"
  shows "jv_id (ju_job u) = job"
    and "aft = None \<Longrightarrow> ju_cursor u = latest_event_id (co_db co) \<and> ju_events u = [] \<and> \<not> ju_has_more u"
    and "aft = Some c \<Longrightarrow> 0 \<le> c \<and>
      ju_events u = map (event_view \<circ> event_from_row (co_db co)) (take PAGE_SIZE (job_log_from (co_db co) job c)) \<and>
      (ju_has_more u \<longleftrightarrow> PAGE_SIZE < length (job_log_from (co_db co) job c)) \<and>
      ju_cursor u = (if ju_events u = [] then c else ev_id (last (ju_events u)))"
proof -
  obtain row v where row: "job_row (co_db co) job = Some row"
    and v: "job_view (co_db co) (co_paths co) (w_now w) row False = Inr v"
    using assms by (auto simp: subscribe_job_def Let_def get_job_def result_eqs internal_eq_Inr)
  have "jv_id v = job"
    using job_view_id [OF v] job_row_id [OF row] by simp
  moreover have "jv_id (ju_job u) = jv_id v"
    using assms row v
    by (auto simp: subscribe_job_def get_job_def internal_def result_eqs Let_def split: option.splits prod.splits)
  ultimately show "jv_id (ju_job u) = job" by simp
  show "ju_cursor u = latest_event_id (co_db co) \<and> ju_events u = [] \<and> \<not> ju_has_more u" if "aft = None"
    using assms row v that
    by (auto simp: subscribe_job_def get_job_def internal_def result_eqs Let_def split: option.splits)
  have page: "(if PAGE_SIZE < length rows then butlast rows else rows) = map f (take PAGE_SIZE l)"
    if "rows = map f (take (PAGE_SIZE + 1) l)" for rows :: "event_info list" and f and l :: "event_row list"
    using take_page [of PAGE_SIZE l] that by (auto simp: map_butlast [symmetric] simp del: take_Suc)
  show "0 \<le> c \<and> ju_events u = map (event_view \<circ> event_from_row (co_db co)) (take PAGE_SIZE (job_log_from (co_db co) job c)) \<and>
      (ju_has_more u \<longleftrightarrow> PAGE_SIZE < length (job_log_from (co_db co) job c)) \<and>
      ju_cursor u = (if ju_events u = [] then c else ev_id (last (ju_events u)))" if "aft = Some c"
  proof -
    define rows where "rows = job_events_after (co_db co) job c (PAGE_SIZE + 1)"
    define pg where "pg = (if PAGE_SIZE < length rows then butlast rows else rows)"
    have "0 \<le> c" "ju_events u = map event_view pg" "ju_has_more u = (PAGE_SIZE < length rows)"
      "ju_cursor u = (if pg = [] then c else ei_id (last pg))"
      using assms row v that
      by (auto simp: subscribe_job_def get_job_def internal_def result_eqs Let_def rows_def pg_def
          simp del: One_nat_def split: option.splits)
    moreover have "pg = map (event_from_row (co_db co)) (take PAGE_SIZE (job_log_from (co_db co) job c))"
      unfolding pg_def by (rule page) (simp only: rows_def page_rows)
    moreover have "PAGE_SIZE < length rows \<longleftrightarrow> PAGE_SIZE < length (job_log_from (co_db co) job c)"
      by (simp add: rows_def page_rows)
    ultimately show ?thesis by (auto simp: last_map event_view_def)
  qed
qed

lemma subscribe_job_page:
  assumes "subscribe_job w job (Some c) co = Inr (R_JobUpdate u)"
  shows "page_ok (co_db co) job c u"
proof -
  let ?l = "job_log_from (co_db co) job c"
  note f = subscribe_job_fields(3) [OF assms refl]
  have "?l = take PAGE_SIZE ?l @ drop PAGE_SIZE ?l" by simp
  moreover have "map ev_id (ju_events u) = map e_id (take PAGE_SIZE ?l)"
    using f by (simp add: event_view_def event_from_row_def)
  moreover have "list_all (\<lambda>e. ev_job e = Some job) (ju_events u)"
    using f by (auto simp: list_all_iff event_view_def event_from_row_def job_log_from_def log_after_def dest!: in_set_takeD)
  moreover have "ju_cursor u = (if take PAGE_SIZE ?l = [] then c else e_id (last (take PAGE_SIZE ?l)))"
    using f by (auto simp: last_map event_view_def event_from_row_def)
  moreover have "ju_has_more u \<longrightarrow> take PAGE_SIZE ?l \<noteq> []" "\<not> ju_has_more u \<longrightarrow> drop PAGE_SIZE ?l = []"
    using f by (auto simp: PAGE_SIZE_def)
  ultimately show ?thesis
    unfolding page_ok_def using subscribe_job_fields(1) [OF assms] by blast
qed

lemma page_ok_halve:
  assumes "page_ok db job c u" and "1 < length (ju_events u)"
  shows "page_ok db job c (halve_page u)"
proof -
  obtain es es' where es: "job_log_from db job c = es @ es'" "map ev_id (ju_events u) = map e_id es"
    "list_all (\<lambda>e. ev_job e = Some job) (ju_events u)" and "jv_id (ju_job u) = job"
    using assms(1) by (auto simp: page_ok_def)
  define n where "n = length (ju_events u) div 2"
  have len: "length es = length (ju_events u)" using es(2) by (metis length_map)
  then have n: "0 < n" "n < length es" using assms(2) by (auto simp: n_def)
  have ids: "map ev_id (take n (ju_events u)) = map e_id (take n es)"
    using es(2) by (metis take_map)
  have "ev_id (last (take n (ju_events u))) = e_id (last (take n es))"
    using ids n len by (metis last_map take_eq_Nil list.size(3) not_less_zero less_irrefl_nat)
  moreover have "list_all (\<lambda>e. ev_job e = Some job) (take n (ju_events u))"
    using es(3) by (auto simp: list_all_iff dest: in_set_takeD)
  moreover have "job_log_from db job c = take n es @ (drop n es @ es')" using es(1) by simp
  moreover have "take n es \<noteq> []" using n by auto
  ultimately have "jv_id (ju_job (halve_page u)) = job \<and>
      job_log_from db job c = take n es @ (drop n es @ es') \<and>
      map ev_id (ju_events (halve_page u)) = map e_id (take n es) \<and>
      list_all (\<lambda>e. ev_job e = Some job) (ju_events (halve_page u)) \<and>
      ju_cursor (halve_page u) = (if take n es = [] then c else e_id (last (take n es))) \<and>
      (ju_has_more (halve_page u) \<longrightarrow> take n es \<noteq> []) \<and> (\<not> ju_has_more (halve_page u) \<longrightarrow> drop n es @ es' = [])"
    using ids \<open>jv_id (ju_job u) = job\<close>
    by (simp add: halve_page_def Let_def n_def [symmetric])
  then show ?thesis unfolding page_ok_def by blast
qed

lemma page_ok_shrink: "page_ok db job c u \<Longrightarrow> page_ok db job c (shrink_page encode mx resp u)"
proof (induction encode mx resp u rule: shrink_page.induct)
  case (1 encode mx resp u)
  then show ?case
    using page_ok_halve [of db job c u] by (subst shrink_page.simps) auto
qed

text \<open>The client accepts such a page at its cursor, and its cursor moves with the page.\<close>

lemma check_events_sorted:
  assumes "sorted_wrt (<) (c # map ev_id evs)" and "\<forall>e\<in>set evs. ev_id e \<le> limit \<and> ev_job e = Some job"
  shows "check_events job limit c evs"
  using assms by (induction evs arbitrary: c) auto

lemma accept_page:
  assumes "wf_log db" and "page_ok db job c u" and "js_job js = job"
    and "(case js_cursor js of None \<Rightarrow> 0 | Some c \<Rightarrow> c) = c"
  shows "accept_update u js = Inr (u, js\<lparr>js_cursor := Some (ju_cursor u)\<rparr>)"
    and "map ev_id (ju_events u) = map e_id (job_log db job c (ju_cursor u))"
    and "c \<le> ju_cursor u" and "ju_cursor u = c \<or> ju_cursor u \<le> event_seq db"
    and "\<not> ju_has_more u \<Longrightarrow> job_log_from db job (ju_cursor u) = []"
proof -
  obtain es es' where es: "job_log_from db job c = es @ es'" "map ev_id (ju_events u) = map e_id es"
    "list_all (\<lambda>e. ev_job e = Some job) (ju_events u)" "jv_id (ju_job u) = job"
    "ju_cursor u = (if es = [] then c else e_id (last es))"
    "ju_has_more u \<longrightarrow> es \<noteq> []" "\<not> ju_has_more u \<longrightarrow> es' = []"
    using assms(2) by (auto simp: page_ok_def)
  have sorted: "sorted_wrt (<) (map e_id (es @ es'))"
    using assms(1) unfolding es(1) [symmetric] job_log_from_def log_after_def
    by (simp add: wf_log_def sorted_wrt_map sorted_wrt_filter)
  have above: "\<forall>e\<in>set (es @ es'). c < e_id e \<and> e \<in> set (events db)"
    unfolding es(1) [symmetric] job_log_from_def log_after_def by auto
  have low: "\<forall>e\<in>set es. e_id e \<le> ju_cursor u"
    using sorted es(5) by (cases es rule: rev_cases) (auto simp: sorted_wrt_append less_imp_le)
  show log: "map ev_id (ju_events u) = map e_id (job_log db job c (ju_cursor u))"
    using job_log_prefix [OF assms(1) es(1)] es(2,5) by (cases "es = []") auto
  show le: "c \<le> ju_cursor u" using above es(5) by (auto simp: less_imp_le)
  show "ju_cursor u = c \<or> ju_cursor u \<le> event_seq db"
    using above es(5) assms(1) by (auto simp: wf_log_def)
  have ids: "ev_id ` set (ju_events u) = e_id ` set es" using es(2) by (metis set_map)
  then have "\<forall>e\<in>set (ju_events u). ev_id e \<le> ju_cursor u"
    using low by (metis (no_types, lifting) image_iff imageI)
  moreover have "sorted_wrt (<) (c # map ev_id (ju_events u))"
    using sorted above by (auto simp: es(2) sorted_wrt_append)
  ultimately have "check_events job (ju_cursor u) c (ju_events u)"
    using es(3) by (intro check_events_sorted) (auto simp: list_all_iff)
  moreover have "ju_has_more u \<longrightarrow> ju_events u \<noteq> []"
    using es(2,6) by auto
  ultimately show "accept_update u js = Inr (u, js\<lparr>js_cursor := Some (ju_cursor u)\<rparr>)"
    using assms(3,4) es(4) le by (simp add: accept_update_def Let_def)
  show "job_log_from db job (ju_cursor u) = []" if "\<not> ju_has_more u"
  proof -
    have "job_log_from db job (ju_cursor u) = filter (\<lambda>e. ju_cursor u < e_id e) (job_log_from db job c)"
      using le by (auto simp: job_log_from_def log_after_def intro!: filter_cong)
    then show ?thesis using es(1,7) that low by (auto simp: filter_empty_conv not_less)
  qed
qed

section \<open>The stream and its client\<close>

text \<open>The client takes a number of updates from the bytes of the stream.\<close>

fun receive ::
  "wire \<Rightarrow> nat \<Rightarrow> 8 word list \<Rightarrow> job_subscription \<Rightarrow>
     client_error + job_update_view list \<times> job_subscription \<times> 8 word list" where
  "receive wr 0 inp js = Inr ([], js, inp)"
| "receive wr (Suc n) inp js =
     bindE (next_update wr inp js) (\<lambda>((u, js), inp).
     bindE (receive wr n inp js) (\<lambda>(us, js, inp). Inr (u # us, js, inp)))"

lemma read_frame_append:
  "read_frame inp mx = Inr (Some buf, rest) \<Longrightarrow> read_frame (inp @ tail) mx = Inr (Some buf, rest @ tail)"
  by (auto simp: read_frame_def read_exact_def Let_def split: if_splits option.splits)

lemma next_update_append:
  "next_update wr inp js = Inr (r, rest) \<Longrightarrow> next_update wr (inp @ tail) js = Inr (r, rest @ tail)"
  by (auto simp: next_update_def read_frame_append result_eqs
      split: sum.splits option.splits prod.splits if_splits reply.splits)

lemma receive_snoc:
  assumes "receive wr n out js0 = Inr (us, js, [])" and "next_update wr tail js = Inr ((u, js'), [])"
  shows "receive wr (Suc n) (out @ tail) js0 = Inr (us @ [u], js', [])"
  using assms(1)
proof (induction n arbitrary: out js0 us)
  case 0
  then show ?case using assms(2) by simp
next
  case (Suc n)
  then obtain v js1 inp vs where v: "next_update wr out js0 = Inr ((v, js1), inp)"
    "receive wr n inp js1 = Inr (vs, js, [])" "us = v # vs"
    by (auto simp: result_eqs)
  show ?case using next_update_append [OF v(1), of tail] Suc.IH [OF v(2)] v(3) by simp
qed

text \<open>A frame that fits the daemon's limit reaches the client whose limit is not smaller.\<close>

lemma delivered_update:
  assumes codec: "\<And>resp. length (wr_encode_response wr resp) \<le> unat (max_frame cfg) \<Longrightarrow>
      wr_decode_response wr (wr_encode_response wr resp) = Inr resp"
    and limit: "max_frame cfg \<le> DEFAULT_MAX_FRAME_BYTES"
    and written: "write_frame out (wr_encode_response wr resp) (max_frame cfg) = Inr out'"
    and resp: "rs_request_id resp = js_request_id js" "rs_error resp = None" "rs_reply resp = Some (R_JobUpdate u)"
    and accepted: "accept_update u js = Inr (u, js')"
  shows "\<exists>tail. out' = out @ tail \<and> next_update wr tail js = Inr ((u, js'), [])"
proof -
  obtain len where len: "frame_len (length (wr_encode_response wr resp)) (max_frame cfg) = Inr len"
    and out': "out' = out @ to_be_bytes len @ wr_encode_response wr resp"
    using written by (auto simp: write_frame_def result_eqs)
  then have "frame_len (length (wr_encode_response wr resp)) DEFAULT_MAX_FRAME_BYTES = Inr len"
    using limit by (auto simp: frame_len_ok word_le_nat_alt)
  from read_written_frame [OF this, of "[]"]
  have "next_update wr (to_be_bytes len @ wr_encode_response wr resp) js = Inr ((u, js'), [])"
    using resp accepted codec [of resp] len by (simp add: next_update_def frame_len_ok)
  then show ?thesis using out' by blast
qed

text \<open>How the coordinator stands when an iteration of the stream asks it.\<close>

definition asks :: "services \<Rightarrow> stream_input \<Rightarrow> world \<times> coordinator \<Rightarrow> bool" where
  "asks svc i wco \<longleftrightarrow> (\<forall>rq. sn_ask i rq = Some (fst (ask svc (fst wco) rq (snd wco))))"

fun log_chain :: "database \<Rightarrow> database list \<Rightarrow> bool" where
  "log_chain db [] = True"
| "log_chain db (d # ds) \<longleftrightarrow> logged db d \<and> log_chain d ds"

lemma ask_subscription:
  assumes "ask svc w (subscription_request rid job aft) co = (answer, co')"
  shows "rs_request_id answer = rid"
    and "rs_error answer = None \<Longrightarrow> \<exists>u. subscribe_job w job aft co = Inr (R_JobUpdate u) \<and> rs_reply answer = Some (R_JobUpdate u)"
proof -
  have "\<exists>u. subscribe_job w job aft co = Inr (R_JobUpdate u)" if "subscribe_job w job aft co = Inr reply" for reply
    using that by (auto simp: subscribe_job_def Let_def result_eqs split: option.splits)
  then show "rs_error answer = None \<Longrightarrow> \<exists>u. subscribe_job w job aft co = Inr (R_JobUpdate u) \<and> rs_reply answer = Some (R_JobUpdate u)"
    using assms
    by (auto simp: ask_def handle_request_def subscription_request_def handle_read_def Let_def split: sum.splits)
  show "rs_request_id answer = rid"
    using assms
    by (auto simp: ask_def handle_request_def subscription_request_def Let_def split: sum.splits)
qed

text \<open>
  The client is in step with the stream: it has taken every frame, and both stand at the same cursor.
\<close>

definition in_step ::
  "wire \<Rightarrow> string \<Rightarrow> job_id \<Rightarrow> job_subscription \<Rightarrow> stream \<Rightarrow> job_update_view list \<Rightarrow> int option \<Rightarrow> bool" where
  "in_step wr rid job js0 st us aft \<longleftrightarrow>
     sm_request st = subscription_request rid job aft \<and>
     receive wr (length us) (sm_out st) js0 = Inr (us, js0\<lparr>js_cursor := aft\<rparr>, [])"

lemma shrunk_page:
  assumes "rs_reply answer = Some (R_JobUpdate u)" and "resp = shrink_response encode cfg answer"
  obtains v where "rs_reply resp = Some (R_JobUpdate v)" "rs_request_id resp = rs_request_id answer"
    "rs_error resp = rs_error answer" "v = shrink_page encode (cfg_max_frame_bytes cfg) answer u"
  using assms that by (simp add: shrink_response_def)

lemma stream_step:
  assumes codec: "\<And>resp. length (wr_encode_response wr resp) \<le> unat (max_frame cfg) \<Longrightarrow>
      wr_decode_response wr (wr_encode_response wr resp) = Inr resp"
    and limit: "max_frame cfg \<le> DEFAULT_MAX_FRAME_BYTES"
    and js0: "js_request_id js0 = rid"
    and step: "in_step wr rid job js0 st us aft"
    and coord: "asks svc i (w, co)"
    and page: "\<And>u v. subscribe_job w job aft co = Inr (R_JobUpdate u) \<Longrightarrow>
      v = shrink_page (wr_encode_response wr) (cfg_max_frame_bytes cfg) (fst (ask svc w (subscription_request rid job aft) co)) u \<Longrightarrow>
      accept_update v (js0\<lparr>js_cursor := aft\<rparr>) = Inr (v, js0\<lparr>js_cursor := Some (ju_cursor v)\<rparr>) \<and>
      (sm_first st \<or> ju_events v \<noteq> [] \<or> aft = Some (ju_cursor v))"
    and run: "stream_updates wr cfg (i # is) st = (StreamOpen, st')"
  obtains u v st1 us1 where "subscribe_job w job aft co = Inr (R_JobUpdate u)"
    "v = shrink_page (wr_encode_response wr) (cfg_max_frame_bytes cfg) (fst (ask svc w (subscription_request rid job aft) co)) u"
    "stream_updates wr cfg is st1 = (StreamOpen, st')" "\<not> sm_first st1"
    "in_step wr rid job js0 st1 us1 (Some (ju_cursor v))"
    "us1 = us @ [v] \<or> us1 = us \<and> ju_events v = [] \<and> \<not> sm_first st"
proof -
  obtain answer co' where ask: "ask svc w (subscription_request rid job aft) co = (answer, co')" by (metis prod.exhaust)
  have asked: "sn_ask i (sm_request st) = Some answer"
    using coord step ask by (simp add: asks_def in_step_def)
  define resp where "resp = shrink_response (wr_encode_response wr) cfg answer"
  define bytes where "bytes = wr_encode_response wr resp"
  obtain send more rq where plan: "stream_plan resp bytes st = (send, more, rq)" by (metis prod_cases3)
  obtain st2 where st2: "(if send then stream_write cfg i bytes (st\<lparr>sm_request := rq\<rparr>) else Inr (st\<lparr>sm_request := rq\<rparr>)) = Inr st2"
    and ok: "rs_error answer = None" and rest: "stream_updates wr cfg is (st2\<lparr>sm_first := False\<rparr>) = (StreamOpen, st')"
    using run asked plan
    by (auto simp: resp_def bytes_def Let_def split: sum.splits if_splits wake.splits)
  obtain u where u: "subscribe_job w job aft co = Inr (R_JobUpdate u)" "rs_reply answer = Some (R_JobUpdate u)"
    using ask_subscription(2) [OF ask ok] by blast
  obtain v where v: "rs_reply resp = Some (R_JobUpdate v)" "rs_request_id resp = rid" "rs_error resp = None"
    "v = shrink_page (wr_encode_response wr) (cfg_max_frame_bytes cfg) answer u"
    using shrunk_page [OF u(2) resp_def] ask_subscription(1) [OF ask] ok by metis
  have acc: "accept_update v (js0\<lparr>js_cursor := aft\<rparr>) = Inr (v, js0\<lparr>js_cursor := Some (ju_cursor v)\<rparr>)"
    "sm_first st \<or> ju_events v \<noteq> [] \<or> aft = Some (ju_cursor v)"
    using page [OF u(1)] v(4) ask by auto
  have send: "send \<longleftrightarrow> sm_first st \<or> ju_events v \<noteq> []" and rq: "rq = subscription_request rid job (Some (ju_cursor v))"
    using plan v(1) step by (auto simp: stream_plan_def in_step_def resume_after_def subscription_request_def)
  have taken: "receive wr (length us) (sm_out st) js0 = Inr (us, js0\<lparr>js_cursor := aft\<rparr>, [])"
    using step by (simp add: in_step_def)
  have "\<exists>us1. in_step wr rid job js0 (st2\<lparr>sm_first := False\<rparr>) us1 (Some (ju_cursor v)) \<and>
      (us1 = us @ [v] \<or> us1 = us \<and> ju_events v = [] \<and> \<not> sm_first st)"
  proof (cases send)
    case True
    then have "write_frame (sm_out st) bytes (max_frame cfg) = Inr (sm_out st2)" and req: "sm_request st2 = rq"
      using st2 by (auto simp: stream_write_def split: option.splits sum.splits)
    from delivered_update [OF codec limit this(1) [unfolded bytes_def], of "js0\<lparr>js_cursor := aft\<rparr>"] v acc(1) js0
    obtain tail where "sm_out st2 = sm_out st @ tail"
      "next_update wr tail (js0\<lparr>js_cursor := aft\<rparr>) = Inr ((v, js0\<lparr>js_cursor := Some (ju_cursor v)\<rparr>), [])"
      by auto
    from receive_snoc [OF taken this(2)] this(1) req rq show ?thesis
      by (intro exI [of _ "us @ [v]"]) (simp add: in_step_def)
  next
    case False
    then have "st2 = st\<lparr>sm_request := rq\<rparr>" "aft = Some (ju_cursor v)" using st2 send acc(2) by auto
    then show ?thesis using taken rq False send by (intro exI [of _ us]) (simp add: in_step_def)
  qed
  then show thesis using that [OF u(1)] v(4) ask rest by auto
qed

text \<open>What the client has, after the start \<open>a\<close> and up to its cursor \<open>c\<close>.\<close>

definition got_events :: "database \<Rightarrow> job_id \<Rightarrow> int \<Rightarrow> int \<Rightarrow> job_update_view list \<Rightarrow> bool" where
  "got_events db job a c us \<longleftrightarrow>
     a \<le> c \<and> (c = a \<or> c \<le> event_seq db) \<and>
     map ev_id (concat (map ju_events us)) = map e_id (job_log db job a c) \<and>
     (us \<noteq> [] \<and> \<not> ju_has_more (last us) \<longrightarrow> job_log_from db job c = [])"

lemma got_events_page:
  assumes "wf_log db" "logged db db'" "got_events db job a c us" "page_ok db' job c v"
    and "us' = us @ [v] \<or> us' = us \<and> ju_events v = []"
  shows "got_events db' job a (ju_cursor v) us'"
proof -
  let ?js = "\<lparr>js_socket = [], js_request_id = [], js_job = job, js_cursor = Some c\<rparr>"
  have wf: "wf_log db'" by (rule wf_log_logged [OF assms(1,2)])
  note p = accept_page [OF wf assms(4), of ?js, simplified]
  have "event_seq db \<le> event_seq db'" using assms(2) by (simp add: logged_def)
  have same: "job_log db' job a c = job_log db job a c"
    using assms(3) job_log_logged [OF assms(2), of c job a] by (auto simp: got_events_def)
  have "job_log db' job a (ju_cursor v) = job_log db job a c @ job_log db' job c (ju_cursor v)"
    using job_log_extend [OF wf, of a c "ju_cursor v" job] assms(3) p(3) same by (simp add: got_events_def)
  moreover have "map ev_id (concat (map ju_events us')) = map ev_id (concat (map ju_events us)) @ map ev_id (ju_events v)"
    using assms(5) by auto
  moreover have "ju_events v = [] \<Longrightarrow> \<not> ju_has_more v"
    using assms(4) by (auto simp: page_ok_def)
  ultimately show ?thesis
    using assms(3,5) p(2-5) \<open>event_seq db \<le> event_seq db'\<close> by (auto simp: got_events_def)
qed

lemma page_of_ask:
  assumes "wf_log (co_db co)" and "js_job js0 = job"
    and "subscribe_job w job (Some c) co = Inr (R_JobUpdate u)" and "v = shrink_page encode mx resp u"
  shows "page_ok (co_db co) job c v"
    and "accept_update v (js0\<lparr>js_cursor := Some c\<rparr>) = Inr (v, js0\<lparr>js_cursor := Some (ju_cursor v)\<rparr>)"
    and "ju_events v \<noteq> [] \<or> ju_cursor v = c"
proof -
  show ok: "page_ok (co_db co) job c v"
    using page_ok_shrink [OF subscribe_job_page [OF assms(3)]] assms(4) by simp
  show "accept_update v (js0\<lparr>js_cursor := Some c\<rparr>) = Inr (v, js0\<lparr>js_cursor := Some (ju_cursor v)\<rparr>)"
    using accept_page(1) [OF assms(1) ok, of "js0\<lparr>js_cursor := Some c\<rparr>"] assms(2) by simp
  show "ju_events v \<noteq> [] \<or> ju_cursor v = c"
    using ok by (auto simp: page_ok_def)
qed

lemma stream_run:
  assumes codec: "\<And>resp. length (wr_encode_response wr resp) \<le> unat (max_frame cfg) \<Longrightarrow>
      wr_decode_response wr (wr_encode_response wr resp) = Inr resp"
    and limit: "max_frame cfg \<le> DEFAULT_MAX_FRAME_BYTES"
    and js0: "js_request_id js0 = rid" "js_job js0 = job"
    and "list_all2 (asks svc) is wcos" and "wf_log db" and "log_chain db (map (co_db \<circ> snd) wcos)"
    and "in_step wr rid job js0 st us (Some c)" and "\<not> sm_first st" and "got_events db job a c us"
    and "stream_updates wr cfg is st = (StreamOpen, st')" and "us \<noteq> []"
  shows "\<exists>us' c'. in_step wr rid job js0 st' us' (Some c') \<and> us' \<noteq> [] \<and>
    got_events (last (db # map (co_db \<circ> snd) wcos)) job a c' us'"
  using assms(5-12)
proof (induction "is" wcos arbitrary: st us c db rule: list_all2_induct)
  case Nil
  then show ?case by auto
next
  case (Cons i "is" wco wcos)
  obtain w co where wco: "wco = (w, co)" by (metis prod.exhaust)
  have logged: "logged db (co_db co)" and chain: "log_chain (co_db co) (map (co_db \<circ> snd) wcos)"
    using Cons.prems(2) wco by (auto simp: comp_def)
  have wf: "wf_log (co_db co)" by (rule wf_log_logged [OF Cons.prems(1) logged])
  obtain u v st1 us1 where s: "subscribe_job w job (Some c) co = Inr (R_JobUpdate u)"
    "v = shrink_page (wr_encode_response wr) (cfg_max_frame_bytes cfg) (fst (ask svc w (subscription_request rid job (Some c)) co)) u"
    "stream_updates wr cfg is st1 = (StreamOpen, st')" "\<not> sm_first st1"
    "in_step wr rid job js0 st1 us1 (Some (ju_cursor v))"
    "us1 = us @ [v] \<or> us1 = us \<and> ju_events v = [] \<and> \<not> sm_first st"
  proof (rule stream_step [OF codec limit js0(1) Cons.prems(3) Cons.hyps(1) [unfolded wco] _ Cons.prems(6)])
    show "accept_update v' (js0\<lparr>js_cursor := Some c\<rparr>) = Inr (v', js0\<lparr>js_cursor := Some (ju_cursor v')\<rparr>) \<and>
        (sm_first st \<or> ju_events v' \<noteq> [] \<or> Some c = Some (ju_cursor v'))"
      if "subscribe_job w job (Some c) co = Inr (R_JobUpdate u')"
        "v' = shrink_page (wr_encode_response wr) (cfg_max_frame_bytes cfg) (fst (ask svc w (subscription_request rid job (Some c)) co)) u'"
      for u' v'
      using page_of_ask [OF wf js0(2) that] by auto
  qed blast
  have "got_events (co_db co) job a (ju_cursor v) us1"
    using got_events_page [OF Cons.prems(1) logged Cons.prems(5) page_of_ask(1) [OF wf js0(2) s(1,2)]] s(6) by blast
  from Cons.IH [OF wf chain s(5,4) this s(3)] s(6) Cons.prems(7) show ?case
    by (auto simp: wco)
qed

lemma job_log_rest:
  assumes "wf_log db" "a \<le> c" "job_log_from db job c = []"
  shows "job_log_from db job a = job_log db job a c"
proof -
  have "job_log_from db job a = filter (\<lambda>e. e_job e = Some job \<and> a < e_id e \<and> e_id e \<le> c) (events db)"
    unfolding job_log_from_def log_after_def
    using assms(3) by (intro filter_cong) (auto simp: job_log_from_def log_after_def filter_empty_conv not_less)
  then show ?thesis by (simp add: job_log_def log_slice_def)
qed

lemma latest_event_bound: "wf_log db \<Longrightarrow> 0 \<le> latest_event_id db \<and> latest_event_id db \<le> event_seq db \<and>
    job_log_from db job (latest_event_id db) = []"
proof (cases "events db = []")
  case False
  assume wf: "wf_log db"
  have "Max (e_id ` set (events db)) \<in> e_id ` set (events db)" using False by (intro Max_in) auto
  then obtain e where "e \<in> set (events db)" "Max (e_id ` set (events db)) = e_id e" by auto
  then have "0 \<le> Max (e_id ` set (events db))" using wf by (auto simp: wf_log_def less_imp_le)
  then show ?thesis
    using False wf by (auto simp: latest_event_id_def wf_log_def job_log_from_def log_after_def filter_empty_conv not_less)
qed (simp add: latest_event_id_def wf_log_def job_log_from_def log_after_def)

text \<open>
  C11: a subscription to a job is exactly once and in order, from the event log of the daemon to the
  client. However the log grows between the iterations of the stream and however the pages have to be
  cut to fit a frame, the client accepts every update, and the events it has are those of the job
  behind the point where it subscribed, each once and by increasing number, without a gap; when the
  last update announces no more, they are all there are.
\<close>

theorem subscription_exactly_once:
  assumes "\<And>resp. length (wr_encode_response wr resp) \<le> unat (max_frame cfg) \<Longrightarrow>
      wr_decode_response wr (wr_encode_response wr resp) = Inr resp"
    and "max_frame cfg \<le> DEFAULT_MAX_FRAME_BYTES"
    and "list_all2 (asks svc) is wcos" and "is \<noteq> []" and "wf_log db" and "log_chain db (map (co_db \<circ> snd) wcos)"
    and "connect_job wr p None rid job aft = Inr (js0, out0)"
    and "stream_updates wr cfg is \<lparr>sm_request = subscription_request rid job aft, sm_sent = None, sm_first = True,
      sm_out = []\<rparr> = (StreamOpen, st')"
    and "a = (case aft of Some a \<Rightarrow> a | None \<Rightarrow> latest_event_id (co_db (snd (hd wcos))))"
    and "db' = co_db (snd (last wcos))"
  shows "\<exists>us c. receive wr (length us) (sm_out st') js0 = Inr (us, js0\<lparr>js_cursor := Some c\<rparr>, []) \<and> us \<noteq> [] \<and>
    map ev_id (concat (map ju_events us)) = map e_id (job_log db' job a c) \<and>
    (\<not> ju_has_more (last us) \<longrightarrow> job_log db' job a c = job_log_from db' job a)"
proof -
  obtain i is' wco wcos' where split: "is = i # is'" "wcos = wco # wcos'" "asks svc i wco" "list_all2 (asks svc) is' wcos'"
    using assms(3,4) by (cases "is") (auto simp: list_all2_Cons1)
  obtain w co where wco: "wco = (w, co)" by (metis prod.exhaust)
  let ?st = "\<lparr>sm_request = subscription_request rid job aft, sm_sent = None, sm_first = True, sm_out = []\<rparr>"
  have js0: "js_request_id js0 = rid" "js_job js0 = job" "js0\<lparr>js_cursor := aft\<rparr> = js0"
    by (simp_all add: connect_job_Inr [OF assms(7)])
  have logged: "logged db (co_db co)" and chain: "log_chain (co_db co) (map (co_db \<circ> snd) wcos')"
    using assms(6) by (simp_all add: split wco)
  have wf: "wf_log (co_db co)" by (rule wf_log_logged [OF assms(5) logged])
  have start: "in_step wr rid job js0 ?st [] aft" by (simp add: in_step_def js0(3))
  have first: "accept_update v (js0\<lparr>js_cursor := aft\<rparr>) = Inr (v, js0\<lparr>js_cursor := Some (ju_cursor v)\<rparr>) \<and>
      got_events (co_db co) job a (ju_cursor v) [v]"
    if "subscribe_job w job aft co = Inr (R_JobUpdate u)" "v = shrink_page encode mx resp u" for u v encode mx resp
  proof (cases aft)
    case None
    then have "ju_cursor u = latest_event_id (co_db co)" "ju_events u = []" "\<not> ju_has_more u" "jv_id (ju_job u) = job"
      using subscribe_job_fields [OF that(1)] by auto
    moreover from this have "v = u" by (simp add: that(2) shrink_page.simps [of _ _ _ u])
    ultimately show ?thesis
      using latest_event_bound [OF wf, of job] None js0(1,2) assms(9)
      by (simp add: accept_update_def got_events_def split wco)
  next
    case (Some c)
    have "got_events (co_db co) job c c []" by (simp add: got_events_def)
    then have "got_events (co_db co) job c (ju_cursor v) [v]"
      using got_events_page [OF wf, of "co_db co" job c c "[]" v "[v]"] page_of_ask(1) [OF wf js0(2) that(1) [unfolded Some] that(2)]
      by (simp add: logged_def)
    then show ?thesis
      using page_of_ask(2) [OF wf js0(2) that(1) [unfolded Some] that(2)] Some assms(9) by simp
  qed
  obtain u v st1 us1 where s: "subscribe_job w job aft co = Inr (R_JobUpdate u)"
    "v = shrink_page (wr_encode_response wr) (cfg_max_frame_bytes cfg) (fst (ask svc w (subscription_request rid job aft) co)) u"
    "stream_updates wr cfg is' st1 = (StreamOpen, st')" "\<not> sm_first st1"
    "in_step wr rid job js0 st1 us1 (Some (ju_cursor v))"
    "us1 = [] @ [v] \<or> us1 = [] \<and> ju_events v = [] \<and> \<not> sm_first ?st"
    by (rule stream_step [OF assms(1,2) js0(1) start split(3) [unfolded wco] _ assms(8) [unfolded split(1)]])
      (use first in auto)
  have us1: "us1 = [v]" using s(6) by simp
  note run = stream_run [OF assms(1,2) js0(1,2) split(4) wf chain s(5,4) _ s(3), of a]
  obtain us c where fin: "in_step wr rid job js0 st' us (Some c)" "us \<noteq> []"
    "got_events (last (co_db co # map (co_db \<circ> snd) wcos')) job a c us"
    using run first [OF s(1,2)] unfolding us1 by blast
  have "last (co_db co # map (co_db \<circ> snd) wcos') = db'"
    by (simp add: assms(10) split wco last_map)
  moreover have "wf_log db'"
    using wf chain by (simp add: assms(10) split wco) (induction wcos' arbitrary: co; fastforce dest: wf_log_logged)
  ultimately have "got_events db' job a c us" "wf_log db'" using fin(3) by simp_all
  then show ?thesis
    using job_log_rest [of db' a c job] fin(1,2)
    by (intro exI [of _ us] exI [of _ c]) (simp add: in_step_def got_events_def)
qed

text \<open>Job 4 of the sample has one event; the codec of the sample knows one response.\<close>

definition event_coordinator :: coordinator where
  "event_coordinator = sample_coordinator\<lparr>co_db := append_event 7 (Some 4) None ''job_failed'' ''daemon'' None sample_db\<rparr>"

definition sample_answer :: response where
  "sample_answer = fst (ask sample_services sample_world (subscription_request ''s'' 4 (Some 0)) event_coordinator)"

definition sample_wire :: wire where
  "sample_wire = \<lparr>wr_encode_request = (\<lambda>_. []), wr_decode_request = (\<lambda>_. Inl ''unused''),
     wr_encode_response = (\<lambda>resp. if resp = sample_answer then [1] else replicate 100 0),
     wr_decode_response = (\<lambda>bs. if bs = [1] then Inr sample_answer else Inl ''unknown'')\<rparr>"

definition sample_stream_config :: config where
  "sample_stream_config = default_config\<lparr>cfg_max_frame_bytes := 50\<rparr>"

definition sample_stream_input :: stream_input where
  "sample_stream_input = \<lparr>sn_ask = (\<lambda>rq. Some (fst (ask sample_services sample_world rq event_coordinator))),
     sn_write_error = None, sn_wake = RevisionChanged\<rparr>"

definition sample_stream :: stream where
  "sample_stream = \<lparr>sm_request = subscription_request ''s'' 4 (Some 0), sm_sent = None, sm_first = True, sm_out = []\<rparr>"

lemma sample_job_view:
  "\<exists>v. job_view (co_db event_coordinator) (co_paths event_coordinator) (w_now sample_world) (sample_job 4 J_Failed (Some 2)) False = Inr v"
  by (simp add: job_view_def eligibility_reason_def Let_def sample_job_def)

lemma sample_answer_ok: "rs_error sample_answer = None" "\<exists>u. rs_reply sample_answer = Some (R_JobUpdate u)"
proof -
  have row: "job_row (co_db event_coordinator) 4 = Some (sample_job 4 J_Failed (Some 2))"
    by (simp add: event_coordinator_def append_event_def job_row_def sample_defs)
  obtain u where "subscribe_job sample_world 4 (Some 0) event_coordinator = Inr (R_JobUpdate u)"
    using sample_job_view row
    by (auto simp: subscribe_job_def get_job_def internal_def Let_def split: option.splits)
  then show "rs_error sample_answer = None" "\<exists>u. rs_reply sample_answer = Some (R_JobUpdate u)"
    by (simp_all add: sample_answer_def ask_def handle_request_def handle_read_def subscription_request_def Let_def)
qed

lemma sample_stream_runs:
  "\<exists>st'. stream_updates sample_wire sample_stream_config [sample_stream_input] sample_stream = (StreamOpen, st')"
proof -
  obtain u where u: "rs_reply sample_answer = Some (R_JobUpdate u)" using sample_answer_ok by blast
  then have same: "sample_answer\<lparr>rs_reply := Some (R_JobUpdate u)\<rparr> = sample_answer" by simp
  then have "shrink_page (wr_encode_response sample_wire) 50 sample_answer u = u"
    by (subst shrink_page.simps) (simp add: sample_wire_def)
  then have "shrink_response (wr_encode_response sample_wire) sample_stream_config sample_answer = sample_answer"
    using u same by (simp add: shrink_response_def sample_stream_config_def)
  then show ?thesis
    using u sample_answer_ok(1)
    by (simp add: sample_stream_def sample_stream_input_def sample_answer_def [symmetric] stream_plan_def stream_write_def
        write_frame_def frame_len_def u32_max_def max_frame_def sample_stream_config_def Let_def)
      (simp add: sample_wire_def)
qed

theorem subscription_exactly_once_witness:
  "\<exists>(us :: job_update_view list) c. us \<noteq> [] \<and>
     map ev_id (concat (map ju_events us)) = map e_id (job_log (co_db event_coordinator) 4 0 c)"
proof -
  obtain st' where run: "stream_updates sample_wire sample_stream_config [sample_stream_input] sample_stream = (StreamOpen, st')"
    using sample_stream_runs by blast
  have wf: "wf_log sample_db" by (simp add: wf_log_def sample_defs)
  have "audited sample_db (co_db event_coordinator)"
    unfolding event_coordinator_def by (simp add: audited_event audited_refl)
  then have chain: "log_chain sample_db (map (co_db \<circ> snd) [(sample_world, event_coordinator)])"
    by (simp add: audited_def)
  have answered: "list_all2 (asks sample_services) [sample_stream_input] [(sample_world, event_coordinator)]"
    by (simp add: asks_def sample_stream_input_def)
  have limit: "max_frame sample_stream_config \<le> DEFAULT_MAX_FRAME_BYTES"
    by (simp add: max_frame_def sample_stream_config_def DEFAULT_MAX_FRAME_BYTES_def)
  have codec: "wr_decode_response sample_wire (wr_encode_response sample_wire resp) = Inr resp"
    if "length (wr_encode_response sample_wire resp) \<le> unat (max_frame sample_stream_config)" for resp
    using that by (auto simp: sample_wire_def max_frame_def sample_stream_config_def split: if_splits)
  obtain js0 out0 where "connect_job sample_wire sample_paths None ''s'' 4 (Some 0) = Inr (js0, out0)"
    by (simp add: connect_job_def open_subscription_def write_frame_def frame_len_def u32_max_def sample_wire_def
        DEFAULT_MAX_FRAME_BYTES_def)
  from subscription_exactly_once [OF codec limit answered _ wf chain this run [unfolded sample_stream_def] refl refl]
  show ?thesis by simp blast
qed

section \<open>Retried mutations\<close>

text \<open>
  An attempt of the client may not reach the daemon, or its answer may be lost. What the daemon
  does with the bytes is the connection handler.
\<close>

record attempt_env =
  ae_world :: world
  ae_reached :: bool
  ae_answered :: bool
  ae_slot_free :: bool

definition daemon_socket :: "wire \<Rightarrow> services \<Rightarrow> config \<Rightarrow> attempt_env \<Rightarrow> coordinator socket" where
  "daemon_socket wr svc cfg env =
     \<lparr>sk_connect = (if ae_reached env then None else Some (TransportOs ''connection refused'')),
      sk_exchange = (\<lambda>out co.
        let (e, inp, co) = serve_frames wr svc (ae_world env) cfg (ae_slot_free env) out [] co
        in (if ae_answered env then Inr inp else Inl (TransportOs ''connection reset''), co))\<rparr>"

lemma mutation_no_stream: "is_mutation o' \<Longrightarrow> \<not> is_subscription o'"
  by (cases o') auto

lemma serve_end: "serve_frames wr svc w cfg slot_free [] out co = (ConnClosed, out, co)"
  by (simp add: serve_frames.simps read_frame_def read_exact_def)

text \<open>What one request frame does to the coordinator, and what the client can read afterwards.\<close>

lemma serve_request:
  assumes "is_mutation (rq_op rq)" and "wr_decode_request wr (wr_encode_request wr rq) = Inr rq"
    and "write_frame [] (wr_encode_request wr rq) mx = Inr out"
    and "serve_frames wr svc w cfg slot_free out [] co = (e, inp, co')"
  obtains (refused) resp where "co' = co" "rs_error resp \<noteq> None"
      "inp = [] \<or> write_frame [] (wr_encode_response wr resp) (max_frame cfg) = Inr inp"
  | (asked) resp where "ask svc w rq co = (resp, co')"
      "inp = [] \<or> write_frame [] (wr_encode_response wr resp) (max_frame cfg) = Inr inp"
proof -
  obtain len where len: "frame_len (length (wr_encode_request wr rq)) mx = Inr len"
    and out: "out = to_be_bytes len @ wr_encode_request wr rq"
    using assms(3) by (auto simp: write_frame_def result_eqs)
  show thesis
  proof (cases "read_frame out (max_frame cfg)")
    case (Inl err)
    then show thesis
      using refused [of "error_response [] MALFORMED_REQUEST (io_error_text err)"] assms(4)
      by (subst (asm) serve_frames.simps) (auto simp: error_response_def split: sum.splits)
  next
    case (Inr r)
    have "unat len = length (wr_encode_request wr rq)" by (rule unat_frame_len [OF len])
    then have r: "r = (Some (wr_encode_request wr rq), [])"
      using Inr out by (auto simp: read_frame_def read_exact_def Let_def split: if_splits)
    obtain resp co1 where a: "ask svc w rq co = (resp, co1)" by (metis prod.exhaust)
    show thesis
      using asked [of resp] assms(1,2,4) Inr r a mutation_no_stream
      by (subst (asm) serve_frames.simps) (auto simp: serve_end split: sum.splits)
  qed
qed

lemma read_response_cases:
  assumes codec: "\<And>resp. length (wr_encode_response wr resp) \<le> unat (max_frame cfg) \<Longrightarrow>
      wr_decode_response wr (wr_encode_response wr resp) = Inr resp"
    and "inp = [] \<or> write_frame [] (wr_encode_response wr resp) (max_frame cfg) = Inr inp"
    and "read_response wr inp = Inr got"
  shows "got = resp"
proof (cases "inp = []")
  case True
  then show ?thesis using assms(3) by (simp add: read_response_def frame_result_def read_frame_def read_exact_def)
next
  case False
  then obtain len where len: "frame_len (length (wr_encode_response wr resp)) (max_frame cfg) = Inr len"
    and inp: "inp = to_be_bytes len @ wr_encode_response wr resp"
    using assms(2) by (auto simp: write_frame_def result_eqs)
  have "unat len = length (wr_encode_response wr resp)" by (rule unat_frame_len [OF len])
  then have "read_frame inp DEFAULT_MAX_FRAME_BYTES = Inr (frame, rest) \<Longrightarrow> frame = Some (wr_encode_response wr resp)" for frame rest
    by (auto simp: inp read_frame_def read_exact_def Let_def split: if_splits)
  then have "read_frame inp DEFAULT_MAX_FRAME_BYTES = Inr r \<Longrightarrow> fst r = Some (wr_encode_response wr resp)" for r
    by (cases r) simp
  moreover have "wr_decode_response wr (wr_encode_response wr resp) = Inr resp"
    using codec [of resp] len by (simp add: frame_len_ok)
  ultimately show ?thesis
    using assms(3) by (cases "read_frame inp DEFAULT_MAX_FRAME_BYTES") (auto simp: read_response_def frame_result_def)
qed

lemma try_once_daemon:
  assumes "is_mutation (rq_op rq)" and "wr_decode_request wr (wr_encode_request wr rq) = Inr rq"
    and codec: "\<forall>resp. length (wr_encode_response wr resp) \<le> unat (max_frame cfg) \<longrightarrow>
      wr_decode_response wr (wr_encode_response wr resp) = Inr resp"
    and "try_once wr (daemon_socket wr svc cfg env) rq co = (r, co')"
  obtains "co' = co" "\<forall>resp. r = Inr resp \<longrightarrow> rs_error resp \<noteq> None"
  | resp where "ask svc (ae_world env) rq co = (resp, co')" "\<forall>got. r = Inr got \<longrightarrow> got = resp"
proof (cases "ae_reached env")
  case False
  then show thesis using that(1) assms(4) by (auto simp: try_once_def daemon_socket_def)
next
  case True
  show thesis
  proof (cases "write_frame [] (wr_encode_request wr rq) DEFAULT_MAX_FRAME_BYTES")
    case (Inl e)
    then show thesis using that(1) assms(4) True Inl by (auto simp: try_once_def daemon_socket_def)
  next
    case (Inr out)
    obtain e inp co1 where serve: "serve_frames wr svc (ae_world env) cfg (ae_slot_free env) out [] co = (e, inp, co1)"
      by (metis prod_cases3)
    have r: "r = (if ae_answered env then read_response wr inp else Inl (TransportOs ''connection reset''))" "co' = co1"
      using assms(4) True Inr serve by (auto simp: try_once_def daemon_socket_def)
    from serve_request [OF assms(1,2) Inr serve] show thesis
    proof cases
      case (1 resp)
      then show thesis
        using that(1) r read_response_cases [of wr cfg inp resp] codec by (metis sum.distinct(1))
    next
      case (2 resp)
      then show thesis
        using that(2) r read_response_cases [of wr cfg inp resp] codec by (metis sum.distinct(1))
    qed
  qed
qed

text \<open>The request has been applied once, with this reply, and is answered from the record since.\<close>

definition applied :: "services \<Rightarrow> request \<Rightarrow> coordinator \<Rightarrow> coordinator \<Rightarrow> reply \<Rightarrow> bool" where
  "applied svc rq co co' reply \<longleftrightarrow>
     (\<exists>w co1. handle_request svc w rq co =
        (\<lparr>rs_request_id = rq_request_id rq, rs_reply = Some reply, rs_error = None\<rparr>, co1) \<and> co' = publish_revision co1)"

lemma publish_revision_idem: "publish_revision (publish_revision co) = publish_revision co"
  by (simp add: publish_revision_def Let_def)

lemma handle_request_shape:
  assumes "handle_request svc w rq co = (resp, co')" and "is_mutation (rq_op rq)"
  shows "rs_error resp \<noteq> None \<and> co' = co \<or>
    (\<exists>reply. resp = \<lparr>rs_request_id = rq_request_id rq, rs_reply = Some reply, rs_error = None\<rparr>)"
proof (cases "rq_protocol_version rq = PROTOCOL_VERSION \<and> (\<exists>key. rq_idempotency_key rq = Some key \<and> key \<noteq> [])")
  case True
  then obtain key where k: "rq_idempotency_key rq = Some key" "key \<noteq> []" by blast
  obtain result co1 where m: "handle_mutation svc w (rq_op rq) key co = (result, co1)" by fastforce
  have "co1 = co" if "result = Inl e" for e
    by (rule handle_mutation_cases [of co key svc w "rq_op rq"]) (use m that in auto)
  then show ?thesis
    using handle_keyed [OF assms(2) _ k, of svc w co] True m assms(1) by (auto split: sum.splits)
next
  case False
  then show ?thesis using assms by (auto simp: handle_request_def Let_def split: if_splits option.splits)
qed

lemma ask_applied:
  assumes wf: "wf_db (co_db co)" and mut: "is_mutation (rq_op rq)"
    and codec: "\<And>reply enc. svc_encode svc reply = Inr enc \<Longrightarrow> svc_decode svc enc = Inr reply"
    and "applied svc rq co co' reply"
  shows "ask svc w rq co' = (\<lparr>rs_request_id = rq_request_id rq, rs_reply = Some reply, rs_error = None\<rparr>, co')"
proof -
  obtain w0 co1 where first: "handle_request svc w0 rq co =
      (\<lparr>rs_request_id = rq_request_id rq, rs_reply = Some reply, rs_error = None\<rparr>, co1)" and co': "co' = publish_revision co1"
    using assms(4) by (auto simp: applied_def)
  obtain key where k: "rq_protocol_version rq = PROTOCOL_VERSION" "rq_idempotency_key rq = Some key"
    "key \<noteq> []" "handle_mutation svc w0 (rq_op rq) key co = (Inr reply, co1)"
    by (rule handle_keyed_reply [OF mut first]) simp
  obtain stored where s: "lookup_operation (co_db co1) key = Some stored" "stored_for svc (rq_op rq) reply stored"
    by (rule mutation_stores [OF wf k(4) codec])
  have "lookup_operation (co_db co') key = Some stored" using s(1) by (simp add: co' co_db_publish)
  then have "handle_mutation svc w (rq_op rq) key co' = (Inr reply, co')"
    using s(2) replay_stored by (simp add: handle_mutation_def)
  then show ?thesis
    using handle_keyed [OF mut k(1-3), of svc w co' "Inr reply" co'] by (simp add: ask_def co' publish_revision_idem)
qed

lemma ask_fresh:
  assumes "is_mutation (rq_op rq)" and "publish_revision co = co" and "ask svc w rq co = (resp, co')"
  shows "rs_error resp \<noteq> None \<and> co' = co \<or>
    (\<exists>reply. resp = \<lparr>rs_request_id = rq_request_id rq, rs_reply = Some reply, rs_error = None\<rparr> \<and> applied svc rq co co' reply)"
proof -
  obtain co1 where h: "handle_request svc w rq co = (resp, co1)" "co' = publish_revision co1"
    using assms(3) by (auto simp: ask_def split: prod.splits)
  then show ?thesis
    using handle_request_shape [OF h(1) assms(1)] assms(2) by (auto simp: applied_def)
qed


text \<open>The answer of the first attempt is lost; the second one gets it.\<close>

definition retry_services :: services where
  "retry_services = sample_services\<lparr>svc_encode := (\<lambda>reply. case reply of
     R_Paused b \<Rightarrow> Inr (if b then ''paused'' else ''running'') | _ \<Rightarrow> Inl ''unsupported'')\<rparr>"

definition retry_request :: request where
  "retry_request = \<lparr>rq_protocol_version = PROTOCOL_VERSION, rq_request_id = ''r'', rq_idempotency_key = Some ''key'',
     rq_op = Pause\<rparr>"

definition retry_wire :: wire where
  "retry_wire = \<lparr>wr_encode_request = (\<lambda>_. [7]), wr_decode_request = (\<lambda>_. Inr retry_request),
     wr_encode_response = (\<lambda>resp. if resp = \<lparr>rs_request_id = ''r'', rs_reply = Some (R_Paused True), rs_error = None\<rparr>
       then [1] else replicate 100 0),
     wr_decode_response = (\<lambda>bs. if bs = [1]
       then Inr \<lparr>rs_request_id = ''r'', rs_reply = Some (R_Paused True), rs_error = None\<rparr> else Inl ''unknown'')\<rparr>"

definition retry_env :: "nat \<Rightarrow> attempt_env" where
  "retry_env n = \<lparr>ae_world = sample_world, ae_reached = True, ae_answered = (n \<noteq> 0), ae_slot_free = True\<rparr>"


end
