(* ===== verification/Follow_Checks.thy ===== *)
theory Follow_Checks
  imports Artifacts Settings
begin

text \<open>
  Model of \<^verbatim>\<open>src/src/follow_checks.rs\<close>: the configuration of a follower, the checks it
  runs while a job runs, and the commands of checks and hooks. Durations and instants are counted in
  nanoseconds. The TOML decoder, the JSON codec and the text of a duration are parameters; what
  happens to a started command is the sequence of its events.
\<close>

section \<open>Configuration\<close>

definition MAX_BYTES :: nat where "MAX_BYTES = 64 * 1024"
definition MAX_CHECKS :: nat where "MAX_CHECKS = 32"
definition MAX_HOOKS :: nat where "MAX_HOOKS = 32"
definition MAX_FINDINGS :: nat where "MAX_FINDINGS = 64"
definition MAX_ACTIVE :: nat where "MAX_ACTIVE = 256"
definition MAX_MESSAGE_BYTES :: nat where "MAX_MESSAGE_BYTES = 2048"
definition ERROR_KEY :: string where "ERROR_KEY = ''__mlq_check_error''"

definition EVENTS :: "string list" where
  "EVENTS = [''started'', ''warning'', ''retry'', ''yielded'', ''attention'', ''finished'']"

definition seconds :: "nat \<Rightarrow> nat" where
  "seconds n = n * 1000000000"

record check_config =
  cc_id :: string
  cc_command :: "string list"
  cc_every :: nat
  cc_timeout :: nat
  cc_clear_after :: nat

record hook_config =
  hc_events :: "string list"
  hc_command :: "string list"
  hc_timeout :: nat

record follow_config =
  fc_events :: "string list option"
  fc_checks :: "check_config list"
  fc_hooks :: "hook_config list"

definition default_follow_config :: follow_config where
  "default_follow_config = \<lparr>fc_events = None, fc_checks = [], fc_hooks = []\<rparr>"

definition validate_event :: "string \<Rightarrow> string list \<Rightarrow> string + string list" where
  "validate_event event seen =
     bindE (ensure (event \<in> set EVENTS) (''unknown follow event: '' @ event)) (\<lambda>_.
     bindE (ensure (event \<notin> set seen) (''duplicate follow event: '' @ event)) (\<lambda>_. Inr (event # seen)))"

definition validate_events :: "string list \<Rightarrow> string + unit" where
  "validate_events events =
     bindE (ensure (length events \<le> length EVENTS) ''too many follow events'') (\<lambda>_.
     bindE (foldE validate_event events []) (\<lambda>_. Inr ()))"

definition validate_command :: "string list \<Rightarrow> string + unit" where
  "validate_command command =
     bindE (ensure (command \<noteq> [] \<and> length command \<le> 64) ''command must contain 1..64 argv entries'') (\<lambda>_.
     bindE (ensure (hd command \<noteq> []) ''command executable must not be empty'') (\<lambda>_.
     bindE (ensure (list_all (\<lambda>arg. NUL \<notin> set arg) command) ''command arguments must not contain NUL'') (\<lambda>_.
       ensure (sum_list (map length command) \<le> 16 * 1024) ''command argv exceeds 16 KiB'')))"

definition validate_timeout :: "nat \<Rightarrow> string + unit" where
  "validate_timeout timeout =
     ensure (timeout \<noteq> 0 \<and> timeout \<le> seconds 300) ''command timeout must be positive and at most 5min''"

text \<open>\<open>u8::is_ascii_alphanumeric\<close> or one of \<open>-_.\<close>\<close>

definition check_id_char :: "char \<Rightarrow> bool" where
  "check_id_char c \<longleftrightarrow>
     (let b = (of_char c :: nat) in (48 \<le> b \<and> b \<le> 57) \<or> (65 \<le> b \<and> b \<le> 90) \<or> (97 \<le> b \<and> b \<le> 122)) \<or>
     c \<in> set ''-_.''"

definition quoted :: "string \<Rightarrow> string" where
  "quoted s = [CHR 0x27] @ s @ [CHR 0x27]"

definition validate_check :: "check_config \<Rightarrow> string list \<Rightarrow> string + string list" where
  "validate_check c ids =
     bindE (ensure (cc_id c \<noteq> [] \<and> length (cc_id c) \<le> 64 \<and> list_all check_id_char (cc_id c))
              (''check IDs must be 1..64 ASCII letters, digits, '' @ quoted ''-'' @ '', '' @ quoted ''_'' @
               '' or '' @ quoted ''.'')) (\<lambda>_.
     bindE (ensure (cc_id c \<notin> set ids) (''duplicate check ID: '' @ cc_id c)) (\<lambda>_.
     bindE (validate_command (cc_command c)) (\<lambda>_.
     bindE (ensure (seconds 1 \<le> cc_every c \<and> cc_every c \<le> seconds (7 * 24 * 3600))
              ''check every must be between 1s and 7days'') (\<lambda>_.
     bindE (validate_timeout (cc_timeout c)) (\<lambda>_.
     bindE (ensure (1 \<le> cc_clear_after c \<and> cc_clear_after c \<le> 1000) ''clear_after must be between 1 and 1000'') (\<lambda>_.
       Inr (cc_id c # ids)))))))"

definition validate_hook :: "hook_config \<Rightarrow> unit \<Rightarrow> string + unit" where
  "validate_hook h _ =
     bindE (ensure (hc_events h \<noteq> []) ''hook events must not be empty'') (\<lambda>_.
     bindE (validate_events (hc_events h)) (\<lambda>_.
     bindE (validate_command (hc_command h)) (\<lambda>_.
       validate_timeout (hc_timeout h))))"

definition validate_config :: "follow_config \<Rightarrow> string + unit" where
  "validate_config cfg =
     bindE (ensure (length (fc_checks cfg) \<le> MAX_CHECKS)
              (''at most '' @ show_nat MAX_CHECKS @ '' follow checks are allowed'')) (\<lambda>_.
     bindE (ensure (length (fc_hooks cfg) \<le> MAX_HOOKS)
              (''at most '' @ show_nat MAX_HOOKS @ '' follow hooks are allowed'')) (\<lambda>_.
     bindE (case fc_events cfg of None \<Rightarrow> Inr () | Some events \<Rightarrow> validate_events events) (\<lambda>_.
     bindE (foldE validate_check (fc_checks cfg) []) (\<lambda>_.
       foldE validate_hook (fc_hooks cfg) ()))))"

text \<open>An executable with a directory is relative to the configuration file.\<close>

definition resolve_executable :: "string + string \<Rightarrow> string \<Rightarrow> string list \<Rightarrow> string + string list" where
  "resolve_executable current_dir parent command =
     (if CHR ''/'' \<in> set (hd command) \<and> hd (hd command) \<noteq> CHR ''/''
      then bindE current_dir (\<lambda>dir. Inr (path_join (path_join dir parent) (hd command) # tl command))
      else Inr command)"

fun map_E :: "('a \<Rightarrow> 'e + 'b) \<Rightarrow> 'a list \<Rightarrow> 'e + 'b list" where
  "map_E f [] = Inr []"
| "map_E f (x # xs) = bindE (f x) (\<lambda>y. bindE (map_E f xs) (\<lambda>ys. Inr (y # ys)))"

definition load_follow_config ::
  "(8 word list \<Rightarrow> string + follow_config) \<Rightarrow> string + string \<Rightarrow> string \<Rightarrow> file_content \<Rightarrow> string + follow_config" where
  "load_follow_config parse current_dir path f =
     bindE (case f of
              NoFile \<Rightarrow> Inl (''opening follow config '' @ path)
            | Unreadable e \<Rightarrow> Inl (''opening follow config '' @ path)
            | Bytes bs \<Rightarrow> Inr (take (MAX_BYTES + 1) bs)) (\<lambda>bytes.
     bindE (ensure (length bytes \<le> MAX_BYTES) ''follow config exceeds 64 KiB'') (\<lambda>_.
     bindE (parse bytes) (\<lambda>cfg.
     bindE (validate_config cfg) (\<lambda>_.
     let parent = (case path_parent path of Some p \<Rightarrow> p | None \<Rightarrow> ''.'') in
     bindE (map_E (\<lambda>c. bindE (resolve_executable current_dir parent (cc_command c)) (\<lambda>cmd.
              Inr (c\<lparr>cc_command := cmd\<rparr>))) (fc_checks cfg)) (\<lambda>checks.
     bindE (map_E (\<lambda>h. bindE (resolve_executable current_dir parent (hc_command h)) (\<lambda>cmd.
              Inr (h\<lparr>hc_command := cmd\<rparr>))) (fc_hooks cfg)) (\<lambda>hooks.
       Inr (cfg\<lparr>fc_checks := checks, fc_hooks := hooks\<rparr>)))))))"

section \<open>Findings\<close>

record finding =
  fd_check :: string
  fd_key :: string
  fd_message :: string
  fd_step :: "nat option"

record observed_finding =
  of_key :: string
  of_message :: string
  of_step :: "nat option"

record observation =
  ob_findings :: "observed_finding list"
  ob_step :: "nat option"

text \<open>
  The map of the active keys is a list of pairs with distinct keys; a key has the number of
  observations in a row that omitted it.
\<close>

record check_state =
  cs_config :: check_config
  cs_deadline :: nat
  cs_active :: "(string \<times> nat) list"
  cs_last_step :: "nat option"
  cs_failed :: bool

definition validate_finding :: "observed_finding \<Rightarrow> string list \<Rightarrow> string + string list" where
  "validate_finding f keys =
     bindE (ensure (trim (of_key f) \<noteq> [] \<and> length (of_key f) \<le> 128 \<and> of_key f \<noteq> ERROR_KEY)
              ''finding key must be nonempty, at most 128 bytes, and not reserved'') (\<lambda>_.
     bindE (ensure (of_key f \<notin> set keys) ''check returned duplicate finding keys'') (\<lambda>_.
     bindE (ensure (trim (of_message f) \<noteq> [] \<and> length (of_message f) \<le> MAX_MESSAGE_BYTES)
              (''finding message must be nonempty and at most '' @ show_nat MAX_MESSAGE_BYTES @ '' bytes'')) (\<lambda>_.
       Inr (of_key f # keys))))"

definition stale_step :: "observation \<Rightarrow> check_state \<Rightarrow> bool" where
  "stale_step ob cs \<longleftrightarrow> (case (ob_step ob, cs_last_step cs) of (Some s, Some l) \<Rightarrow> s \<le> l | _ \<Rightarrow> False)"

definition retain_active :: "nat \<Rightarrow> string list \<Rightarrow> (string \<times> nat) list \<Rightarrow> (string \<times> nat) list" where
  "retain_active clear_after keys active =
     List.map_filter (\<lambda>(k, absent).
       if k \<in> set keys then Some (k, 0)
       else if absent + 1 < clear_after then Some (k, absent + 1) else None) active"

definition insert_finding ::
  "observation \<Rightarrow> observed_finding \<Rightarrow> finding list \<times> check_state \<Rightarrow> finding list \<times> check_state" where
  "insert_finding ob f r =
     (let (found, cs) = r in
      if map_of (cs_active cs) (of_key f) \<noteq> None then r
      else
        (found @ [\<lparr>fd_check = cc_id (cs_config cs), fd_key = of_key f, fd_message = of_message f,
           fd_step = (case of_step f of Some s \<Rightarrow> Some s | None \<Rightarrow> ob_step ob)\<rparr>],
         cs\<lparr>cs_active := (of_key f, 0) # cs_active cs\<rparr>))"

definition observe :: "observation \<Rightarrow> check_state \<Rightarrow> string + finding list \<times> check_state" where
  "observe ob cs =
     bindE (ensure (length (ob_findings ob) \<le> MAX_FINDINGS)
              (''check returned more than '' @ show_nat MAX_FINDINGS @ '' findings'')) (\<lambda>_.
     bindE (foldE validate_finding (ob_findings ob) []) (\<lambda>keys.
     if stale_step ob cs then Inr ([], cs\<lparr>cs_failed := False\<rparr>)
     else
       let new_count = length (filter (\<lambda>k. map_of (cs_active cs) k = None) keys) in
       bindE (ensure (length (cs_active cs) + new_count \<le> MAX_ACTIVE)
                (''check exceeded '' @ show_nat MAX_ACTIVE @ '' active finding keys'')) (\<lambda>_.
       Inr (fold (insert_finding ob) (ob_findings ob)
              ([], cs\<lparr>cs_failed := False,
                     cs_last_step := (case ob_step ob of Some s \<Rightarrow> Some s | None \<Rightarrow> cs_last_step cs),
                     cs_active := retain_active (cc_clear_after (cs_config cs)) keys (cs_active cs)\<rparr>)))))"

text \<open>The last character boundary of UTF-8 text that is not behind a position.\<close>

fun boundary_at :: "string \<Rightarrow> nat \<Rightarrow> nat" where
  "boundary_at s 0 = 0"
| "boundary_at s (Suc n) =
     (if Suc n < length s \<and> continuation_byte (s ! Suc n) then boundary_at s n else Suc n)"

definition failure :: "string \<Rightarrow> check_state \<Rightarrow> finding option \<times> check_state" where
  "failure error cs =
     (if cs_failed cs then (None, cs)
      else
        let message = ''check failed: '' @ error;
            message = (if length message > MAX_MESSAGE_BYTES
                       then take (boundary_at message MAX_MESSAGE_BYTES) message else message)
        in (Some \<lparr>fd_check = cc_id (cs_config cs), fd_key = ERROR_KEY, fd_message = message, fd_step = None\<rparr>,
            cs\<lparr>cs_failed := True\<rparr>))"

section \<open>Commands\<close>

text \<open>The buffer of the input accepts the pieces the serializer writes up to its limit.\<close>

definition bounded_write :: "8 word list \<Rightarrow> 8 word list \<Rightarrow> string + 8 word list" where
  "bounded_write bytes buf =
     (if length bytes > MAX_BYTES - length buf then Inl ''command JSON input exceeds 64 KiB'' else Inr (buf @ bytes))"

definition command_input :: "('p \<Rightarrow> 8 word list list) \<Rightarrow> 'p \<Rightarrow> string + 8 word list" where
  "command_input serialize payload =
     (case foldE bounded_write (serialize payload) [] of
        Inl _ \<Rightarrow> Inl ''serializing command JSON input''
      | Inr buf \<Rightarrow> bounded_write [10] buf)"

text \<open>
  What happens to a started command, in order: its input is written (an early closed pipe counts
  as written) or fails, pieces of its output are read until its end, it exits with success or the
  given status, and the timeout elapses.
\<close>

datatype command_event =
    InputDone
  | InputFailed string
  | OutputChunk "8 word list"
  | OutputFailed string
  | OutputEnd
  | ChildExited "string option"
  | WaitFailed string
  | TimeUp

record process_group =
  pg_pgid :: int
  pg_killed :: "int list"

definition group_kill :: "process_group \<Rightarrow> process_group" where
  "group_kill g = (if 0 < pg_pgid g then g\<lparr>pg_killed := pg_killed g @ [pg_pgid g]\<rparr> else g)"

record command_run =
  cr_output :: "8 word list"
  cr_input_done :: bool
  cr_output_done :: bool
  cr_exited :: bool
  cr_group :: process_group

definition command_step :: "string \<Rightarrow> command_event \<Rightarrow> command_run \<Rightarrow> (string + unit) \<times> command_run" where
  "command_step timeout_text e r =
     (case e of
        InputDone \<Rightarrow> (Inr (), r\<lparr>cr_input_done := True\<rparr>)
      | InputFailed err \<Rightarrow> (Inl err, r)
      | OutputChunk bs \<Rightarrow>
          if length bs > MAX_BYTES - length (cr_output r) then (Inl ''command stdout exceeds 64 KiB'', r)
          else (Inr (), r\<lparr>cr_output := cr_output r @ bs\<rparr>)
      | OutputFailed err \<Rightarrow> (Inl err, r)
      | OutputEnd \<Rightarrow> (Inr (), r\<lparr>cr_output_done := True\<rparr>)
      | ChildExited status \<Rightarrow>
          (case status of None \<Rightarrow> Inr () | Some s \<Rightarrow> Inl (''command exited with '' @ s),
           r\<lparr>cr_exited := True, cr_group := (group_kill (cr_group r))\<lparr>pg_pgid := 0\<rparr>\<rparr>)
      | WaitFailed err \<Rightarrow> (Inl err, r)
      | TimeUp \<Rightarrow> (Inl timeout_text, r))"

text \<open>No result: the command is still running after the given events.\<close>

fun command_loop :: "string \<Rightarrow> command_event list \<Rightarrow> command_run \<Rightarrow> (string + 8 word list) option \<times> command_run" where
  "command_loop timeout_text [] r = (None, r)"
| "command_loop timeout_text (e # es) r =
     (case command_step timeout_text e r of
        (Inl err, r) \<Rightarrow> (Some (Inl err), r)
      | (Inr _, r) \<Rightarrow>
          if cr_input_done r \<and> cr_output_done r \<and> cr_exited r then (Some (Inr (cr_output r)), r)
          else command_loop timeout_text es r)"

record spawn_env =
  ce_spawn :: "string + int"
  ce_events :: "command_event list"

text \<open>
  The outcome is the result and the process groups that were killed. The group is killed at the end
  of the execution, also where it is abandoned while the command runs (no result).
\<close>

definition execute ::
  "('p \<Rightarrow> 8 word list list) \<Rightarrow> (nat \<Rightarrow> string) \<Rightarrow> spawn_env \<Rightarrow> string list \<Rightarrow> nat \<Rightarrow> 'p \<Rightarrow>
     (string + 8 word list) option \<times> int list" where
  "execute serialize format_duration env argv timeout payload =
     (case bindE (validate_command argv) (\<lambda>_. bindE (validate_timeout timeout) (\<lambda>_. command_input serialize payload)) of
        Inl e \<Rightarrow> (Some (Inl e), [])
      | Inr input \<Rightarrow>
          (case ce_spawn env of
             Inl _ \<Rightarrow> (Some (Inl ''spawning follow command''), [])
           | Inr pgid \<Rightarrow>
               (let (result, r) = command_loop (''command timed out after '' @ format_duration timeout) (ce_events env)
                      \<lparr>cr_output = [], cr_input_done = False, cr_output_done = False, cr_exited = False,
                       cr_group = \<lparr>pg_pgid = pgid, pg_killed = []\<rparr>\<rparr>
                in (result, pg_killed (group_kill (cr_group r))))))"

section \<open>Running the checks\<close>

type_synonym check_runner = "check_state list"

definition new_check_runner :: "nat \<Rightarrow> check_config list \<Rightarrow> check_runner" where
  "new_check_runner now configs =
     map (\<lambda>c. \<lparr>cs_config = c, cs_deadline = now, cs_active = [], cs_last_step = None, cs_failed = False\<rparr>) configs"

definition next_deadline :: "check_runner \<Rightarrow> nat option" where
  "next_deadline checks = (if checks = [] then None else Some (Min (set (map cs_deadline checks))))"

definition reset_attempt :: "nat \<Rightarrow> check_runner \<Rightarrow> check_runner" where
  "reset_attempt now checks =
     map (\<lambda>c. c\<lparr>cs_deadline := now, cs_active := [], cs_last_step := None, cs_failed := False\<rparr>) checks"

text \<open>The inputs of a check of the batch: the time it is looked at, its command and the time it is done.\<close>

record due_input =
  di_now :: nat
  di_env :: spawn_env
  di_done :: nat

definition check_result ::
  "('p \<Rightarrow> 8 word list list) \<Rightarrow> (nat \<Rightarrow> string) \<Rightarrow> (8 word list \<Rightarrow> observation option) \<Rightarrow> 'p \<Rightarrow> check_config \<Rightarrow>
     spawn_env \<Rightarrow> (string + observation) option" where
  "check_result serialize format_duration decode context c env =
     map_option (\<lambda>output. bindE output (\<lambda>bs. ok_or ''invalid check JSON'' (decode bs)))
       (fst (execute serialize format_duration env (cc_command c) (cc_timeout c) context))"

text \<open>
  The first phase runs the checks that are due, one after the other; \<open>None\<close> is a batch that was
  abandoned because an update of the job arrived while a command ran. The second phase commits the
  results.
\<close>

fun due_results ::
  "(check_config \<Rightarrow> spawn_env \<Rightarrow> (string + observation) option) \<Rightarrow> (check_state \<times> due_input) list \<Rightarrow>
     (nat \<times> (string + observation)) option list option" where
  "due_results run [] = Some []"
| "due_results run ((cs, i) # rest) =
     (if cs_deadline cs > di_now i then map_option ((#) None) (due_results run rest)
      else
        (case run (cs_config cs) (di_env i) of
           None \<Rightarrow> None
         | Some result \<Rightarrow>
             map_option ((#) (Some (di_done i + cc_every (cs_config cs), result))) (due_results run rest)))"

definition commit_result ::
  "(nat \<times> (string + observation)) option \<Rightarrow> check_state \<Rightarrow> finding list \<times> check_state" where
  "commit_result r cs =
     (case r of
        None \<Rightarrow> ([], cs)
      | Some (deadline, result) \<Rightarrow>
          (let cs = cs\<lparr>cs_deadline := deadline\<rparr> in
           case bindE result (\<lambda>ob. observe ob cs) of
             Inr found \<Rightarrow> found
           | Inl error \<Rightarrow>
               (let (f, cs) = failure error cs in (case f of None \<Rightarrow> [] | Some f \<Rightarrow> [f], cs))))"

definition run_due ::
  "(check_config \<Rightarrow> spawn_env \<Rightarrow> (string + observation) option) \<Rightarrow> (nat \<Rightarrow> due_input) \<Rightarrow> check_runner \<Rightarrow>
     (finding list \<times> check_runner) option" where
  "run_due run inputs checks =
     map_option (\<lambda>results.
       let committed = map (\<lambda>(r, cs). commit_result r cs) (zip results checks)
       in (concat (map fst committed), map snd committed))
     (due_results run (zip checks (map inputs [0..<length checks])))"

definition hook_runs :: "string \<Rightarrow> hook_config \<Rightarrow> bool" where
  "hook_runs event h \<longleftrightarrow> event \<in> set (hc_events h)"

text \<open>\<open>run\<close> is what the command of a hook ends with.\<close>

definition run_hooks :: "(hook_config \<Rightarrow> string + 8 word list) \<Rightarrow> hook_config list \<Rightarrow> string \<Rightarrow> string list" where
  "run_hooks run hooks event =
     List.map_filter (\<lambda>h.
       if hook_runs event h
       then (case run h of Inl e \<Rightarrow> Some (event @ '' hook failed: '' @ e) | Inr _ \<Rightarrow> None) else None) hooks"

end
