(* ===== verification/Follow.thy ===== *)
theory Follow
  imports Client Follow_Checks
begin

text \<open>
  Model of \<^verbatim>\<open>src/src/follow.rs\<close>: a follower reads the updates of one job, prints the
  selected events, runs the checks while the job runs and ends with the outcome of the job. The updates
  and the times at which checks are due are the inputs of the loop; failing writes, a full mailbox of
  the hooks and the printer of JSON values are the record \<open>emit_env\<close>. Times are in nanoseconds.
\<close>

section \<open>Configuration\<close>

datatype event_kind = EK_Started | EK_Warning | EK_Retry | EK_Yielded | EK_Attention | EK_Finished

fun event_kind_name :: "event_kind \<Rightarrow> string" where
  "event_kind_name EK_Started = ''started''"
| "event_kind_name EK_Warning = ''warning''"
| "event_kind_name EK_Retry = ''retry''"
| "event_kind_name EK_Yielded = ''yielded''"
| "event_kind_name EK_Attention = ''attention''"
| "event_kind_name EK_Finished = ''finished''"

record follow_args =
  fa_job :: job_id
  fa_events :: "event_kind list option"
  fa_config :: "string option"
  fa_only_finish :: bool
  fa_no_hooks :: bool
  fa_no_checks :: bool
  fa_timeout :: nat
  fa_json :: bool

definition select_events :: "follow_args \<Rightarrow> follow_config \<Rightarrow> string list" where
  "select_events args cfg =
     (let evs =
        (if fa_only_finish args then [''finished'']
         else case fa_events args of
                Some evs \<Rightarrow> map event_kind_name evs
              | None \<Rightarrow> (case fc_events cfg of Some evs \<Rightarrow> evs | None \<Rightarrow> []))
      in if ''finished'' \<in> set evs then evs else evs @ [''finished''])"

definition configure :: "(string \<Rightarrow> string + follow_config) \<Rightarrow> follow_args \<Rightarrow> string + follow_config" where
  "configure load args =
     bindE (case fa_config args of Some path \<Rightarrow> load path | None \<Rightarrow> Inr default_follow_config) (\<lambda>cfg.
     let evs = select_events args cfg;
         cfg = cfg\<lparr>fc_events := Some evs,
                   fc_checks := if fa_no_checks args \<or> ''warning'' \<notin> set evs then [] else fc_checks cfg,
                   fc_hooks := if fa_no_hooks args then [] else fc_hooks cfg\<rparr>
     in bindE (validate_config cfg) (\<lambda>_. Inr cfg))"

section \<open>Output\<close>

record warning_budget =
  wb_last :: "nat option"
  wb_suppressed :: nat

definition COOLDOWN :: nat where "COOLDOWN = seconds 60"
definition MAX_BATCH :: nat where "MAX_BATCH = 8"

definition u64_saturating_add :: "nat \<Rightarrow> nat \<Rightarrow> nat" where
  "u64_saturating_add a b = min (a + b) (2 ^ 64 - 1)"

definition admit :: "nat \<Rightarrow> nat \<Rightarrow> warning_budget \<Rightarrow> (nat \<times> nat) \<times> warning_budget" where
  "admit count now b =
     (let accepted =
        (if (case wb_last b of None \<Rightarrow> True | Some l \<Rightarrow> COOLDOWN \<le> now - l) then min count MAX_BATCH else 0)
      in ((accepted, count - accepted),
          b\<lparr>wb_last := if accepted \<noteq> 0 then Some now else wb_last b,
            wb_suppressed := u64_saturating_add (wb_suppressed b) (count - accepted)\<rparr>))"

text \<open>\<open>char::is_control\<close>: the characters U+0000 to U+001F and U+007F to U+009F.\<close>

definition is_control :: "string \<Rightarrow> bool" where
  "is_control ch \<longleftrightarrow>
     (case ch of
        [c] \<Rightarrow> (of_char c :: nat) < 32 \<or> (of_char c :: nat) = 127
      | [c, d] \<Rightarrow> (of_char c :: nat) = 0xC2 \<and> 128 \<le> (of_char d :: nat) \<and> (of_char d :: nat) < 160
      | _ \<Rightarrow> False)"

definition one_line :: "string \<Rightarrow> nat \<Rightarrow> string" where
  "one_line s limit = concat (map (\<lambda>ch. if is_control ch then '' '' else ch) (take limit (utf8_chars s)))"

text \<open>Indexing a JSON value by a name, and the readers of a value.\<close>

fun json_get :: "json \<Rightarrow> string \<Rightarrow> json" where
  "json_get (JObj fs) k = (case map_of fs k of Some v \<Rightarrow> v | None \<Rightarrow> JNull)"
| "json_get _ k = JNull"

fun json_str :: "json \<Rightarrow> string option" where
  "json_str (JStr s) = Some s"
| "json_str _ = None"

fun json_i64 :: "json \<Rightarrow> int option" where
  "json_i64 (JInt i) = (if in_i64 i then Some i else None)"
| "json_i64 _ = None"

fun json_u64 :: "json \<Rightarrow> int option" where
  "json_u64 (JInt i) = (if 0 \<le> i \<and> i < 2 ^ 64 then Some i else None)"
| "json_u64 _ = None"

fun json_array :: "json \<Rightarrow> json list option" where
  "json_array (JArr vs) = Some vs"
| "json_array _ = None"

definition or_text :: "string \<Rightarrow> string option \<Rightarrow> string" where
  "or_text d m = (case m of Some s \<Rightarrow> s | None \<Rightarrow> d)"

definition render_text :: "(json \<Rightarrow> string) \<Rightarrow> event_kind \<Rightarrow> json \<Rightarrow> string" where
  "render_text print kind payload =
     ''job '' @ print (json_get payload ''job'') @ '' '' @ event_kind_name kind @
     (case json_str (json_get payload ''state'') of
        Some state \<Rightarrow> '' '' @ state @ '' (exit '' @ print (json_get payload ''exitCode'') @ '')''
      | None \<Rightarrow>
          (case json_i64 (json_get payload ''attempt'') of
             Some attempt \<Rightarrow> '' attempt '' @ show_int attempt
           | None \<Rightarrow> [])) @
     (case json_str (json_get payload ''message'') of
        Some message \<Rightarrow> '': '' @ one_line message 240
      | None \<Rightarrow> []) @
     (case json_array (json_get payload ''findings'') of
        Some findings \<Rightarrow>
          concat (map (\<lambda>f. ''; '' @ one_line (or_text ''check'' (json_str (json_get f ''key''))) 80 @ '': '' @
            one_line (or_text [] (json_str (json_get f ''message''))) 240) findings)
      | None \<Rightarrow> []) @
     (case json_u64 (json_get payload ''suppressedWarnings'') of
        Some count \<Rightarrow> ''; '' @ show_int count @ '' warnings suppressed''
      | None \<Rightarrow> []) @
     (case json_u64 (json_get payload ''suppressedHooks'') of
        Some count \<Rightarrow> ''; '' @ show_int count @ '' hook deliveries suppressed''
      | None \<Rightarrow> [])"

definition render_line :: "(json \<Rightarrow> string) \<Rightarrow> bool \<Rightarrow> event_kind \<Rightarrow> json \<Rightarrow> string" where
  "render_line print json_mode kind payload =
     (if json_mode then print payload else render_text print kind payload) @ [CHR 0x0A]"

text \<open>
  The worker of the hooks takes its messages from a bounded mailbox; \<open>ee_mailbox_full n\<close> says whether
  the \<open>n\<close>-th delivery finds it full, \<open>ee_write_error n\<close> is the error of the \<open>n\<close>-th line written. The
  field \<open>hw_queue\<close> has every message the mailbox accepted.
\<close>

datatype follow_error =
    FollowConfigError string
  | FollowClientError client_error
  | BrokenPipe
  | OutputError string
  | TimeoutTooLarge

record emit_env =
  ee_print :: "json \<Rightarrow> string"
  ee_write_error :: "nat \<Rightarrow> follow_error option"
  ee_mailbox_full :: "nat \<Rightarrow> bool"

record hook_worker =
  hw_hooks :: "hook_config list"
  hw_offered :: nat
  hw_queue :: "(event_kind \<times> json) list"

definition new_hook_worker :: "hook_config list \<Rightarrow> hook_worker option" where
  "new_hook_worker hooks = (if hooks = [] then None else Some \<lparr>hw_hooks = hooks, hw_offered = 0, hw_queue = []\<rparr>)"

record follow_output =
  fo_lines :: "string list"
  fo_json :: bool
  fo_events :: "string list"
  fo_hooks :: "hook_worker option"
  fo_suppressed_hooks :: nat
  fo_warnings :: warning_budget

definition selected :: "follow_output \<Rightarrow> event_kind \<Rightarrow> bool" where
  "selected out kind \<longleftrightarrow> event_kind_name kind \<in> set (fo_events out)"

definition offer_hook :: "emit_env \<Rightarrow> event_kind \<Rightarrow> json \<Rightarrow> follow_output \<Rightarrow> follow_output" where
  "offer_hook env kind payload out =
     (case fo_hooks out of
        Some hw \<Rightarrow>
          if kind \<noteq> EK_Finished \<and> list_ex (hook_runs (event_kind_name kind)) (hw_hooks hw) then
            (if ee_mailbox_full env (hw_offered hw)
             then out\<lparr>fo_hooks := Some (hw\<lparr>hw_offered := Suc (hw_offered hw)\<rparr>),
                      fo_suppressed_hooks := u64_saturating_add (fo_suppressed_hooks out) 1\<rparr>
             else out\<lparr>fo_hooks := Some (hw\<lparr>hw_offered := Suc (hw_offered hw), hw_queue := hw_queue hw @ [(kind, payload)]\<rparr>)\<rparr>)
          else out
      | None \<Rightarrow> out)"

definition emit :: "emit_env \<Rightarrow> event_kind \<Rightarrow> json \<Rightarrow> follow_output \<Rightarrow> follow_error + follow_output" where
  "emit env kind payload out =
     (if \<not> selected out kind then Inr out
      else
        case ee_write_error env (length (fo_lines out)) of
          Some e \<Rightarrow> Inl e
        | None \<Rightarrow>
            Inr (offer_hook env kind payload
              (out\<lparr>fo_lines := fo_lines out @ [render_line (ee_print env) (fo_json out) kind payload]\<rparr>)))"

section \<open>Following\<close>

definition terminal :: "job_view \<Rightarrow> bool" where
  "terminal job \<longleftrightarrow>
     (case job_state_from_str (jv_state job) of Inr s \<Rightarrow> job_state_is_terminal s | Inl _ \<Rightarrow> False)"

definition last_attempt :: "job_view \<Rightarrow> attempt_view option" where
  "last_attempt job = (if jv_attempts job = [] then None else Some (last (jv_attempts job)))"

definition check_context :: "job_view \<Rightarrow> json" where
  "check_context job =
     JObj [(''job'', JInt (jv_id job)), (''state'', JStr (jv_state job)), (''cwd'', JStr (jv_cwd job)),
       (''attempt'', json_opt (JInt \<circ> av_number) (last_attempt job)),
       (''logDir'', json_opt (JStr \<circ> av_log_dir) (last_attempt job))]"

definition event_kind_of :: "event_view \<Rightarrow> event_kind option" where
  "event_kind_of e =
     (if ev_event_type e = ''attempt_running'' then Some EK_Started
      else if ev_event_type e = ''retry_scheduled'' then Some EK_Retry
      else if ev_event_type e = ''job_yielded'' then Some EK_Yielded
      else if ev_event_type e = ''attempt_orphaned'' \<or> ev_event_type e = ''attempt_quarantined'' then Some EK_Attention
      else None)"

definition event_payload :: "job_id \<Rightarrow> event_kind \<Rightarrow> event_view \<Rightarrow> json" where
  "event_payload job kind e =
     JObj [(''event'', JStr (event_kind_name kind)), (''job'', JInt job),
       (''attempt'', json_opt JInt (ev_attempt_number e)), (''eventId'', JInt (ev_id e))]"

definition emit_event :: "emit_env \<Rightarrow> job_id \<Rightarrow> event_view \<Rightarrow> follow_output \<Rightarrow> follow_error + follow_output" where
  "emit_event env job e out =
     (case event_kind_of e of
        None \<Rightarrow> Inr out
      | Some kind \<Rightarrow> if \<not> selected out kind then Inr out else emit env kind (event_payload job kind e) out)"

definition attention_payload :: "job_id \<Rightarrow> attempt_view option \<Rightarrow> json" where
  "attention_payload job attempt =
     JObj [(''event'', JStr ''attention''), (''job'', JInt job), (''attempt'', json_opt (JInt \<circ> av_number) attempt),
       (''message'', JStr ''operator recovery required'')]"

definition needs_attention :: "attempt_view option \<Rightarrow> bool" where
  "needs_attention attempt \<longleftrightarrow>
     (case attempt of Some a \<Rightarrow> av_state a = ''orphaned'' \<or> av_state a = ''quarantined'' | None \<Rightarrow> False)"

record follow_state =
  fs_checks :: check_runner
  fs_output :: follow_output
  fs_previous :: "attempt_id option"
  fs_initial :: bool

text \<open>What the loop does with an update; \<open>now\<close> is the time at which the checks are reset.\<close>

definition process_update ::
  "emit_env \<Rightarrow> follow_args \<Rightarrow> nat \<Rightarrow> job_update_view \<Rightarrow> follow_state \<Rightarrow> follow_error + follow_state" where
  "process_update env args now u st =
     (let attempt = last_attempt (ju_job u);
          attempt_id = map_option av_id attempt;
          st = (if attempt_id \<noteq> fs_previous st
                then st\<lparr>fs_checks := reset_attempt now (fs_checks st), fs_previous := attempt_id\<rparr> else st)
      in bindE (foldE (emit_event env (fa_job args)) (ju_events u) (fs_output st)) (\<lambda>out.
         bindE (if fs_initial st \<and> selected out EK_Attention \<and> needs_attention attempt
                then emit env EK_Attention (attention_payload (fa_job args) attempt) out else Inr out) (\<lambda>out.
           Inr (st\<lparr>fs_output := out, fs_initial := False\<rparr>))))"

definition follow_done :: "job_update_view \<Rightarrow> bool" where
  "follow_done u \<longleftrightarrow> \<not> ju_has_more u \<and> terminal (ju_job u)"

text \<open>When the next check is due, if the job is known to run.\<close>

definition check_due :: "job_update_view \<Rightarrow> check_runner \<Rightarrow> nat option" where
  "check_due u checks =
     (if jv_state (ju_job u) = ''running'' \<and> \<not> ju_has_more u then next_deadline checks else None)"

definition finding_json :: "finding \<Rightarrow> json" where
  "finding_json f =
     JObj ([(''check'', JStr (fd_check f)), (''key'', JStr (fd_key f)), (''message'', JStr (fd_message f))] @
       (case fd_step f of Some s \<Rightarrow> [(''step'', JInt (int s))] | None \<Rightarrow> []))"

definition warning_payload :: "job_id \<Rightarrow> job_view \<Rightarrow> finding list \<Rightarrow> nat \<Rightarrow> json" where
  "warning_payload job view findings suppressed =
     JObj [(''event'', JStr ''warning''), (''job'', JInt job),
       (''attempt'', json_opt (JInt \<circ> av_number) (last_attempt view)),
       (''findings'', JArr (map finding_json findings)), (''suppressed'', JInt (int suppressed))]"

definition report_findings ::
  "emit_env \<Rightarrow> follow_args \<Rightarrow> nat \<Rightarrow> job_update_view \<Rightarrow> finding list \<Rightarrow> follow_output \<Rightarrow> follow_error + follow_output" where
  "report_findings env args now u findings out =
     (let ((accepted, suppressed), budget) = admit (length findings) now (fo_warnings out);
          out = out\<lparr>fo_warnings := budget\<rparr>
      in if accepted \<noteq> 0
         then emit env EK_Warning
           (warning_payload (fa_job args) (ju_job u)
             (map (\<lambda>f. f\<lparr>fd_message := one_line (fd_message f) 240\<rparr>) (take accepted findings)) suppressed) out
         else Inr out)"

text \<open>
  The inputs of the loop: the next update (or the error of the subscription), or the elapsed deadline of
  a check with what its batch does and the time at which the batch is done. A batch without a result
  was abandoned for an update. The loop has no result while it waits.
\<close>

datatype follow_input =
    FI_Update nat "client_error + job_update_view"
  | FI_Due nat "nat \<Rightarrow> due_input" nat

fun follow_loop ::
  "emit_env \<Rightarrow> (json \<Rightarrow> check_config \<Rightarrow> spawn_env \<Rightarrow> (string + observation) option) \<Rightarrow> follow_args \<Rightarrow>
     follow_input list \<Rightarrow> job_update_view \<Rightarrow> follow_state \<Rightarrow> (follow_error + job_view \<times> follow_output) option" where
  "follow_loop env exec args [] u st = None"
| "follow_loop env exec args (FI_Update now received # inputs) u st =
     (case received of
        Inl e \<Rightarrow> Some (Inl (FollowClientError e))
      | Inr u \<Rightarrow>
          (case process_update env args now u st of
             Inl e \<Rightarrow> Some (Inl e)
           | Inr st \<Rightarrow>
               if follow_done u then Some (Inr (ju_job u, fs_output st))
               else follow_loop env exec args inputs u st))"
| "follow_loop env exec args (FI_Due now batch finished # inputs) u st =
     (case check_due u (fs_checks st) of
        Some due \<Rightarrow>
          if due \<le> now then
            (case run_due (exec (check_context (ju_job u))) batch (fs_checks st) of
               None \<Rightarrow> follow_loop env exec args inputs u st
             | Some (findings, checks) \<Rightarrow>
                 (case report_findings env args finished u findings (fs_output st) of
                    Inl e \<Rightarrow> Some (Inl e)
                  | Inr out \<Rightarrow> follow_loop env exec args inputs u (st\<lparr>fs_checks := checks, fs_output := out\<rparr>)))
          else follow_loop env exec args inputs u st
      | None \<Rightarrow> follow_loop env exec args inputs u st)"

definition new_follow_output :: "follow_args \<Rightarrow> follow_config \<Rightarrow> follow_output" where
  "new_follow_output args cfg =
     \<lparr>fo_lines = [], fo_json = fa_json args, fo_events = (case fc_events cfg of Some es \<Rightarrow> es | None \<Rightarrow> []),
      fo_hooks = new_hook_worker (fc_hooks cfg), fo_suppressed_hooks = 0,
      fo_warnings = \<lparr>wb_last = None, wb_suppressed = 0\<rparr>\<rparr>"

text \<open>\<open>now\<close> is the time the runner is created; the first input is the first update.\<close>

definition follow ::
  "emit_env \<Rightarrow> (json \<Rightarrow> check_config \<Rightarrow> spawn_env \<Rightarrow> (string + observation) option) \<Rightarrow> follow_args \<Rightarrow>
     follow_config \<Rightarrow> client_error + job_subscription \<Rightarrow> nat \<Rightarrow> nat \<Rightarrow> client_error + job_update_view \<Rightarrow> follow_input list \<Rightarrow>
     (follow_error + job_view \<times> follow_output) option" where
  "follow env exec args cfg connection now now' first inputs =
     (case connection of
        Inl e \<Rightarrow> Some (Inl (FollowClientError e))
      | Inr _ \<Rightarrow>
          (case first of
             Inl e \<Rightarrow> Some (Inl (FollowClientError e))
           | Inr u \<Rightarrow>
               follow_loop env exec args (FI_Update now' first # inputs) u
                 \<lparr>fs_checks = new_check_runner now (fc_checks cfg), fs_output = new_follow_output args cfg,
                  fs_previous = None, fs_initial = True\<rparr>))"

section \<open>The outcome\<close>

definition outcome_exit_code :: "bool \<Rightarrow> int option \<Rightarrow> int option \<Rightarrow> int" where
  "outcome_exit_code succeeded exit_code term_signal =
     (if succeeded then 0
      else
        case term_signal of
          Some signal \<Rightarrow> 128 + signal
        | None \<Rightarrow> (case exit_code of Some code \<Rightarrow> if code \<noteq> 0 then code else 1 | None \<Rightarrow> 1))"

definition finish :: "emit_env \<Rightarrow> job_view \<Rightarrow> follow_output \<Rightarrow> follow_error + (int \<times> json) \<times> follow_output" where
  "finish env job out =
     (let attempt = (case last_attempt job of Some a \<Rightarrow> if av_state a = jv_state job then Some a else None | None \<Rightarrow> None);
          code = outcome_exit_code (jv_state job = ''succeeded'') (Option.bind attempt av_exit_code)
            (Option.bind attempt av_term_signal);
          reason = (case jv_state_reason job of Some r \<Rightarrow> Some r | None \<Rightarrow> Option.bind attempt av_message);
          event = JObj ([(''event'', JStr ''finished''), (''job'', JInt (jv_id job)), (''state'', JStr (jv_state job)),
              (''exitCode'', JInt code)] @
            (case reason of Some r \<Rightarrow> [(''message'', JStr (one_line r 240))] | None \<Rightarrow> []) @
            (if wb_suppressed (fo_warnings out) \<noteq> 0
             then [(''suppressedWarnings'', JInt (int (wb_suppressed (fo_warnings out))))] else []) @
            (if fo_suppressed_hooks out \<noteq> 0
             then [(''suppressedHooks'', JInt (int (fo_suppressed_hooks out)))] else []))
      in bindE (emit env EK_Finished event out) (\<lambda>out. Inr ((code, event), out)))"

text \<open>The first error of a hook is shown once; the finish hooks run after the outcome was printed.\<close>

definition report_hook_errors :: "bool \<Rightarrow> string list \<Rightarrow> bool \<times> string list" where
  "report_hook_errors shown errors =
     (case errors of
        [] \<Rightarrow> (shown, [])
      | error # _ \<Rightarrow>
          if shown then (True, [])
          else (True, [''[mlq] notification hook failed: '' @ one_line error 240 @
                 ''; further hook errors suppressed'' @ [CHR 0x0A]]))"

definition finish_hooks ::
  "(hook_config \<Rightarrow> json \<Rightarrow> string + 8 word list) \<Rightarrow> json \<Rightarrow> bool \<Rightarrow> follow_output \<Rightarrow> bool \<times> string list" where
  "finish_hooks exec event shown out =
     (case fo_hooks out of
        None \<Rightarrow> (shown, [])
      | Some hw \<Rightarrow> report_hook_errors shown (run_hooks (\<lambda>h. exec h event) (hw_hooks hw) ''finished''))"

text \<open>
  What ends a follower: a signal that arrives first, the elapsed timeout, or the outcome. A broken pipe
  ends like the signal for it. The deadline must be an instant: a count of seconds of 63 bits.
\<close>

datatype follow_stop = StopInterrupt | StopTerminate | StopPipe | StopTimeout

definition follow_run ::
  "emit_env \<Rightarrow> follow_args \<Rightarrow> nat \<Rightarrow> (follow_error + job_view \<times> follow_output) option \<Rightarrow> follow_stop option \<Rightarrow>
     (follow_error + int) option" where
  "follow_run env args now watched stop =
     (if stop = Some StopInterrupt then Some (Inr 130)
      else if stop = Some StopTerminate then Some (Inr 143)
      else if stop = Some StopPipe then Some (Inr 141)
      else if seconds (2 ^ 63) \<le> now + fa_timeout args then Some (Inl TimeoutTooLarge)
      else if stop = Some StopTimeout then Some (Inr 124)
      else
        map_option (\<lambda>result.
          case bindE result (\<lambda>(job, out). finish env job out) of
            Inr ((code, event), out) \<Rightarrow> Inr code
          | Inl e \<Rightarrow> if e = BrokenPipe then Inr 141 else Inl e) watched)"

end
