(* ===== verification/Follow_Properties.thy ===== *)
theory Follow_Properties
  imports Follow
begin

text \<open>
  What a follower promises: a finding is reported again only after enough observations in a row
  without it, commands of checks and hooks leave no process group behind, warnings are bounded, and
  the lines printed are the selected events of the job, each once and in order, with the outcome at the
  end.
\<close>

section \<open>Observations\<close>

lemma validate_finding_Inr:
  "validate_finding f keys = Inr keys' \<longleftrightarrow>
     trim (of_key f) \<noteq> [] \<and> length (of_key f) \<le> 128 \<and> of_key f \<noteq> ERROR_KEY \<and> of_key f \<notin> set keys \<and>
     trim (of_message f) \<noteq> [] \<and> length (of_message f) \<le> MAX_MESSAGE_BYTES \<and> keys' = of_key f # keys"
  by (auto simp: validate_finding_def bindE_eq_Inr ensure_eq_Inr)

definition valid_finding :: "observed_finding \<Rightarrow> bool" where
  "valid_finding f \<longleftrightarrow>
     trim (of_key f) \<noteq> [] \<and> length (of_key f) \<le> 128 \<and> of_key f \<noteq> ERROR_KEY \<and>
     trim (of_message f) \<noteq> [] \<and> length (of_message f) \<le> MAX_MESSAGE_BYTES"

lemma validate_findings_Inr:
  "foldE validate_finding fs keys = Inr keys' \<longleftrightarrow>
     (\<forall>f\<in>set fs. valid_finding f \<and> of_key f \<notin> set keys) \<and> distinct (map of_key fs) \<and> keys' = rev (map of_key fs) @ keys"
  by (induction fs arbitrary: keys) (auto simp: bindE_eq_Inr validate_finding_Inr valid_finding_def rev_image_eqI)

lemma validate_findings_keys:
  "foldE validate_finding fs [] = Inr keys \<longleftrightarrow> (\<forall>f\<in>set fs. valid_finding f) \<and> distinct (map of_key fs) \<and> keys = rev (map of_key fs)"
  by (auto simp: validate_findings_Inr)

lemma retain_active_keys: "set (map fst (retain_active n keys active)) \<subseteq> set (map fst active)"
  by (force simp: retain_active_def set_map_filter split: if_splits prod.splits)

lemma retain_active_lookup:
  assumes "distinct (map fst active)"
  shows "map_of (retain_active n keys active) k =
    (case map_of active k of
       None \<Rightarrow> None
     | Some absent \<Rightarrow> if k \<in> set keys then Some 0 else if absent + 1 < n then Some (absent + 1) else None)"
  using assms
proof (induction active)
  case (Cons e active)
  obtain k' absent where e: "e = (k', absent)" by force
  have "map_of (retain_active n keys active) k' = None"
    using Cons.prems retain_active_keys [of n keys active] e by (auto simp: map_of_eq_None_iff)
  then show ?case
    using Cons e by (auto simp: retain_active_def List.map_filter_simps)
qed (simp add: retain_active_def List.map_filter_simps)

lemma retain_active_distinct: "distinct (map fst active) \<Longrightarrow> distinct (map fst (retain_active n keys active))"
  unfolding retain_active_def
  by (rule distinct_map_filter_key [where k = fst]) (auto split: if_splits prod.splits)

lemma retain_active_length: "length (retain_active n keys active) \<le> length active"
  by (induction active) (auto simp: retain_active_def List.map_filter_simps split: option.splits)

lemma retain_active_counts: "(k, absent) \<in> set (retain_active n keys active) \<Longrightarrow> 1 \<le> n \<Longrightarrow> absent < n"
  by (auto simp: retain_active_def set_map_filter split: if_splits)

text \<open>The findings of an observation that are not active yet are reported, in their order.\<close>

definition report_of :: "observation \<Rightarrow> check_config \<Rightarrow> observed_finding \<Rightarrow> finding" where
  "report_of ob c f =
     \<lparr>fd_check = cc_id c, fd_key = of_key f, fd_message = of_message f,
      fd_step = (case of_step f of Some s \<Rightarrow> Some s | None \<Rightarrow> ob_step ob)\<rparr>"

lemma insert_findings:
  assumes "distinct (map of_key fs)"
  shows "fold (insert_finding ob) fs (found, cs) =
    (let new = filter (\<lambda>f. map_of (cs_active cs) (of_key f) = None) fs
     in (found @ map (report_of ob (cs_config cs)) new,
         cs\<lparr>cs_active := rev (map (\<lambda>f. (of_key f, 0)) new) @ cs_active cs\<rparr>))"
  using assms
proof (induction fs arbitrary: found cs)
  case (Cons f fs)
  have same: "filter (\<lambda>g. of_key g \<noteq> of_key f \<and> map_of (cs_active cs) (of_key g) = None) fs =
      filter (\<lambda>g. map_of (cs_active cs) (of_key g) = None) fs"
    using Cons.prems by (intro filter_cong) (auto simp: rev_image_eqI)
  have "filter (\<lambda>g. map_of ((of_key f, 0) # cs_active cs) (of_key g) = None) fs =
      filter (\<lambda>g. map_of (cs_active cs) (of_key g) = None) fs"
    unfolding same [symmetric] by (intro filter_cong) auto
  then show ?case
    using Cons by (simp add: insert_finding_def report_of_def Let_def)
qed simp

lemma observe_Inr:
  "observe ob cs = Inr (found, cs') \<longleftrightarrow>
     length (ob_findings ob) \<le> MAX_FINDINGS \<and> (\<forall>f\<in>set (ob_findings ob). valid_finding f) \<and>
     distinct (map of_key (ob_findings ob)) \<and>
     (if stale_step ob cs then found = [] \<and> cs' = cs\<lparr>cs_failed := False\<rparr>
      else
        length (cs_active cs) + length (filter (\<lambda>f. map_of (cs_active cs) (of_key f) = None) (ob_findings ob)) \<le> MAX_ACTIVE \<and>
        (let kept = retain_active (cc_clear_after (cs_config cs)) (map of_key (ob_findings ob)) (cs_active cs);
             new = filter (\<lambda>f. map_of kept (of_key f) = None) (ob_findings ob)
         in found = map (report_of ob (cs_config cs)) new \<and>
            cs' = cs\<lparr>cs_failed := False, cs_last_step := (case ob_step ob of Some s \<Rightarrow> Some s | None \<Rightarrow> cs_last_step cs),
                    cs_active := rev (map (\<lambda>f. (of_key f, 0)) new) @ kept\<rparr>))"
proof -
  have keys: "retain_active n (rev keys) active = retain_active n keys active" for n keys active
    by (simp add: retain_active_def)
  have count: "length (filter P (rev (map of_key fs))) = length (filter (P \<circ> of_key) fs)" for P fs
    by (simp add: rev_filter [symmetric] filter_map)
  show ?thesis
    by (auto simp: observe_def result_eqs validate_findings_keys keys count comp_def insert_findings Let_def)
qed

text \<open>
  The keys of a result that counts as an observation: a valid and fresh one. \<open>omissions\<close> is the
  number of counted observations in a row, up to now, that did not have the key.
\<close>

type_synonym check_outcome = "(nat \<times> (string + observation)) option"

definition counted :: "check_outcome \<Rightarrow> check_state \<Rightarrow> string list option" where
  "counted r cs =
     (case r of
        Some (deadline, Inr ob) \<Rightarrow>
          (case observe ob (cs\<lparr>cs_deadline := deadline\<rparr>) of
             Inr _ \<Rightarrow> if stale_step ob cs then None else Some (map of_key (ob_findings ob))
           | Inl _ \<Rightarrow> None)
      | _ \<Rightarrow> None)"

fun commit_all :: "check_outcome list \<Rightarrow> check_state \<Rightarrow> finding list list \<times> check_state" where
  "commit_all [] cs = ([], cs)"
| "commit_all (r # rs) cs =
     (let (found, cs) = commit_result r cs; (founds, cs) = commit_all rs cs in (found # founds, cs))"

fun omissions :: "string \<Rightarrow> check_outcome list \<Rightarrow> check_state \<Rightarrow> nat \<Rightarrow> nat" where
  "omissions k [] cs n = n"
| "omissions k (r # rs) cs n =
     omissions k rs (snd (commit_result r cs))
       (case counted r cs of None \<Rightarrow> n | Some keys \<Rightarrow> if k \<in> set keys then 0 else Suc n)"

definition reports :: "string \<Rightarrow> finding list \<Rightarrow> bool" where
  "reports k found \<longleftrightarrow> k \<in> fd_key ` set found"

definition check_inv :: "check_state \<Rightarrow> bool" where
  "check_inv cs \<longleftrightarrow>
     distinct (map fst (cs_active cs)) \<and> length (cs_active cs) \<le> MAX_ACTIVE \<and>
     (\<forall>(k, absent)\<in>set (cs_active cs). absent < cc_clear_after (cs_config cs) \<and> k \<noteq> ERROR_KEY)"

lemma map_of_zeros: "map_of (rev (map (\<lambda>f. (of_key f, 0)) fs)) k = (if k \<in> of_key ` set fs then Some 0 else None)"
  by (induction fs) (auto simp: map_add_def split: option.splits)

lemma observe_stale: "observe ob cs = Inr (found, cs') \<Longrightarrow> stale_step ob cs \<Longrightarrow> found = [] \<and> cs' = cs\<lparr>cs_failed := False\<rparr>"
  by (simp add: observe_Inr)

lemma observe_fresh:
  assumes "observe ob cs = Inr (found, cs')" and "\<not> stale_step ob cs" and "distinct (map fst (cs_active cs))"
  shows "cs_config cs' = cs_config cs"
    and "map_of (cs_active cs') k =
      (if k \<in> of_key ` set (ob_findings ob) then Some 0
       else (case map_of (cs_active cs) k of
               None \<Rightarrow> None
             | Some n \<Rightarrow> if n + 1 < cc_clear_after (cs_config cs) then Some (n + 1) else None))"
    and "reports k found \<longleftrightarrow> k \<in> of_key ` set (ob_findings ob) \<and> map_of (cs_active cs) k = None"
proof -
  define kept where "kept = retain_active (cc_clear_after (cs_config cs)) (map of_key (ob_findings ob)) (cs_active cs)"
  define new where "new = filter (\<lambda>f. map_of kept (of_key f) = None) (ob_findings ob)"
  have kept: "map_of kept k = (case map_of (cs_active cs) k of
       None \<Rightarrow> None
     | Some n \<Rightarrow> if k \<in> of_key ` set (ob_findings ob) then Some 0
         else if n + 1 < cc_clear_after (cs_config cs) then Some (n + 1) else None)" for k
    unfolding kept_def retain_active_lookup [OF assms(3)] by (simp split: option.split)
  have parts: "found = map (report_of ob (cs_config cs)) new" "cs_config cs' = cs_config cs"
    "cs_active cs' = rev (map (\<lambda>f. (of_key f, 0)) new) @ kept"
    using assms(1,2) by (simp_all add: observe_Inr Let_def kept_def new_def)
  have new: "k \<in> of_key ` set new \<longleftrightarrow> k \<in> of_key ` set (ob_findings ob) \<and> map_of (cs_active cs) k = None"
    by (auto simp: new_def kept split: option.splits if_splits)
  show "cs_config cs' = cs_config cs" by (rule parts)
  show "reports k found \<longleftrightarrow> k \<in> of_key ` set (ob_findings ob) \<and> map_of (cs_active cs) k = None"
    unfolding new [symmetric] by (simp add: reports_def parts image_image report_of_def)
  show "map_of (cs_active cs') k =
      (if k \<in> of_key ` set (ob_findings ob) then Some 0
       else (case map_of (cs_active cs) k of
               None \<Rightarrow> None
             | Some n \<Rightarrow> if n + 1 < cc_clear_after (cs_config cs) then Some (n + 1) else None))"
    using new by (cases "map_of (cs_active cs) k") (simp_all add: parts map_add_def map_of_zeros kept)
qed

lemma failure_parts:
  "failure e cs = (f, cs') \<Longrightarrow> cs' = cs\<lparr>cs_failed := True\<rparr> \<and> (f = None \<longleftrightarrow> cs_failed cs) \<and> (\<forall>g. f = Some g \<longrightarrow> fd_key g = ERROR_KEY)"
  by (auto simp: failure_def Let_def split: if_splits)

text \<open>What a result can do: nothing, a failure, a stale observation or a counted one.\<close>

lemma commit_cases:
  assumes "commit_result r cs = (found, cs')"
  obtains (uncounted) "counted r cs = None" "cs_active cs' = cs_active cs" "cs_config cs' = cs_config cs"
      "found = [] \<or> \<not> cs_failed cs \<and> cs_failed cs' \<and> (\<exists>e. fst (failure e cs) = Some (hd found)) \<and> length found = 1"
    | (fresh) d ob where "r = Some (d, Inr ob)" "observe ob (cs\<lparr>cs_deadline := d\<rparr>) = Inr (found, cs')"
      "\<not> stale_step ob (cs\<lparr>cs_deadline := d\<rparr>)" "counted r cs = Some (map of_key (ob_findings ob))"
proof (cases r)
  case None
  then show ?thesis using assms uncounted by (simp add: commit_result_def counted_def)
next
  case (Some dr)
  obtain d res where r: "r = Some (d, res)" using Some by (cases dr) simp
  have stale: "stale_step ob (cs\<lparr>cs_deadline := d\<rparr>) = stale_step ob cs" for ob by (simp add: stale_step_def)
  show ?thesis
  proof (cases "bindE res (\<lambda>ob. observe ob (cs\<lparr>cs_deadline := d\<rparr>))")
    case (Inl e)
    then have "counted r cs = None" by (cases res) (auto simp: r counted_def)
    moreover have "fst (failure e (cs\<lparr>cs_deadline := d\<rparr>)) = fst (failure e cs)" by (simp add: failure_def Let_def)
    ultimately show ?thesis
      using assms uncounted failure_parts [of e "cs\<lparr>cs_deadline := d\<rparr>"] Inl
      by (auto simp: commit_result_def r Let_def split: prod.splits option.splits) (metis fst_conv)+
  next
    case (Inr x)
    then obtain ob where ob: "res = Inr ob" "observe ob (cs\<lparr>cs_deadline := d\<rparr>) = Inr (found, cs')"
      using assms by (cases res) (auto simp: commit_result_def r)
    show ?thesis
    proof (cases "stale_step ob cs")
      case True
      then show ?thesis using uncounted observe_stale [OF ob(2)] ob by (simp add: counted_def r stale)
    next
      case False
      then show ?thesis using fresh [of d ob] ob by (simp add: counted_def r stale)
    qed
  qed
qed

text \<open>The effect of one result on a key.\<close>

lemma commit_step:
  assumes "commit_result r cs = (found, cs')" and "distinct (map fst (cs_active cs))"
  shows "cs_config cs' = cs_config cs"
    and "map_of (cs_active cs') k =
      (case counted r cs of
         None \<Rightarrow> map_of (cs_active cs) k
       | Some keys \<Rightarrow>
           if k \<in> set keys then Some 0
           else (case map_of (cs_active cs) k of
                   None \<Rightarrow> None
                 | Some n \<Rightarrow> if n + 1 < cc_clear_after (cs_config cs) then Some (n + 1) else None))"
    and "k \<noteq> ERROR_KEY \<Longrightarrow>
      reports k found \<longleftrightarrow> (\<exists>keys. counted r cs = Some keys \<and> k \<in> set keys) \<and> map_of (cs_active cs) k = None"
proof -
  have "cs_config cs' = cs_config cs \<and>
    map_of (cs_active cs') k =
      (case counted r cs of
         None \<Rightarrow> map_of (cs_active cs) k
       | Some keys \<Rightarrow>
           if k \<in> set keys then Some 0
           else (case map_of (cs_active cs) k of
                   None \<Rightarrow> None
                 | Some n \<Rightarrow> if n + 1 < cc_clear_after (cs_config cs) then Some (n + 1) else None)) \<and>
    (k \<noteq> ERROR_KEY \<longrightarrow>
      reports k found \<longleftrightarrow> (\<exists>keys. counted r cs = Some keys \<and> k \<in> set keys) \<and> map_of (cs_active cs) k = None)"
    using assms(1)
  proof (cases rule: commit_cases)
    case uncounted
    then have "k \<noteq> ERROR_KEY \<Longrightarrow> \<not> reports k found"
      using failure_parts [OF surjective_pairing] by (cases found) (auto simp: reports_def)
    then show ?thesis using uncounted by simp
  next
    case (fresh d ob)
    then show ?thesis
      using observe_fresh(1) [OF fresh(2,3)] observe_fresh(2,3) [OF fresh(2,3), of k] assms(2) by (simp split: option.split)
  qed
  then show "cs_config cs' = cs_config cs"
    and "map_of (cs_active cs') k =
      (case counted r cs of
         None \<Rightarrow> map_of (cs_active cs) k
       | Some keys \<Rightarrow>
           if k \<in> set keys then Some 0
           else (case map_of (cs_active cs) k of
                   None \<Rightarrow> None
                 | Some n \<Rightarrow> if n + 1 < cc_clear_after (cs_config cs) then Some (n + 1) else None))"
    and "k \<noteq> ERROR_KEY \<Longrightarrow>
      reports k found \<longleftrightarrow> (\<exists>keys. counted r cs = Some keys \<and> k \<in> set keys) \<and> map_of (cs_active cs) k = None"
    by blast+
qed

lemma commit_inv:
  assumes "commit_result r cs = (found, cs')" and "check_inv cs" and "1 \<le> cc_clear_after (cs_config cs)"
  shows "check_inv cs'"
  using assms(1)
proof (cases rule: commit_cases)
  case uncounted
  then show ?thesis using assms(2) by (simp add: check_inv_def)
next
  case (fresh d ob)
  define kept where "kept = retain_active (cc_clear_after (cs_config cs)) (map of_key (ob_findings ob)) (cs_active cs)"
  define new where "new = filter (\<lambda>f. map_of kept (of_key f) = None) (ob_findings ob)"
  have parts: "cs_config cs' = cs_config cs" "cs_active cs' = rev (map (\<lambda>f. (of_key f, 0)) new) @ kept"
    "\<forall>f\<in>set (ob_findings ob). valid_finding f" "distinct (map of_key (ob_findings ob))"
    "length (cs_active cs) + length (filter (\<lambda>f. map_of (cs_active cs) (of_key f) = None) (ob_findings ob)) \<le> MAX_ACTIVE"
    using fresh(2,3) by (simp_all add: observe_Inr Let_def kept_def new_def)
  have dist: "distinct (map fst (cs_active cs))" using assms(2) by (simp add: check_inv_def)
  have newly: "new = filter (\<lambda>f. map_of (cs_active cs) (of_key f) = None) (ob_findings ob)"
    unfolding new_def kept_def by (rule filter_cong) (auto simp: retain_active_lookup [OF dist] split: option.splits)
  have "distinct (map fst (cs_active cs'))"
    using retain_active_distinct [OF dist, of "cc_clear_after (cs_config cs)" "map of_key (ob_findings ob)"] parts(4)
    by (auto simp: parts(2) kept_def [symmetric] rev_map [symmetric] comp_def new_def distinct_map_filter map_of_eq_None_iff)
  moreover have "length (cs_active cs') \<le> MAX_ACTIVE"
    using retain_active_length [of "cc_clear_after (cs_config cs)" "map of_key (ob_findings ob)" "cs_active cs"] parts(5)
    by (simp add: parts(2) newly kept_def)
  moreover have "absent < cc_clear_after (cs_config cs') \<and> k \<noteq> ERROR_KEY" if "(k, absent) \<in> set (cs_active cs')" for k absent
  proof (cases "(k, absent) \<in> set kept")
    case True
    then have "k \<in> fst ` set (cs_active cs)"
      using retain_active_keys [of "cc_clear_after (cs_config cs)" "map of_key (ob_findings ob)" "cs_active cs"]
      by (force simp: kept_def)
    then show ?thesis
      using retain_active_counts [OF True [unfolded kept_def] assms(3)] assms(2) by (force simp: parts(1) check_inv_def)
  next
    case False
    then show ?thesis using that parts(3) assms(3) by (auto simp: parts(1,2) new_def valid_finding_def)
  qed
  ultimately show ?thesis by (auto simp: check_inv_def)
qed

lemma commit_all_inv:
  "commit_all rs cs = (founds, cs') \<Longrightarrow> check_inv cs \<Longrightarrow> 1 \<le> cc_clear_after (cs_config cs) \<Longrightarrow>
     check_inv cs' \<and> cs_config cs' = cs_config cs"
proof (induction rs arbitrary: cs founds)
  case (Cons r rs)
  obtain found cs1 where step: "commit_result r cs = (found, cs1)" by force
  obtain founds' where rest: "commit_all rs cs1 = (founds', cs')" using Cons.prems(1) step by (auto split: prod.splits)
  have "cs_config cs1 = cs_config cs"
    using commit_step(1) [OF step] Cons.prems(2) by (simp add: check_inv_def)
  then show ?case using Cons.IH [OF rest] commit_inv [OF step Cons.prems(2,3)] Cons.prems(3) by simp
qed simp

lemma omissions_track:
  assumes "commit_all rs cs = (founds, cs')" and "check_inv cs" and "k \<noteq> ERROR_KEY"
    and "map_of (cs_active cs) k = (if n < cc_clear_after (cs_config cs) then Some n else None)"
    and "1 \<le> cc_clear_after (cs_config cs)" and "\<forall>found\<in>set founds. \<not> reports k found"
  shows "map_of (cs_active cs') k =
    (if omissions k rs cs n < cc_clear_after (cs_config cs) then Some (omissions k rs cs n) else None)"
  using assms
proof (induction rs arbitrary: cs founds n)
  case (Cons r rs)
  obtain found cs1 where step: "commit_result r cs = (found, cs1)" by force
  obtain founds' where rest: "commit_all rs cs1 = (founds', cs')" and founds: "founds = found # founds'"
    using Cons.prems(1) step by (auto split: prod.splits)
  have dist: "distinct (map fst (cs_active cs))" using Cons.prems(2) by (simp add: check_inv_def)
  note effect = commit_step [OF step dist]
  let ?n = "case counted r cs of None \<Rightarrow> n | Some keys \<Rightarrow> if k \<in> set keys then 0 else Suc n"
  have "map_of (cs_active cs1) k = (if ?n < cc_clear_after (cs_config cs1) then Some ?n else None)"
    using effect(1) effect(2) [of k] effect(3) [OF Cons.prems(3)] Cons.prems(4,5,6)
    by (auto simp: founds split: option.splits if_splits)
  then show ?case
    using Cons.IH [OF rest commit_inv [OF step Cons.prems(2,5)] Cons.prems(3)] effect(1) Cons.prems(5,6)
    by (simp add: founds step)
qed simp


definition sample_check :: check_config where
  "sample_check = \<lparr>cc_id = ''loss'', cc_command = [''check''], cc_every = seconds 60, cc_timeout = seconds 5, cc_clear_after = 2\<rparr>"

definition sample_check_state :: check_state where
  "sample_check_state = hd (new_check_runner 0 [sample_check])"

definition nan_seen :: check_outcome where
  "nan_seen = Some (0, Inr \<lparr>ob_findings = [\<lparr>of_key = ''nan'', of_message = ''loss is NaN'', of_step = None\<rparr>], ob_step = None\<rparr>)"

definition nothing_seen :: check_outcome where
  "nothing_seen = Some (0, Inr \<lparr>ob_findings = [], ob_step = None\<rparr>)"

lemmas sample_check_defs = sample_check_state_def new_check_runner_def sample_check_def nan_seen_def nothing_seen_def

lemma sample_check_run:
  "commit_result nan_seen (sample_check_state\<lparr>cs_active := []\<rparr>) =
     ([\<lparr>fd_check = ''loss'', fd_key = ''nan'', fd_message = ''loss is NaN'', fd_step = None\<rparr>],
      sample_check_state\<lparr>cs_deadline := 0, cs_active := [(''nan'', 0)]\<rparr>)"
  "commit_result nothing_seen (sample_check_state\<lparr>cs_active := [(''nan'', 0)]\<rparr>) =
     ([], sample_check_state\<lparr>cs_active := [(''nan'', Suc 0)]\<rparr>)"
  "commit_result nothing_seen (sample_check_state\<lparr>cs_active := [(''nan'', Suc 0)]\<rparr>) = ([], sample_check_state\<lparr>cs_active := []\<rparr>)"
  "sample_check_state\<lparr>cs_active := []\<rparr> = sample_check_state"
  "sample_check_state\<lparr>cs_deadline := 0, cs_active := [(''nan'', 0)]\<rparr> = sample_check_state\<lparr>cs_active := [(''nan'', 0)]\<rparr>"
  by (simp_all add: sample_check_defs commit_result_def observe_def validate_finding_def ensure_def trim_def is_white_def
      white_space_def continuation_byte_def ERROR_KEY_def MAX_MESSAGE_BYTES_def MAX_FINDINGS_def MAX_ACTIVE_def
      stale_step_def retain_active_def List.map_filter_simps insert_finding_def Let_def)

lemma sample_check_counted:
  "counted nan_seen sample_check_state = Some [''nan'']"
  "counted nothing_seen (sample_check_state\<lparr>cs_active := [(''nan'', n)]\<rparr>) = Some []"
  by (simp_all add: sample_check_defs counted_def observe_def validate_finding_def ensure_def trim_def is_white_def
      white_space_def continuation_byte_def ERROR_KEY_def MAX_MESSAGE_BYTES_def MAX_FINDINGS_def MAX_ACTIVE_def
      stale_step_def retain_active_def List.map_filter_simps insert_finding_def Let_def)


section \<open>Batches of checks\<close>

text \<open>A cut at a character boundary keeps whole characters.\<close>

lemma take_boundary:
  assumes "i \<le> length s" and "i < length s \<Longrightarrow> 0 < i \<Longrightarrow> \<not> continuation_byte (s ! i)"
  shows "\<exists>j. take i s = chars_take j s"
  using assms
proof (induction s arbitrary: i)
  case (Cons c s)
  show ?case
  proof (cases i)
    case 0
    then show ?thesis by (intro exI [of _ 0]) (simp add: chars_take_def)
  next
    case (Suc i')
    then obtain j where j: "take i' s = concat (take j (utf8_chars s))"
      using Cons.IH [of i'] Cons.prems by (auto simp: chars_take_def)
    show ?thesis
    proof (cases "utf8_chars s")
      case Nil
      then have "s = []" using concat_utf8_chars [of s] by simp
      then show ?thesis using Suc by (intro exI [of _ 1]) (simp add: chars_take_def)
    next
      case (Cons ch chs)
      have ch: "ch \<noteq> []" using utf8_chars_nonempty [of ch s] Cons by simp
      have hd: "s \<noteq> []" "s ! 0 = hd ch" using concat_utf8_chars [of s] Cons ch by (auto simp: hd_conv_nth nth_append)
      show ?thesis
      proof (cases "continuation_byte (hd ch)")
        case True
        have "i' \<noteq> 0"
        proof
          assume "i' = 0"
          then show False using Cons.prems(2) True hd Suc by simp
        qed
        then have "j \<noteq> 0" using j hd(1) by (cases j) auto
        then show ?thesis
          using j True Suc Cons by (intro exI [of _ j]) (cases j; simp add: chars_take_def)
      next
        case False
        then show ?thesis
          using j Suc Cons by (intro exI [of _ "Suc j"]) (simp add: chars_take_def)
      qed
    qed
  qed
qed (simp add: chars_take_def)

lemma boundary_at_le: "boundary_at s n \<le> n"
  by (induction n) auto

lemma boundary_at_char: "0 < boundary_at s n \<Longrightarrow> boundary_at s n < length s \<Longrightarrow> \<not> continuation_byte (s ! boundary_at s n)"
  by (induction n) (auto split: if_splits)

lemma failure_message:
  assumes "fst (failure e cs) = Some f"
  shows "fd_key f = ERROR_KEY" and "fd_check f = cc_id (cs_config cs)" and "length (fd_message f) \<le> MAX_MESSAGE_BYTES"
    and "\<exists>j. fd_message f = chars_take j (''check failed: '' @ e)"
proof -
  let ?m = "''check failed: '' @ e"
  have f: "f = \<lparr>fd_check = cc_id (cs_config cs), fd_key = ERROR_KEY, fd_message =
      (if length ?m > MAX_MESSAGE_BYTES then take (boundary_at ?m MAX_MESSAGE_BYTES) ?m else ?m), fd_step = None\<rparr>"
    using assms by (simp add: failure_def Let_def split: if_splits)
  show "fd_key f = ERROR_KEY" "fd_check f = cc_id (cs_config cs)" by (simp_all add: f)
  show "length (fd_message f) \<le> MAX_MESSAGE_BYTES"
    using boundary_at_le [of ?m MAX_MESSAGE_BYTES] by (simp add: f)
  show "\<exists>j. fd_message f = chars_take j ?m"
  proof (cases "length ?m > MAX_MESSAGE_BYTES")
    case True
    then have "boundary_at ?m MAX_MESSAGE_BYTES \<le> length ?m" using boundary_at_le [of ?m MAX_MESSAGE_BYTES] by linarith
    then show ?thesis using take_boundary [of _ ?m] boundary_at_char [of ?m] True by (simp add: f)
  next
    case False
    then show ?thesis by (intro exI [of _ "length (utf8_chars ?m)"]) (simp add: f chars_take_def del: utf8_chars.simps)
  qed
qed

text \<open>The states of the checks of a follower: new, reset for another attempt, or after a batch.\<close>

inductive checks_reached ::
  "(check_config \<Rightarrow> spawn_env \<Rightarrow> (string + observation) option) \<Rightarrow> check_config list \<Rightarrow> check_runner \<Rightarrow> bool"
  for exec configs where
  new: "checks_reached exec configs (new_check_runner now configs)"
| reset: "checks_reached exec configs checks \<Longrightarrow> checks_reached exec configs (reset_attempt now checks)"
| batch: "checks_reached exec configs checks \<Longrightarrow> run_due exec inputs checks = Some (findings, checks') \<Longrightarrow>
    checks_reached exec configs checks'"

lemma due_results_length: "due_results exec xs = Some rs \<Longrightarrow> length rs = length xs"
proof (induction xs arbitrary: rs)
  case (Cons x xs)
  then show ?case by (cases x) (auto split: if_splits option.splits)
qed simp

lemma run_due_parts:
  assumes "run_due exec inputs checks = Some (findings, checks')"
  obtains rs where "length rs = length checks" "findings = concat (map (fst \<circ> case_prod commit_result) (zip rs checks))"
    "checks' = map (snd \<circ> case_prod commit_result) (zip rs checks)"
  using assms due_results_length by (auto simp: run_due_def Let_def split_def comp_def) fastforce

definition finding_ok :: "check_config list \<Rightarrow> finding \<Rightarrow> bool" where
  "finding_ok configs f \<longleftrightarrow>
     fd_check f \<in> cc_id ` set configs \<and> length (fd_message f) \<le> MAX_MESSAGE_BYTES \<and>
     (fd_key f = ERROR_KEY \<longrightarrow> (\<exists>j e. fd_message f = chars_take j (''check failed: '' @ e)))"

lemma commit_findings:
  assumes "commit_result r cs = (found, cs')" and "cs_config cs \<in> set configs"
  shows "length found \<le> MAX_FINDINGS" and "\<forall>f\<in>set found. finding_ok configs f"
proof -
  have "length found \<le> MAX_FINDINGS \<and> (\<forall>f\<in>set found. finding_ok configs f)"
    using assms(1)
  proof (cases rule: commit_cases)
    case uncounted
    then show ?thesis
    proof (elim disjE conjE exE)
      fix e assume "fst (failure e cs) = Some (hd found)" "length found = 1"
      then show ?thesis
        using failure_message [of e cs "hd found"] assms(2)
        by (cases found) (auto simp: finding_ok_def MAX_FINDINGS_def)
    qed simp
  next
    case (fresh d ob)
    then have "found = map (report_of ob (cs_config cs)) (filter (\<lambda>f. map_of (retain_active (cc_clear_after (cs_config cs))
        (map of_key (ob_findings ob)) (cs_active cs)) (of_key f) = None) (ob_findings ob))"
      "length (ob_findings ob) \<le> MAX_FINDINGS" "\<forall>f\<in>set (ob_findings ob). valid_finding f"
      by (simp_all add: observe_Inr Let_def)
    then show ?thesis
      using assms(2) le_trans [OF length_filter_le] by (auto simp: finding_ok_def report_of_def valid_finding_def)
  qed
  then show "length found \<le> MAX_FINDINGS" "\<forall>f\<in>set found. finding_ok configs f" by simp_all
qed

lemma validate_check_Inr: "validate_check c ids = Inr ids' \<Longrightarrow> 1 \<le> cc_clear_after c \<and> cc_clear_after c \<le> 1000"
  by (auto simp: validate_check_def result_eqs)

lemma validate_config_checks:
  assumes "validate_config cfg = Inr ()"
  shows "length (fc_checks cfg) \<le> MAX_CHECKS" and "\<forall>c\<in>set (fc_checks cfg). 1 \<le> cc_clear_after c"
proof -
  show "length (fc_checks cfg) \<le> MAX_CHECKS" using assms by (auto simp: validate_config_def result_eqs)
  obtain ids where "foldE validate_check (fc_checks cfg) [] = Inr ids"
    using assms by (auto simp: validate_config_def result_eqs)
  moreover have "foldE validate_check cs ids = Inr ids' \<Longrightarrow> \<forall>c\<in>set cs. 1 \<le> cc_clear_after c" for cs ids ids'
    by (induction cs arbitrary: ids) (auto simp: bindE_eq_Inr dest: validate_check_Inr)
  ultimately show "\<forall>c\<in>set (fc_checks cfg). 1 \<le> cc_clear_after c" by blast
qed

lemma checks_reached_inv:
  assumes "checks_reached exec configs checks" and "\<forall>c\<in>set configs. 1 \<le> cc_clear_after c"
  shows "map cs_config checks = configs \<and> (\<forall>cs\<in>set checks. check_inv cs)"
  using assms(1)
proof induction
  case (new now)
  then show ?case by (auto simp: new_check_runner_def comp_def check_inv_def)
next
  case (reset checks now)
  then show ?case by (auto simp: reset_attempt_def comp_def check_inv_def)
next
  case (batch checks inputs findings checks')
  obtain rs where rs: "length rs = length checks" "checks' = map (snd \<circ> case_prod commit_result) (zip rs checks)"
    using run_due_parts [OF batch.hyps(2)] by metis
  have step: "check_inv (snd (commit_result r cs)) \<and> cs_config (snd (commit_result r cs)) = cs_config cs"
    if "(r, cs) \<in> set (zip rs checks)" for r cs
  proof -
    have cs: "check_inv cs" "1 \<le> cc_clear_after (cs_config cs)"
      using batch.IH assms(2) set_zip_rightD [OF that] by auto
    then show ?thesis
      using commit_inv [OF surjective_pairing cs] commit_step(1) [OF surjective_pairing] by (simp add: check_inv_def)
  qed
  then have "map cs_config checks' = map cs_config (map snd (zip rs checks))"
    by (auto simp: rs(2))
  then show ?case using batch.IH rs step by (auto simp: map_snd_zip)
qed

lemma concat_length_le: "\<forall>x\<in>set xs. length (f x) \<le> n \<Longrightarrow> length (concat (map f xs)) \<le> length xs * n"
  by (induction xs) auto

text \<open>
  Whatever the commands of the checks print, a batch of a validated configuration reports at
  most 64 findings for each of at most 32 checks, each under the id of a configured check with a message of
  at most 2048 bytes; a failure message that has to be cut keeps whole characters. Every check keeps at most
  256 active keys, each once, with a count of omissions below the configured one.
\<close>

theorem check_batch_bounded:
  assumes "validate_config cfg = Inr ()" and "checks_reached exec (fc_checks cfg) checks"
    and "run_due exec inputs checks = Some (findings, checks')"
  shows "length findings \<le> MAX_CHECKS * MAX_FINDINGS \<and> (\<forall>f\<in>set findings. finding_ok (fc_checks cfg) f) \<and>
    (\<forall>cs\<in>set checks'. check_inv cs)"
proof -
  note valid = validate_config_checks [OF assms(1)]
  have configs: "map cs_config checks = fc_checks cfg" using checks_reached_inv [OF assms(2) valid(2)] by simp
  obtain rs where rs: "length rs = length checks" "findings = concat (map (fst \<circ> case_prod commit_result) (zip rs checks))"
    by (rule run_due_parts [OF assms(3)])
  have found: "length (fst (commit_result r cs)) \<le> MAX_FINDINGS \<and> (\<forall>f\<in>set (fst (commit_result r cs)). finding_ok (fc_checks cfg) f)"
    if "(r, cs) \<in> set (zip rs checks)" for r cs
  proof -
    have "cs_config cs \<in> set (fc_checks cfg)" using set_zip_rightD [OF that] by (auto simp: configs [symmetric])
    then show ?thesis using commit_findings [OF surjective_pairing] by blast
  qed
  have "length findings \<le> length (zip rs checks) * MAX_FINDINGS"
    unfolding rs(2) using found by (intro concat_length_le) auto
  also have "\<dots> \<le> MAX_CHECKS * MAX_FINDINGS"
    using valid(1) rs(1) by (simp add: configs [symmetric])
  finally show ?thesis
    using found checks_reached_inv [OF checks_reached.batch [OF assms(2,3)] valid(2)] by (auto simp: rs(2))
qed

definition sample_follow_config :: follow_config where
  "sample_follow_config = \<lparr>fc_events = Some [''warning''], fc_checks = [sample_check], fc_hooks = []\<rparr>"

lemma sample_follow_config_valid: "validate_config sample_follow_config = Inr ()"
  by (simp add: sample_follow_config_def validate_config_def validate_events_def validate_event_def validate_check_def
      validate_command_def validate_timeout_def check_id_char_def sample_check_def ensure_def MAX_CHECKS_def MAX_HOOKS_def
      EVENTS_def seconds_def NUL_def Let_def)

definition sample_due :: due_input where
  "sample_due = \<lparr>di_now = 5, di_env = \<lparr>ce_spawn = Inr 7, ce_events = []\<rparr>, di_done = 0\<rparr>"

lemma sample_run_due:
  "run_due (\<lambda>_ _. Some (Inr \<lparr>ob_findings = [\<lparr>of_key = ''nan'', of_message = ''loss is NaN'', of_step = None\<rparr>], ob_step = None\<rparr>))
     (\<lambda>_. sample_due) (new_check_runner 0 [sample_check]) =
   Some ([\<lparr>fd_check = ''loss'', fd_key = ''nan'', fd_message = ''loss is NaN'', fd_step = None\<rparr>],
     [sample_check_state\<lparr>cs_deadline := seconds 60, cs_active := [(''nan'', 0)]\<rparr>])"
  by (simp add: run_due_def new_check_runner_def sample_due_def
      sample_check_defs commit_result_def observe_def validate_finding_def ensure_def trim_def is_white_def
      white_space_def continuation_byte_def ERROR_KEY_def MAX_MESSAGE_BYTES_def MAX_FINDINGS_def MAX_ACTIVE_def
      stale_step_def retain_active_def List.map_filter_simps insert_finding_def Let_def)

theorem check_batch_bounded_witness:
  "check_inv (sample_check_state\<lparr>cs_deadline := seconds 60, cs_active := [(''nan'', 0)]\<rparr>) \<and>
   finding_ok [sample_check] \<lparr>fd_check = ''loss'', fd_key = ''nan'', fd_message = ''loss is NaN'', fd_step = None\<rparr>"
  using check_batch_bounded [OF sample_follow_config_valid _ sample_run_due]
    checks_reached.new [of _ "[sample_check]" 0]
  by (simp add: sample_follow_config_def)

section \<open>Commands\<close>

text \<open>A group is signalled once: at the exit of its leader, or at the end of the execution.\<close>

definition group_once :: "int \<Rightarrow> process_group \<Rightarrow> bool" where
  "group_once pgid g \<longleftrightarrow> g = \<lparr>pg_pgid = pgid, pg_killed = []\<rparr> \<or> g = \<lparr>pg_pgid = 0, pg_killed = [pgid]\<rparr>"

lemma group_once_kill: "group_once pgid g \<Longrightarrow> 0 < pgid \<Longrightarrow> pg_killed (group_kill g) = [pgid]"
  by (auto simp: group_once_def group_kill_def)

lemma command_step_group:
  "command_step msg e r = (x, r') \<Longrightarrow> group_once pgid (cr_group r) \<Longrightarrow> 0 < pgid \<Longrightarrow> group_once pgid (cr_group r')"
  by (auto simp: command_step_def group_once_def group_kill_def split: command_event.splits if_splits)

lemma command_loop_group:
  "command_loop msg es r = (result, r') \<Longrightarrow> group_once pgid (cr_group r) \<Longrightarrow> 0 < pgid \<Longrightarrow> group_once pgid (cr_group r')"
  by (induction es arbitrary: r) (auto split: prod.splits sum.splits if_splits dest: command_step_group)

lemma command_loop_ends: "TimeUp \<in> set es \<Longrightarrow> fst (command_loop msg es r) \<noteq> None"
proof (induction es arbitrary: r)
  case (Cons e es)
  show ?case
  proof (cases "e = TimeUp")
    case True
    then show ?thesis by (simp add: command_step_def)
  next
    case False
    then show ?thesis using Cons by (auto split: prod.splits sum.splits)
  qed
qed simp

fun chunk_of :: "command_event \<Rightarrow> 8 word list" where
  "chunk_of (OutputChunk bs) = bs"
| "chunk_of _ = []"

text \<open>An output that is returned: everything read up to the end of the stream, of a command that succeeded.\<close>

lemma command_step_ok:
  assumes "command_step msg e r = (Inr y, r')"
  shows "cr_output r' = cr_output r @ chunk_of e" and "length (cr_output r) \<le> MAX_BYTES \<Longrightarrow> length (cr_output r') \<le> MAX_BYTES"
    and "cr_input_done r' \<longleftrightarrow> cr_input_done r \<or> e = InputDone" and "cr_output_done r' \<longleftrightarrow> cr_output_done r \<or> e = OutputEnd"
    and "cr_exited r' \<longleftrightarrow> cr_exited r \<or> e = ChildExited None"
  using assms by (auto simp: command_step_def split: command_event.splits if_splits option.splits)

lemma command_loop_output:
  assumes "command_loop msg es r = (Some (Inr out), r')" and "length (cr_output r) \<le> MAX_BYTES"
  obtains used rest where "es = used @ rest" "out = cr_output r @ concat (map chunk_of used)" "length out \<le> MAX_BYTES"
    "cr_input_done r \<or> InputDone \<in> set used" "cr_output_done r \<or> OutputEnd \<in> set used"
    "cr_exited r \<or> ChildExited None \<in> set used"
  using assms
proof (induction es arbitrary: r thesis)
  case (Cons e es)
  obtain y r1 where step: "command_step msg e r = (Inr y, r1)"
    using Cons.prems(2) by (cases "command_step msg e r") (auto split: sum.splits)
  note one = command_step_ok [OF step]
  show ?case
  proof (cases "cr_input_done r1 \<and> cr_output_done r1 \<and> cr_exited r1")
    case True
    then show ?thesis
      using Cons.prems(2) one(2) [OF Cons.prems(3)] one by (intro Cons.prems(1) [of "[e]" es]) (auto simp: step)
  next
    case False
    then have "command_loop msg es r1 = (Some (Inr out), r')" using Cons.prems(2) by (auto simp: step split: if_splits)
    then show ?thesis
    proof (rule Cons.IH [rotated])
      show "length (cr_output r1) \<le> MAX_BYTES" by (rule one(2) [OF Cons.prems(3)])
      fix used rest
      assume "es = used @ rest" "out = cr_output r1 @ concat (map chunk_of used)" "length out \<le> MAX_BYTES"
        "cr_input_done r1 \<or> InputDone \<in> set used" "cr_output_done r1 \<or> OutputEnd \<in> set used"
        "cr_exited r1 \<or> ChildExited None \<in> set used"
      then show ?thesis using one by (intro Cons.prems(1) [of "e # used" rest]) auto
    qed
  qed
qed simp


definition sample_spawn_env :: spawn_env where
  "sample_spawn_env = \<lparr>ce_spawn = Inr 7, ce_events = [InputDone, OutputChunk [1, 2], ChildExited None, OutputChunk [3], OutputEnd]\<rparr>"


section \<open>Printed events\<close>

text \<open>
  What an update asks to print: the selected ones of its events, and for the first update an attempt that
  awaits an operator.
\<close>

definition event_lines :: "string list \<Rightarrow> job_id \<Rightarrow> event_view \<Rightarrow> (event_kind \<times> json) list" where
  "event_lines evs job e =
     (case event_kind_of e of
        Some kind \<Rightarrow> if event_kind_name kind \<in> set evs then [(kind, event_payload job kind e)] else []
      | None \<Rightarrow> [])"

definition update_lines :: "string list \<Rightarrow> job_id \<Rightarrow> bool \<Rightarrow> job_update_view \<Rightarrow> (event_kind \<times> json) list" where
  "update_lines evs job initial u =
     concat (map (event_lines evs job) (ju_events u)) @
     (if initial \<and> event_kind_name EK_Attention \<in> set evs \<and> needs_attention (last_attempt (ju_job u))
      then [(EK_Attention, attention_payload job (last_attempt (ju_job u)))] else [])"

definition updates_of :: "follow_input list \<Rightarrow> job_update_view list" where
  "updates_of inputs =
     List.map_filter (\<lambda>i. case i of FI_Update now (Inr u) \<Rightarrow> Some u | _ \<Rightarrow> None) inputs"

text \<open>The lines of an output are appended by rendering events.\<close>

definition prints :: "emit_env \<Rightarrow> follow_output \<Rightarrow> (event_kind \<times> json) list \<Rightarrow> follow_output \<Rightarrow> bool" where
  "prints env out es out' \<longleftrightarrow>
     fo_lines out' = fo_lines out @ map (\<lambda>(kind, payload). render_line (ee_print env) (fo_json out) kind payload) es \<and>
     fo_json out' = fo_json out \<and> fo_events out' = fo_events out"

lemma prints_refl: "prints env out [] out"
  by (simp add: prints_def)

lemma prints_trans: "prints env out es out1 \<Longrightarrow> prints env out1 es' out2 \<Longrightarrow> prints env out (es @ es') out2"
  by (simp add: prints_def)

lemma offer_hook_frame [simp]:
  "fo_lines (offer_hook env kind payload out) = fo_lines out" "fo_json (offer_hook env kind payload out) = fo_json out"
  "fo_events (offer_hook env kind payload out) = fo_events out" "fo_warnings (offer_hook env kind payload out) = fo_warnings out"
  by (simp_all add: offer_hook_def split: option.split)

lemma emit_prints:
  "emit env kind payload out = Inr out' \<Longrightarrow> prints env out (if selected out kind then [(kind, payload)] else []) out'"
  by (auto simp: emit_def prints_def split: if_splits option.splits)

lemma emit_event_prints: "emit_event env job e out = Inr out' \<Longrightarrow> prints env out (event_lines (fo_events out) job e) out'"
  by (auto simp: emit_event_def event_lines_def selected_def prints_refl split: option.splits if_splits dest!: emit_prints)

lemma emit_events_print:
  "foldE (emit_event env job) es out = Inr out' \<Longrightarrow> prints env out (concat (map (event_lines (fo_events out) job) es)) out'"
proof (induction es arbitrary: out)
  case (Cons e es)
  then obtain out1 where out1: "emit_event env job e out = Inr out1" "foldE (emit_event env job) es out1 = Inr out'"
    by (auto simp: bindE_eq_Inr)
  have "fo_events out1 = fo_events out" using emit_event_prints [OF out1(1)] by (simp add: prints_def)
  then show ?case using prints_trans [OF emit_event_prints [OF out1(1)] Cons.IH [OF out1(2)]] by simp
qed (simp add: prints_refl)

lemma process_update_prints:
  assumes "process_update env args now u st = Inr st'"
  shows "prints env (fs_output st) (update_lines (fo_events (fs_output st)) (fa_job args) (fs_initial st) u) (fs_output st')"
    and "\<not> fs_initial st'"
proof -
  define st1 where "st1 = (if map_option av_id (last_attempt (ju_job u)) \<noteq> fs_previous st
    then st\<lparr>fs_checks := reset_attempt now (fs_checks st), fs_previous := map_option av_id (last_attempt (ju_job u))\<rparr> else st)"
  have st1: "fs_output st1 = fs_output st" "fs_initial st1 = fs_initial st" by (simp_all add: st1_def)
  obtain out1 out2 where out1: "foldE (emit_event env (fa_job args)) (ju_events u) (fs_output st) = Inr out1"
    and out2: "(if fs_initial st \<and> selected out1 EK_Attention \<and> needs_attention (last_attempt (ju_job u))
      then emit env EK_Attention (attention_payload (fa_job args) (last_attempt (ju_job u))) out1 else Inr out1) = Inr out2"
    and st': "st' = st1\<lparr>fs_output := out2, fs_initial := False\<rparr>"
    using assms by (simp only: process_update_def Let_def st1_def [symmetric] st1 bindE_eq_Inr) auto
  note events = emit_events_print [OF out1]
  have "fo_events out1 = fo_events (fs_output st)" using events by (simp add: prints_def)
  then have "prints env out1 (if fs_initial st \<and> event_kind_name EK_Attention \<in> set (fo_events (fs_output st)) \<and>
      needs_attention (last_attempt (ju_job u)) then [(EK_Attention, attention_payload (fa_job args) (last_attempt (ju_job u)))] else []) out2"
    using out2 emit_prints [of env EK_Attention _ out1 out2] by (auto simp: selected_def prints_refl split: if_splits)
  from prints_trans [OF events this]
  show "prints env (fs_output st) (update_lines (fo_events (fs_output st)) (fa_job args) (fs_initial st) u) (fs_output st')"
    by (simp add: update_lines_def st')
  show "\<not> fs_initial st'" by (simp add: st')
qed

lemma report_findings_prints:
  assumes "report_findings env args now u findings out = Inr out'"
  obtains es where "prints env out es out'" "\<forall>(kind, payload)\<in>set es. kind = EK_Warning"
proof -
  obtain acc sup budget where adm: "admit (length findings) now (fo_warnings out) = ((acc, sup), budget)"
    by (cases "admit (length findings) now (fo_warnings out)") auto
  have frame: "prints env (out\<lparr>fo_warnings := budget\<rparr>) es out' \<Longrightarrow> prints env out es out'" for es by (simp add: prints_def)
  show ?thesis
  proof (cases "acc = 0")
    case True
    then show ?thesis using assms adm that [of "[]"] by (auto simp: report_findings_def Let_def prints_def)
  next
    case False
    then obtain payload where "emit env EK_Warning payload (out\<lparr>fo_warnings := budget\<rparr>) = Inr out'"
      using assms adm by (auto simp: report_findings_def Let_def)
    from frame [OF emit_prints [OF this]] show ?thesis by (rule that) auto
  qed
qed

lemma updates_of_simps [simp]:
  "updates_of [] = []" "updates_of (FI_Update now (Inr u) # is) = u # updates_of is"
  "updates_of (FI_Update now (Inl e) # is) = updates_of is" "updates_of (FI_Due n b f # is) = updates_of is"
  by (simp_all add: updates_of_def List.map_filter_simps)

abbreviation no_warnings :: "(event_kind \<times> json) list \<Rightarrow> (event_kind \<times> json) list" where
  "no_warnings es \<equiv> filter (\<lambda>(kind, payload). kind \<noteq> EK_Warning) es"

lemma event_lines_no_warning: "no_warnings (update_lines evs job i u) = update_lines evs job i u"
  by (auto simp: filter_id_conv update_lines_def event_lines_def event_kind_of_def split: option.splits if_splits)

text \<open>
  The updates a follower reads, with the initial flag for the first of a state, until one ends it.
\<close>

definition lines_from :: "string list \<Rightarrow> job_id \<Rightarrow> bool \<Rightarrow> job_update_view list \<Rightarrow> (event_kind \<times> json) list" where
  "lines_from evs job initial us =
     (case us of [] \<Rightarrow> [] | u # us \<Rightarrow> update_lines evs job initial u @ concat (map (update_lines evs job False) us))"

lemma lines_from_Cons: "lines_from evs job i (u # us) = update_lines evs job i u @ lines_from evs job False us"
  by (cases us) (simp_all add: lines_from_def)

text \<open>
  A follower in state \<open>st\<close> that ends with \<open>job\<close> and \<open>out\<close>: it reads updates up to the first that is done, and
  its lines other than warnings are those of the updates.
\<close>

definition followed :: "emit_env \<Rightarrow> follow_args \<Rightarrow> follow_input list \<Rightarrow> follow_state \<Rightarrow> job_view \<Rightarrow> follow_output \<Rightarrow> bool" where
  "followed env args inputs st job out \<longleftrightarrow>
     (\<exists>used rest es. inputs = used @ rest \<and> updates_of used \<noteq> [] \<and> job = ju_job (last (updates_of used)) \<and>
       follow_done (last (updates_of used)) \<and> (\<forall>u\<in>set (butlast (updates_of used)). \<not> follow_done u) \<and>
       prints env (fs_output st) es out \<and>
       no_warnings es = lines_from (fo_events (fs_output st)) (fa_job args) (fs_initial st) (updates_of used))"

lemma followed_done:
  assumes "process_update env args now u st = Inr st'" and "follow_done u"
  shows "followed env args (FI_Update now (Inr u) # inputs) st (ju_job u) (fs_output st')"
proof -
  have "updates_of [FI_Update now (Inr u)] = [u]" by simp
  then show ?thesis
    unfolding followed_def using process_update_prints(1) [OF assms(1)] assms(2) event_lines_no_warning
    by (intro exI [of _ "[FI_Update now (Inr u)]"] exI [of _ inputs]) (auto simp: lines_from_def)
qed

lemma followed_update:
  assumes "process_update env args now u st = Inr st'" and "\<not> follow_done u" and "followed env args inputs st' job out"
  shows "followed env args (FI_Update now (Inr u) # inputs) st job out"
proof -
  obtain used rest es where *: "inputs = used @ rest" "updates_of used \<noteq> []" "job = ju_job (last (updates_of used))"
    "follow_done (last (updates_of used))" "\<forall>u\<in>set (butlast (updates_of used)). \<not> follow_done u"
    "prints env (fs_output st') es out"
    "no_warnings es = lines_from (fo_events (fs_output st')) (fa_job args) (fs_initial st') (updates_of used)"
    using assms(3) unfolding followed_def by blast
  note here = process_update_prints [OF assms(1)]
  have "fo_events (fs_output st') = fo_events (fs_output st)" using here(1) by (simp add: prints_def)
  then have "no_warnings (update_lines (fo_events (fs_output st)) (fa_job args) (fs_initial st) u @ es) =
      lines_from (fo_events (fs_output st)) (fa_job args) (fs_initial st) (u # updates_of used)"
    using *(7) here(2) by (simp add: lines_from_Cons event_lines_no_warning)
  then show ?thesis
    unfolding followed_def using * prints_trans [OF here(1) *(6)] assms(2)
    by (intro exI [of _ "FI_Update now (Inr u) # used"] exI [of _ rest]) auto
qed

lemma followed_due:
  assumes "prints env (fs_output st) ws (fs_output st')" and "\<forall>(kind, payload)\<in>set ws. kind = EK_Warning"
    and "fs_initial st' = fs_initial st" and "followed env args inputs st' job out"
  shows "followed env args (FI_Due now batch finished # inputs) st job out"
proof -
  obtain used rest es where *: "inputs = used @ rest" "updates_of used \<noteq> []" "job = ju_job (last (updates_of used))"
    "follow_done (last (updates_of used))" "\<forall>u\<in>set (butlast (updates_of used)). \<not> follow_done u"
    "prints env (fs_output st') es out"
    "no_warnings es = lines_from (fo_events (fs_output st')) (fa_job args) (fs_initial st') (updates_of used)"
    using assms(4) unfolding followed_def by blast
  have "no_warnings ws = []" using assms(2) by (auto simp: filter_empty_conv)
  moreover have "fo_events (fs_output st') = fo_events (fs_output st)" using assms(1) by (simp add: prints_def)
  ultimately show ?thesis
    unfolding followed_def using * prints_trans [OF assms(1) *(6)] assms(3)
    by (intro exI [of _ "FI_Due now batch finished # used"] exI [of _ rest] exI [of _ "ws @ es"]) auto
qed

lemma follow_loop_followed:
  "follow_loop env exec args inputs u st = Some (Inr (job, out)) \<Longrightarrow> followed env args inputs st job out"
proof (induction env exec args inputs u st rule: follow_loop.induct)
  case (2 env exec args now received inputs u st)
  then show ?case
    by (auto split: sum.splits if_splits intro: followed_done followed_update)
next
  case (3 env exec args now batch finished inputs u st)
  note quiet = followed_due [OF prints_refl _ refl]
  show ?case
  proof (cases "check_due u (fs_checks st)")
    case None
    then show ?thesis using 3 quiet by simp
  next
    case due: (Some due)
    show ?thesis
    proof (cases "\<not> due \<le> now \<or> run_due (exec (check_context (ju_job u))) batch (fs_checks st) = None")
      case True
      then show ?thesis using 3 due quiet by (auto split: if_splits)
    next
      case False
      then obtain findings checks where batch: "run_due (exec (check_context (ju_job u))) batch (fs_checks st) = Some (findings, checks)"
        and now: "due \<le> now" by auto
      obtain out1 where out1: "report_findings env args finished u findings (fs_output st) = Inr out1"
        and rest: "follow_loop env exec args inputs u (st\<lparr>fs_checks := checks, fs_output := out1\<rparr>) = Some (Inr (job, out))"
        using 3(5) due now batch by (auto split: sum.splits)
      have "followed env args inputs (st\<lparr>fs_checks := checks, fs_output := out1\<rparr>) job out"
        using 3(3) [OF due now batch refl out1 rest] .
      moreover obtain ws where "prints env (fs_output st) ws out1" "\<forall>(kind, payload)\<in>set ws. kind = EK_Warning"
        by (rule report_findings_prints [OF out1])
      ultimately show ?thesis
        by (intro followed_due [of env st ws "st\<lparr>fs_checks := checks, fs_output := out1\<rparr>"]) simp_all
    qed
  qed
qed simp

lemma finish_prints:
  assumes "finish env job out = Inr ((code, event), out')" and "event_kind_name EK_Finished \<in> set (fo_events out)"
  shows "prints env out [(EK_Finished, event)] out'"
    and "json_get event ''state'' = JStr (jv_state job)" and "json_get event ''exitCode'' = JInt code"
  using assms by (auto simp: finish_def Let_def bindE_eq_Inr selected_def dest!: emit_prints)

lemma finish_code:
  assumes "finish env job out = Inr ((code, event), out')"
    and "\<forall>a\<in>set (jv_attempts job). \<forall>s. av_term_signal a = Some s \<longrightarrow> 0 \<le> s"
  shows "code = 0 \<longleftrightarrow> jv_state job = ''succeeded''"
proof -
  have "last_attempt job = Some a \<Longrightarrow> a \<in> set (jv_attempts job)" for a
    by (auto simp: last_attempt_def split: if_splits)
  then show ?thesis
    using assms by (auto simp: finish_def Let_def bindE_eq_Inr outcome_exit_code_def split: option.splits if_splits)
qed

lemma configure_selects_finish: "configure load args = Inr cfg \<Longrightarrow> \<exists>evs. fc_events cfg = Some evs \<and> ''finished'' \<in> set evs"
  by (auto simp: configure_def select_events_def Let_def result_eqs split: option.splits if_splits)


text \<open>A job that starts, runs and succeeds, followed with the started events selected.\<close>

definition sample_view :: "string \<Rightarrow> job_view" where
  "sample_view state =
     \<lparr>jv_id = 4, jv_name = ''train'', jv_state = state, jv_eligibility = None, jv_state_reason = None, jv_max_parallel_runs = 1,
      jv_priority = 0, jv_cwd = ''/'', jv_context = None, jv_args = [''train''], jv_max_attempts = 1, jv_retry_delay_ms = 0,
      jv_time_limit_ms = None, jv_retry_not_before = None, jv_ready_sequence = None, jv_attempt_count = 0, jv_created_at = 0,
      jv_updated_at = 0, jv_finished_at = None, jv_dependencies = [], jv_attempts = [], jv_cancel_requested = None,
      jv_yield_policy = None, jv_yield_count = 0, jv_yield_request = None\<rparr>"

definition started_event :: event_view where
  "started_event = \<lparr>ev_id = 9, ev_timestamp = 0, ev_job = Some 4, ev_job_name = None, ev_attempt = Some 2,
     ev_attempt_number = Some 1, ev_event_type = ''attempt_running''\<rparr>"

definition sample_update :: "string \<Rightarrow> event_view list \<Rightarrow> job_update_view" where
  "sample_update state es = \<lparr>ju_job = sample_view state, ju_cursor = 9, ju_events = es, ju_has_more = False\<rparr>"

definition sample_follow_args :: follow_args where
  "sample_follow_args = \<lparr>fa_job = 4, fa_events = Some [EK_Started], fa_config = None, fa_only_finish = False, fa_no_hooks = False,
     fa_no_checks = False, fa_timeout = seconds 60, fa_json = False\<rparr>"

definition sample_emit_env :: emit_env where
  "sample_emit_env = \<lparr>ee_print = (\<lambda>_. ''?''), ee_write_error = (\<lambda>_. None), ee_mailbox_full = (\<lambda>_. False)\<rparr>"

definition sample_followed_config :: follow_config where
  "sample_followed_config = \<lparr>fc_events = Some [''started'', ''finished''], fc_checks = [], fc_hooks = []\<rparr>"

lemma sample_configure: "configure load sample_follow_args = Inr sample_followed_config"
  by (simp add: configure_def select_events_def sample_follow_args_def sample_followed_config_def default_follow_config_def
      validate_config_def validate_events_def validate_event_def ensure_def EVENTS_def MAX_CHECKS_def MAX_HOOKS_def Let_def)

lemma sample_follow:
  "\<exists>out. follow sample_emit_env exec sample_follow_args sample_followed_config (Inr js) 0 0
     (Inr (sample_update ''running'' [started_event])) [FI_Update 1 (Inr (sample_update ''succeeded'' []))] =
     Some (Inr (sample_view ''succeeded'', out)) \<and> selected out EK_Finished"
  by (simp add: follow_def process_update_def sample_update_def sample_view_def follow_done_def terminal_def last_attempt_def
      emit_event_def event_kind_of_def started_event_def emit_def selected_def sample_emit_env_def offer_hook_def
      new_follow_output_def sample_followed_config_def new_hook_worker_def needs_attention_def job_state_from_str_def Let_def)

definition sample_subscription :: job_subscription where
  "sample_subscription = \<lparr>js_socket = ''mlqd.sock'', js_request_id = ''s'', js_job = 4, js_cursor = None\<rparr>"


section \<open>Warnings\<close>

text \<open>The answers of the budget to batches of findings, given as their sizes and times.\<close>

fun admits :: "(nat \<times> nat) list \<Rightarrow> warning_budget \<Rightarrow> nat list \<times> warning_budget" where
  "admits [] b = ([], b)"
| "admits ((count, now) # rest) b =
     (let ((accepted, suppressed), b) = admit count now b; (as, b) = admits rest b in (accepted # as, b))"

lemma admit_parts:
  assumes "admit count now b = ((accepted, suppressed), b')"
  shows "accepted \<le> MAX_BATCH" and "accepted \<le> count" and "suppressed = count - accepted"
    and "wb_last b' = (if accepted \<noteq> 0 then Some now else wb_last b)"
    and "wb_suppressed b' = u64_saturating_add (wb_suppressed b) suppressed"
    and "accepted \<noteq> 0 \<Longrightarrow> wb_last b = Some l \<Longrightarrow> l + COOLDOWN \<le> now"
  using assms by (auto simp: admit_def Let_def COOLDOWN_def seconds_def split: if_splits option.splits)

lemma admits_Cons:
  assumes "admits ((count, now) # xs) b = (as, b')"
  obtains accepted suppressed b1 as' where "admit count now b = ((accepted, suppressed), b1)" "admits xs b1 = (as', b')"
    "as = accepted # as'"
  using assms by (auto simp: Let_def split: prod.splits)

lemma admits_cooldown:
  "admits xs b = (as, b') \<Longrightarrow> wb_last b = Some l \<Longrightarrow> i < length xs \<Longrightarrow> as ! i \<noteq> 0 \<Longrightarrow> l + COOLDOWN \<le> snd (xs ! i)"
proof (induction xs arbitrary: b as l i)
  case (Cons x xs)
  obtain count now where x: "x = (count, now)" by force
  obtain accepted suppressed b1 as' where 1: "admit count now b = ((accepted, suppressed), b1)" "admits xs b1 = (as', b')"
    "as = accepted # as'"
    using Cons.prems(1) unfolding x by (rule admits_Cons)
  note parts = admit_parts [OF 1(1)]
  show ?case
  proof (cases i)
    case 0
    then show ?thesis using parts(6) Cons.prems(2,4) by (simp add: x 1(3))
  next
    case (Suc i')
    then have "l' + COOLDOWN \<le> snd (xs ! i')" if "wb_last b1 = Some l'" for l'
      using Cons.IH [OF 1(2) that, of i'] Cons.prems(3,4) by (simp add: 1(3))
    then show ?thesis using parts(4,6) Cons.prems(2) Suc by (cases "accepted = 0") (force simp: x)+
  qed
qed simp

lemma admits_bounds:
  "admits xs b = (as, b') \<Longrightarrow> wb_suppressed b \<le> 2 ^ 64 - 1 \<Longrightarrow>
     list_all2 (\<lambda>a x. a \<le> MAX_BATCH \<and> a \<le> fst x) as xs \<and>
     wb_suppressed b' = min (wb_suppressed b + sum_list (map2 (\<lambda>a x. fst x - a) as xs)) (2 ^ 64 - 1)"
proof (induction xs arbitrary: b as)
  case (Cons x xs)
  obtain count now where x: "x = (count, now)" by force
  obtain accepted suppressed b1 as' where 1: "admit count now b = ((accepted, suppressed), b1)" "admits xs b1 = (as', b')"
    "as = accepted # as'"
    using Cons.prems(1) unfolding x by (rule admits_Cons)
  note parts = admit_parts [OF 1(1)]
  have "wb_suppressed b1 \<le> 2 ^ 64 - 1" by (simp add: parts(5) u64_saturating_add_def)
  from Cons.IH [OF 1(2) this] show ?case
    using parts(1,2,3,5) Cons.prems(2) by (simp add: x 1(3) u64_saturating_add_def)
qed simp

lemma admits_spaced:
  "admits xs b = (as, b') \<Longrightarrow> i < j \<Longrightarrow> j < length xs \<Longrightarrow> as ! i \<noteq> 0 \<Longrightarrow> as ! j \<noteq> 0 \<Longrightarrow>
     snd (xs ! i) + COOLDOWN \<le> snd (xs ! j)"
proof (induction xs arbitrary: b as i j)
  case (Cons x xs)
  obtain count now where x: "x = (count, now)" by force
  obtain accepted suppressed b1 as' where 1: "admit count now b = ((accepted, suppressed), b1)" "admits xs b1 = (as', b')"
    "as = accepted # as'"
    using Cons.prems(1) unfolding x by (rule admits_Cons)
  obtain j' where j': "j = Suc j'" using Cons.prems(2) by (cases j) auto
  show ?case
  proof (cases i)
    case 0
    then have "wb_last b1 = Some now" using admit_parts(4) [OF 1(1)] Cons.prems(4) by (simp add: 1(3))
    then show ?thesis using admits_cooldown [OF 1(2), of now j'] Cons.prems(3,5) 0 by (simp add: j' x 1(3))
  next
    case (Suc i')
    then show ?thesis using Cons.IH [OF 1(2), of i' j'] Cons.prems by (simp add: j' 1(3))
  qed
qed simp

text \<open>
  However many findings the checks produce, a follower prints at most 8 of a batch and no two
  batches within a minute; every finding that is not printed is counted, up to the limit of the counter.
\<close>

theorem warnings_bounded:
  assumes "admits batches \<lparr>wb_last = None, wb_suppressed = 0\<rparr> = (accepted, budget)"
  shows "list_all2 (\<lambda>a (count, now). a \<le> MAX_BATCH \<and> a \<le> count) accepted batches \<and>
    (\<forall>i j. i < j \<longrightarrow> j < length batches \<longrightarrow> accepted ! i \<noteq> 0 \<longrightarrow> accepted ! j \<noteq> 0 \<longrightarrow>
      snd (batches ! i) + COOLDOWN \<le> snd (batches ! j)) \<and>
    wb_suppressed budget = min (sum_list (map2 (\<lambda>a (count, now). count - a) accepted batches)) (2 ^ 64 - 1)"
  using admits_bounds [OF assms] admits_spaced [OF assms] by (simp add: split_def)

theorem warnings_bounded_witness:
  "wb_suppressed (snd (admits [(12, 0), (3, seconds 59), (0, seconds 60), (1, seconds 61)] \<lparr>wb_last = None, wb_suppressed = 0\<rparr>)) = 7"
proof -
  have "admits [(12, 0), (3, seconds 59), (0, seconds 60), (1, seconds 61)] \<lparr>wb_last = None, wb_suppressed = 0\<rparr> =
      ([8, 0, 0, 1], snd (admits [(12, 0), (3, seconds 59), (0, seconds 60), (1, seconds 61)] \<lparr>wb_last = None, wb_suppressed = 0\<rparr>))"
    by (simp add: admit_def COOLDOWN_def seconds_def MAX_BATCH_def)
  from warnings_bounded [OF this] show ?thesis by simp
qed

end
