(* ===== verification/Job_Context.thy ===== *)
theory Job_Context
  imports Settings
begin

text \<open>
  Model of \<^verbatim>\<open>src/src/job_context.rs\<close>: the repository and the checkout that own a working
  directory. What the file system answers is the record \<open>git_view\<close>. A canonical path is the list of its
  components, the root is the empty list.
\<close>

section \<open>Text\<close>

text \<open>Well-formed UTF-8: no overlong forms, no surrogates, nothing above U+10FFFF.\<close>

definition byte_in :: "nat \<Rightarrow> nat \<Rightarrow> char \<Rightarrow> bool" where
  "byte_in lo hi c \<longleftrightarrow> lo \<le> (of_char c :: nat) \<and> (of_char c :: nat) \<le> hi"

function valid_utf8 :: "string \<Rightarrow> bool" where
  "valid_utf8 s =
     (case s of
        [] \<Rightarrow> True
      | a # s1 \<Rightarrow>
          if byte_in 0 0x7F a then valid_utf8 s1
          else
            case s1 of
              [] \<Rightarrow> False
            | b # s2 \<Rightarrow>
                if byte_in 0xC2 0xDF a then byte_in 0x80 0xBF b \<and> valid_utf8 s2
                else
                  case s2 of
                    [] \<Rightarrow> False
                  | c # s3 \<Rightarrow>
                      if byte_in 0xE0 0xEF a then
                        byte_in (if byte_in 0xE0 0xE0 a then 0xA0 else 0x80) (if byte_in 0xED 0xED a then 0x9F else 0xBF) b \<and>
                        byte_in 0x80 0xBF c \<and> valid_utf8 s3
                      else
                        case s3 of
                          [] \<Rightarrow> False
                        | d # s4 \<Rightarrow>
                            byte_in 0xF0 0xF4 a \<and>
                            byte_in (if byte_in 0xF0 0xF0 a then 0x90 else 0x80) (if byte_in 0xF4 0xF4 a then 0x8F else 0xBF) b \<and>
                            byte_in 0x80 0xBF c \<and> byte_in 0x80 0xBF d \<and> valid_utf8 s4)"
  by pat_completeness auto
termination
  by (relation "measure length") auto

declare valid_utf8.simps [simp del]

definition to_str :: "string \<Rightarrow> string option" where
  "to_str s = (if valid_utf8 s then Some s else None)"

definition trim_newlines :: "string \<Rightarrow> string" where
  "trim_newlines s = rev (dropWhile (\<lambda>c. c = CHR 0x0A \<or> c = CHR 0x0D) (rev s))"

section \<open>Labels\<close>

text \<open>\<open>Path::file_name\<close>: the last component, unless it is the parent directory.\<close>

definition basename :: "string \<Rightarrow> string" where
  "basename path =
     (let parts = path_components path
      in if parts = [] \<or> last parts = ''..'' \<or> last parts = ''.'' then path else last parts)"

definition middle_dot :: string where
  "middle_dot = '' '' @ [CHR 0xC2, CHR 0xB7] @ '' ''"

definition label :: "job_context \<Rightarrow> string" where
  "label ctx =
     basename (ctx_repository ctx) @
     (if ctx_worktree ctx \<noteq> ctx_repository ctx then middle_dot @ ''worktree '' @ basename (ctx_worktree ctx) else []) @
     (if ctx_subdirectory ctx \<noteq> [] then middle_dot @ ctx_subdirectory ctx else [])"

section \<open>Discovery\<close>

datatype lstat = Present | NotFound | LstatFailed

record git_view =
  gv_canonicalize :: "string \<Rightarrow> string list option"
  gv_is_dir :: "string \<Rightarrow> bool"
  gv_is_file :: "string \<Rightarrow> bool"
  gv_lstat :: "string \<Rightarrow> lstat"
  gv_read :: "string \<Rightarrow> string option"

definition path_text :: "string list \<Rightarrow> string" where
  "path_text components = ''/'' @ join_with ''/'' components"

definition resolve :: "git_view \<Rightarrow> string list \<Rightarrow> string \<Rightarrow> string list option" where
  "resolve fs base target =
     (if target = [] \<or> CHR 0x0A \<in> set target \<or> CHR 0x0D \<in> set target \<or> NUL \<in> set target then None
      else gv_canonicalize fs (path_join (path_text base) target))"

definition MARKER_LIMIT :: nat where
  "MARKER_LIMIT = 4096"

definition read_marker :: "git_view \<Rightarrow> string \<Rightarrow> string option" where
  "read_marker fs path =
     (if \<not> gv_is_file fs path then None
      else
        Option.bind (gv_read fs path) (\<lambda>contents.
        let bytes = take (MARKER_LIMIT + 1) contents in
        if length bytes > MARKER_LIMIT then None else map_option trim_newlines (to_str bytes)))"

text \<open>The repository behind the metadata directory of a checkout.\<close>

definition repository_of :: "git_view \<Rightarrow> string list \<Rightarrow> string list \<Rightarrow> string list option" where
  "repository_of fs worktree git_dir =
     (let common_marker = path_join (path_text git_dir) ''commondir'' in
      case gv_lstat fs common_marker of
        Present \<Rightarrow>
          Option.bind (read_marker fs common_marker) (\<lambda>target.
          Option.bind (resolve fs git_dir target) (\<lambda>common.
          if \<not> gv_is_dir fs (path_join (path_text common) ''objects'') then None
          else if common = [] \<or> last common \<noteq> ''.git'' then None
          else Some (butlast common)))
      | NotFound \<Rightarrow>
          if \<not> gv_is_dir fs (path_join (path_text git_dir) ''objects'') then None else Some worktree
      | LstatFailed \<Rightarrow> None)"

definition git_dir_of :: "git_view \<Rightarrow> string list \<Rightarrow> string list option" where
  "git_dir_of fs worktree =
     (let marker = path_join (path_text worktree) ''.git'' in
      if gv_is_dir fs marker then gv_canonicalize fs marker
      else
        Option.bind (read_marker fs marker) (\<lambda>contents.
        Option.bind (strip_prefix ''gitdir: '' contents) (resolve fs worktree)))"

text \<open>\<open>cwd\<close> is below \<open>worktree\<close>: the rest is the subdirectory.\<close>

definition discover_at :: "git_view \<Rightarrow> string list \<Rightarrow> string list \<Rightarrow> job_context option" where
  "discover_at fs cwd worktree =
     Option.bind (git_dir_of fs worktree) (\<lambda>git_dir.
     if \<not> gv_is_file fs (path_join (path_text git_dir) ''HEAD'') then None
     else
       Option.bind (repository_of fs worktree git_dir) (\<lambda>repository.
       Option.bind (to_str (path_text repository)) (\<lambda>repository_text.
       Option.bind (to_str (path_text worktree)) (\<lambda>worktree_text.
       Option.bind (to_str (join_with ''/'' (drop (length worktree) cwd))) (\<lambda>subdirectory.
         Some \<lparr>ctx_repository = repository_text, ctx_worktree = worktree_text, ctx_subdirectory = subdirectory\<rparr>)))))"

text \<open>The ancestors of the working directory, from itself up to the root: its prefixes of \<open>n\<close> components.\<close>

fun discover_from :: "git_view \<Rightarrow> string list \<Rightarrow> nat \<Rightarrow> job_context option" where
  "discover_from fs cwd n =
     (case gv_lstat fs (path_join (path_text (take n cwd)) ''.git'') of
        Present \<Rightarrow> discover_at fs cwd (take n cwd)
      | NotFound \<Rightarrow> (case n of 0 \<Rightarrow> None | Suc m \<Rightarrow> discover_from fs cwd m)
      | LstatFailed \<Rightarrow> None)"

declare discover_from.simps [simp del]

definition discover :: "git_view \<Rightarrow> string \<Rightarrow> job_context option" where
  "discover fs cwd =
     Option.bind (gv_canonicalize fs cwd) (\<lambda>cwd.
       if \<not> gv_is_dir fs (path_text cwd) then None else discover_from fs cwd (length cwd))"

section \<open>The nearest checkout\<close>

lemma discover_from_skip:
  assumes "n \<le> k" and "\<forall>m. n < m \<and> m \<le> k \<longrightarrow> gv_lstat fs (path_join (path_text (take m cwd)) ''.git'') = NotFound"
  shows "discover_from fs cwd k = discover_from fs cwd n"
  using assms
proof (induction k)
  case (Suc k)
  then show ?case
    by (cases "n = Suc k") (simp_all add: discover_from.simps [of _ _ "Suc k"])
qed simp

lemma discover_at_fields:
  assumes "discover_at fs cwd worktree = Some ctx"
  shows "ctx_worktree ctx = path_text worktree"
    and "ctx_subdirectory ctx = join_with ''/'' (drop (length worktree) cwd)"
    and "\<exists>git_dir repository. git_dir_of fs worktree = Some git_dir \<and> repository_of fs worktree git_dir = Some repository \<and>
      gv_is_file fs (path_join (path_text git_dir) ''HEAD'') \<and> ctx_repository ctx = path_text repository"
  using assms by (auto simp: discover_at_def to_str_def bind_eq_Some_conv split: if_splits)

lemma repository_of_cases:
  assumes "repository_of fs worktree git_dir = Some repository"
  shows "repository = worktree \<and> gv_is_dir fs (path_join (path_text git_dir) ''objects'') \<or>
    gv_is_dir fs (path_join (path_text (repository @ [''.git''])) ''objects'') \<and>
    (\<exists>target. read_marker fs (path_join (path_text git_dir) ''commondir'') = Some target \<and>
      resolve fs git_dir target = Some (repository @ [''.git'']))"
  using assms
  by (auto simp: repository_of_def Let_def bind_eq_Some_conv split: lstat.splits if_splits)
    (metis append_butlast_last_id)+

text \<open>
  C40: the context of a directory comes from its nearest ancestor that has a \<open>.git\<close> entry: an
  unrecognizable entry gives no context and is never passed over for an outer repository. The context names that
  ancestor as the checkout, the path below it, and as the repository the checkout itself or, for a linked
  worktree, the directory whose \<open>.git\<close> directory with the objects its metadata points to.
\<close>

theorem discover_nearest:
  assumes "gv_canonicalize fs path = Some cwd" and "gv_is_dir fs (path_text cwd)" and "n \<le> length cwd"
    and "gv_lstat fs (path_join (path_text (take n cwd)) ''.git'') \<noteq> NotFound"
    and "\<forall>m. n < m \<and> m \<le> length cwd \<longrightarrow> gv_lstat fs (path_join (path_text (take m cwd)) ''.git'') = NotFound"
  shows "(git_dir_of fs (take n cwd) = None \<longrightarrow> discover fs path = None) \<and>
    (\<forall>ctx. discover fs path = Some ctx \<longrightarrow>
      ctx_worktree ctx = path_text (take n cwd) \<and> ctx_subdirectory ctx = join_with ''/'' (drop n cwd) \<and>
      (\<exists>git_dir. git_dir_of fs (take n cwd) = Some git_dir \<and> gv_is_file fs (path_join (path_text git_dir) ''HEAD'') \<and>
        (ctx_repository ctx = ctx_worktree ctx \<or>
         (\<exists>r target. ctx_repository ctx = path_text r \<and> gv_is_dir fs (path_join (path_text (r @ [''.git''])) ''objects'') \<and>
           read_marker fs (path_join (path_text git_dir) ''commondir'') = Some target \<and>
           resolve fs git_dir target = Some (r @ [''.git''])))))"
proof -
  have found: "discover fs path = (if gv_lstat fs (path_join (path_text (take n cwd)) ''.git'') = Present
      then discover_at fs cwd (take n cwd) else None)"
    using discover_from_skip [OF assms(3,5)] assms(1,2,4)
    by (simp add: discover_def discover_from.simps [of _ _ n] split: lstat.split)
  have "ctx_worktree ctx = path_text (take n cwd) \<and> ctx_subdirectory ctx = join_with ''/'' (drop n cwd) \<and>
      (\<exists>git_dir. git_dir_of fs (take n cwd) = Some git_dir \<and> gv_is_file fs (path_join (path_text git_dir) ''HEAD'') \<and>
        (ctx_repository ctx = ctx_worktree ctx \<or>
         (\<exists>r target. ctx_repository ctx = path_text r \<and> gv_is_dir fs (path_join (path_text (r @ [''.git''])) ''objects'') \<and>
           read_marker fs (path_join (path_text git_dir) ''commondir'') = Some target \<and>
           resolve fs git_dir target = Some (r @ [''.git'']))))"
    if ctx: "discover_at fs cwd (take n cwd) = Some ctx" for ctx
  proof -
    obtain git_dir repository where at: "git_dir_of fs (take n cwd) = Some git_dir"
      "repository_of fs (take n cwd) git_dir = Some repository"
      "gv_is_file fs (path_join (path_text git_dir) ''HEAD'')" "ctx_repository ctx = path_text repository"
      using discover_at_fields(3) [OF ctx] by blast
    then show ?thesis
      using discover_at_fields(1,2) [OF ctx] repository_of_cases [OF at(2)] assms(3) by auto
  qed
  then show ?thesis
    by (auto simp: found discover_at_def)
qed

text \<open>A linked worktree: its marker points into the metadata of the primary checkout.\<close>

definition sample_git_view :: git_view where
  "sample_git_view =
     \<lparr>gv_canonicalize = (\<lambda>path.
        if path = ''/w/t'' then Some [''w'', ''t''] else if path = ''/p/.git/l'' then Some [''p'', ''.git'', ''l'']
        else if path = ''/p/.git/l/..'' then Some [''p'', ''.git''] else None),
      gv_is_dir = (\<lambda>path. path = ''/w/t'' \<or> path = ''/p/.git/objects''),
      gv_is_file = (\<lambda>path. path \<in> {''/w/.git'', ''/p/.git/l/HEAD'', ''/p/.git/l/commondir''}),
      gv_lstat = (\<lambda>path. if path = ''/w/.git'' \<or> path = ''/p/.git/l/commondir'' then Present else NotFound),
      gv_read = (\<lambda>path. if path = ''/w/.git'' then Some (''gitdir: /p/.git/l'' @ [CHR 0x0A])
        else if path = ''/p/.git/l/commondir'' then Some (''..'' @ [CHR 0x0A]) else None)\<rparr>"

lemma sample_context:
  "discover sample_git_view ''/w/t'' = Some \<lparr>ctx_repository = ''/p'', ctx_worktree = ''/w'', ctx_subdirectory = ''t''\<rparr>"
  by (simp add: discover_def discover_from.simps discover_at_def git_dir_of_def repository_of_def read_marker_def resolve_def
      sample_git_view_def path_text_def path_join_def MARKER_LIMIT_def to_str_def valid_utf8.simps byte_in_def
      trim_newlines_def strip_prefix_def NUL_def Let_def numeral_2_eq_2)

theorem discover_nearest_witness:
  "\<exists>ctx. discover sample_git_view ''/w/t'' = Some ctx \<and> ctx_worktree ctx = ''/w'' \<and> ctx_subdirectory ctx = ''t'' \<and>
     (ctx_repository ctx = ctx_worktree ctx \<or> (\<exists>r. ctx_repository ctx = path_text r))"
proof -
  have "gv_canonicalize sample_git_view ''/w/t'' = Some [''w'', ''t'']" "gv_is_dir sample_git_view (path_text [''w'', ''t''])"
    "gv_lstat sample_git_view (path_join (path_text (take 1 [''w'', ''t''])) ''.git'') \<noteq> NotFound"
    "\<forall>m. 1 < m \<and> m \<le> length [''w'', ''t''] \<longrightarrow> gv_lstat sample_git_view (path_join (path_text (take m [''w'', ''t''])) ''.git'') = NotFound"
    by (auto simp: sample_git_view_def path_text_def path_join_def le_Suc_eq)
  from discover_nearest [OF this(1,2) _ this(3,4)] sample_context show ?thesis
    by (simp add: path_text_def) blast
qed

end
