(* ===== verification/Command_Line.thy ===== *)
theory Command_Line
  imports Follow Job_Context
begin

text \<open>
  Model of the commands of \<^verbatim>\<open>src/src/cli.rs\<close>: which operation a command sends and what it does with
  the reply, how a submission is put together, following a log, and the loop of the spoken announcements.
  The argument parser (\<^verbatim>\<open>clap\<close>) delivers a value of the datatype \<open>command\<close>; durations are nanoseconds.
  The warning about environment names that look sensitive, the speech process and the systemd commands are not
  modelled.
\<close>

section \<open>Arguments\<close>

definition BASELINE_ENV :: "string list" where
  "BASELINE_ENV = [''PATH'', ''HOME'', ''USER'', ''LOGNAME'', ''SHELL'', ''LANG'', ''TMPDIR'']"

definition parse_resolve_as :: "string \<Rightarrow> string + resolve_as" where
  "parse_resolve_as s =
     (if s = ''lost'' then Inr R_Lost
      else if s = ''cancelled'' then Inr R_Cancelled
      else Inl (''expected '' @ quoted ''lost'' @ '' or '' @ quoted ''cancelled'' @ '', got '' @ show_debug s))"

text \<open>\<open>str::parse::<u8>\<close>: digits with an optional plus sign.\<close>

definition parse_u8 :: "string \<Rightarrow> nat option" where
  "parse_u8 s = (if s \<noteq> [] \<and> hd s = CHR ''-'' then None else map_option nat (parse_int 0 255 s))"

definition parse_yield_exit_code :: "string \<Rightarrow> string + nat" where
  "parse_yield_exit_code s =
     ok_or (''expected an exit code from 3 to 125, got '' @ show_debug s)
       (case parse_u8 s of
          Some code \<Rightarrow> if in_YIELD_EXIT_CODES code \<and> code \<noteq> 0 then Some code else None
        | None \<Rightarrow> None)"

record submit_args =
  sa_name :: "string option"
  sa_cwd :: "string option"
  sa_max_parallel_runs :: nat
  sa_priority :: int
  sa_max_attempts :: nat
  sa_retry_delay :: "nat option"
  sa_time_limit :: "nat option"
  sa_yield_signal :: "yield_signal option"
  sa_yield_exit_code :: "nat option"
  sa_after_success :: "job_id list"
  sa_after_terminal :: "job_id list"
  sa_env :: "string list"
  sa_inherit_env :: "string list"
  sa_json :: bool
  sa_command :: "string list"

datatype daemon_command = DC_Status bool | DC_Run | DC_Install bool | DC_Uninstall

datatype recover_command = RC_List bool | RC_Resolve job_id int resolve_as bool

datatype command =
    C_Submit submit_args
  | C_Status bool bool bool
  | C_Subscribe
  | C_FollowTts "string option"
  | C_Show job_id bool
  | C_See "job_id option" bool
  | C_Logs job_id "int option" bool bool
  | C_Follow follow_args
  | C_Cancel job_id bool bool
  | C_Yield job_id string bool bool
  | C_Hold job_id bool
  | C_Release job_id bool
  | C_Pause bool
  | C_Unpause bool
  | C_Retry job_id bool
  | C_SetMaxParallelRuns job_id nat bool
  | C_SetPriority job_id int bool
  | C_SetTimeLimit job_id "nat option" bool bool
  | C_Daemon daemon_command
  | C_Recover recover_command

section \<open>Submissions\<close>

text \<open>What a submission takes from the environment of the process.\<close>

record process_env =
  pe_var :: "string \<Rightarrow> string option"
  pe_current_dir :: "string + string"
  pe_canonicalize :: "string \<Rightarrow> string + string"

definition baseline_env :: "process_env \<Rightarrow> (string \<times> string) list" where
  "baseline_env pe =
     fold (\<lambda>name env. case pe_var pe name of Some v \<Rightarrow> btree_insert str_less name v env | None \<Rightarrow> env) BASELINE_ENV []"

definition inherit_env :: "process_env \<Rightarrow> string \<Rightarrow> (string \<times> string) list \<Rightarrow> string + (string \<times> string) list" where
  "inherit_env pe name env =
     bindE (ok_or (''--inherit-env '' @ name @ '': variable is not set'') (pe_var pe name)) (\<lambda>v.
       Inr (btree_insert str_less name v env))"

text \<open>\<open>str::split_once\<close> at the first equals sign.\<close>

fun split_once :: "char \<Rightarrow> string \<Rightarrow> (string \<times> string) option" where
  "split_once sep [] = None"
| "split_once sep (c # cs) =
     (if c = sep then Some ([], cs) else map_option (\<lambda>(a, b). (c # a, b)) (split_once sep cs))"

definition explicit_env :: "string \<Rightarrow> (string \<times> string) list \<Rightarrow> string + (string \<times> string) list" where
  "explicit_env entry env =
     bindE (ok_or (''--env '' @ show_debug entry @ '' is not KEY=VALUE'') (split_once (CHR ''='') entry)) (\<lambda>(name, v).
       Inr (btree_insert str_less name v env))"

definition submit_env :: "process_env \<Rightarrow> submit_args \<Rightarrow> string + (string \<times> string) list" where
  "submit_env pe args =
     bindE (foldE (inherit_env pe) (sa_inherit_env args) (baseline_env pe)) (foldE explicit_env (sa_env args))"

definition as_millis :: "nat \<Rightarrow> nat" where
  "as_millis ns = ns div 1000000"

definition u64_try_from :: "nat \<Rightarrow> nat option" where
  "u64_try_from n = (if n < 2 ^ 64 then Some n else None)"

definition limit_millis :: "string \<Rightarrow> string \<Rightarrow> nat \<Rightarrow> string + nat" where
  "limit_millis too_large too_small ns =
     bindE (ok_or too_large (u64_try_from (as_millis ns))) (\<lambda>ms.
     bindE (ensure (ms \<noteq> 0) too_small) (\<lambda>_. Inr ms))"

definition transpose_opt :: "('a \<Rightarrow> 'e + 'b) \<Rightarrow> 'a option \<Rightarrow> 'e + 'b option" where
  "transpose_opt f m = (case m of None \<Rightarrow> Inr None | Some x \<Rightarrow> bindE (f x) (\<lambda>y. Inr (Some y)))"

definition submit_params_of :: "process_env \<Rightarrow> submit_args \<Rightarrow> string + submit_params" where
  "submit_params_of pe args =
     bindE (ensure (sa_command args \<noteq> []) ''a command is required after `--`'') (\<lambda>_.
     bindE (case sa_cwd args of Some dir \<Rightarrow> Inr dir | None \<Rightarrow> pe_current_dir pe) (\<lambda>dir.
     bindE (case pe_canonicalize pe dir of Inl _ \<Rightarrow> Inl (''canonicalizing working directory '' @ dir) | Inr cwd \<Rightarrow> Inr cwd) (\<lambda>cwd.
     bindE (submit_env pe args) (\<lambda>env.
     bindE (transpose_opt (limit_millis ''--time-limit is too large'' ''--time-limit must be at least 1ms'')
              (sa_time_limit args)) (\<lambda>time_limit.
     bindE (transpose_opt (\<lambda>d. ok_or ''--retry-delay is too large'' (u64_try_from (as_millis d)))
              (sa_retry_delay args)) (\<lambda>retry_delay.
       Inr \<lparr>sp_name = (case sa_name args of Some n \<Rightarrow> n | None \<Rightarrow> basename (hd (sa_command args))),
            sp_cwd = cwd, sp_args = sa_command args, sp_env = env,
            sp_max_parallel_runs = sa_max_parallel_runs args, sp_priority = sa_priority args,
            sp_max_attempts = sa_max_attempts args,
            sp_retry_delay_ms = (case retry_delay of Some d \<Rightarrow> d | None \<Rightarrow> 0), sp_time_limit_ms = time_limit,
            sp_dependencies =
              map (\<lambda>j. \<lparr>ds_job = j, ds_condition = Dep_Terminal\<rparr>) (sa_after_terminal args) @
              map (\<lambda>j. \<lparr>ds_job = j, ds_condition = Dep_Succeeded\<rparr>) (sa_after_success args),
            sp_yield_policy = map_option (\<lambda>s.
              \<lparr>yp_signal = s, yp_exit_code = (case sa_yield_exit_code args of Some c \<Rightarrow> c | None \<Rightarrow> DEFAULT_YIELD_EXIT_CODE)\<rparr>)
              (sa_yield_signal args)\<rparr>))))))"

section \<open>Commands and operations\<close>

text \<open>
  The operation of a command that changes the queue, under the key of the invocation. \<open>interactive\<close> says
  whether standard input is a terminal, \<open>confirmed\<close> what \<open>confirm_yield\<close> answers there.
\<close>

definition command_mutation :: "process_env \<Rightarrow> bool \<Rightarrow> bool \<Rightarrow> command \<Rightarrow> (string + op) option" where
  "command_mutation pe interactive confirmed c =
     (case c of
        C_Submit args \<Rightarrow> Some (bindE (submit_params_of pe args) (\<lambda>p. Inr (Submit p)))
      | C_Cancel job force json \<Rightarrow> Some (Inr (Cancel job force))
      | C_Yield job reason hold json \<Rightarrow>
          Some (bindE (ensure (\<not> interactive \<or> confirmed)
                         (''yield not confirmed; job '' @ show_int job @ '' was not signalled'')) (\<lambda>_.
            Inr (Yield job reason hold interactive)))
      | C_Hold job json \<Rightarrow> Some (Inr (Hold job))
      | C_Release job json \<Rightarrow> Some (Inr (Release job))
      | C_Pause json \<Rightarrow> Some (Inr Pause)
      | C_Unpause json \<Rightarrow> Some (Inr Unpause)
      | C_Retry job json \<Rightarrow> Some (Inr (Retry job))
      | C_SetMaxParallelRuns job n json \<Rightarrow> Some (Inr (SetMaxParallelRuns job n))
      | C_SetPriority job p json \<Rightarrow> Some (Inr (SetPriority job p))
      | C_SetTimeLimit job limit clear json \<Rightarrow>
          Some (bindE (if clear then Inr None
                       else
                         bindE (ok_or ''a duration or --clear is required'' limit) (\<lambda>limit.
                         bindE (limit_millis ''time limit is too large'' ''time limit must be at least 1ms'' limit) (\<lambda>ms.
                           Inr (Some ms)))) (\<lambda>limit.
            Inr (SetTimeLimit job limit)))
      | C_Recover (RC_Resolve job attempt resolution json) \<Rightarrow> Some (Inr (RecoverResolve job attempt resolution))
      | _ \<Rightarrow> None)"

text \<open>The operation of a command that only reads.\<close>

definition command_read :: "command \<Rightarrow> op option" where
  "command_read c =
     (case c of
        C_Status watch finished json \<Rightarrow> Some Status
      | C_Subscribe \<Rightarrow> Some Subscribe
      | C_FollowTts backend \<Rightarrow> Some FollowTtsSnapshot
      | C_Show job json \<Rightarrow> Some (Show job)
      | C_See job json \<Rightarrow> Some (See job)
      | C_Logs job attempt stderr f \<Rightarrow> Some (Logs job attempt)
      | C_Follow args \<Rightarrow> Some (SubscribeJob (fa_job args) None)
      | C_Daemon (DC_Status json) \<Rightarrow> Some DaemonStatus
      | C_Recover (RC_List json) \<Rightarrow> Some RecoverList
      | _ \<Rightarrow> None)"

definition confirm_yield :: "string \<Rightarrow> bool" where
  "confirm_yield answer \<longleftrightarrow>
     (let a = map (\<lambda>c. if 65 \<le> (of_char c :: nat) \<and> (of_char c :: nat) \<le> 90 then char_of ((of_char c :: nat) + 32) else c)
                (trim answer)
      in a = ''y'' \<or> a = ''yes'')"

fun error_code_text :: "error_code \<Rightarrow> string" where
  "error_code_text UNSUPPORTED_PROTOCOL = ''unsupported_protocol''"
| "error_code_text MALFORMED_REQUEST = ''malformed_request''"
| "error_code_text MISSING_IDEMPOTENCY_KEY = ''missing_idempotency_key''"
| "error_code_text IDEMPOTENCY_CONFLICT = ''idempotency_conflict''"
| "error_code_text NOT_FOUND = ''not_found''"
| "error_code_text INVALID_STATE = ''invalid_state''"
| "error_code_text INVALID_ARGUMENT = ''invalid_argument''"
| "error_code_text UNSAFE_RESOLUTION = ''unsafe_resolution''"
| "error_code_text ADMISSION_BLOCKED = ''admission_blocked''"
| "error_code_text TOO_MANY_SUBSCRIPTIONS = ''too_many_subscriptions''"
| "error_code_text INTERNAL = ''internal''"

text \<open>An em dash, as UTF-8.\<close>

definition em_dash :: string where
  "em_dash = [CHR 0xE2, CHR 0x80, CHR 0x94]"

fun transport_error_text :: "transport_error \<Rightarrow> string" where
  "transport_error_text (TransportFrame e) = io_error_text e"
| "transport_error_text (TransportOs e) = e"

fun client_error_text :: "client_error \<Rightarrow> string" where
  "client_error_text (Unavailable path e) =
     ''cannot reach mlqd at '' @ path @ '': '' @ transport_error_text e @ '' '' @ em_dash @ '' start it with `mlqd`''"
| "client_error_text (Daemon e) = error_code_text (eb_code e) @ '': '' @ eb_message e"
| "client_error_text (Other e) = e"

definition send ::
  "wire \<Rightarrow> paths \<Rightarrow> (nat \<Rightarrow> 's socket) \<Rightarrow> string \<Rightarrow> op \<Rightarrow> string option \<Rightarrow> 's \<Rightarrow> (string + reply) \<times> 's" where
  "send wr p socks request_id o' key s =
     (let (r, s) = client_request wr p socks request_id o' key s
      in (case r of Inr reply \<Rightarrow> Inr reply | Inl e \<Rightarrow> Inl (client_error_text e), s))"

text \<open>\<open>show\<close> is the text printed for the job: its JSON or the message of the mutation.\<close>

definition mutate_job ::
  "wire \<Rightarrow> paths \<Rightarrow> (nat \<Rightarrow> 's socket) \<Rightarrow> string \<Rightarrow> (job_view \<Rightarrow> string) \<Rightarrow> op \<Rightarrow> string \<Rightarrow> 's \<Rightarrow> (string + string) \<times> 's" where
  "mutate_job wr p socks request_id show o' key s =
     (let (r, s) = send wr p socks request_id o' (Some key) s
      in (bindE r (\<lambda>reply. case reply of R_Job job \<Rightarrow> Inr (show job) | _ \<Rightarrow> Inl (unexpected ''job'')), s))"

definition mutate_pause ::
  "wire \<Rightarrow> paths \<Rightarrow> (nat \<Rightarrow> 's socket) \<Rightarrow> string \<Rightarrow> (bool \<Rightarrow> string) option \<Rightarrow> op \<Rightarrow> string \<Rightarrow> 's \<Rightarrow> (string + string) \<times> 's" where
  "mutate_pause wr p socks request_id json o' key s =
     (let (r, s) = send wr p socks request_id o' (Some key) s
      in (bindE r (\<lambda>reply.
            case reply of
              R_Paused paused \<Rightarrow>
                Inr (case json of Some print \<Rightarrow> print paused
                     | None \<Rightarrow> if o' = Pause then ''queue paused'' else ''queue unpaused'')
            | _ \<Rightarrow> Inl (unexpected ''paused'')), s))"

section \<open>Contexts of jobs\<close>

text \<open>The cache keeps what was discovered for the directories of the last snapshot.\<close>

type_synonym context_cache = "(string \<times> job_context option) list"

definition enrich :: "(string \<Rightarrow> job_context option) \<Rightarrow> job_view \<Rightarrow> context_cache \<Rightarrow> job_view \<times> context_cache" where
  "enrich find_context job cache =
     (if jv_context job \<noteq> None then (job, cache)
      else
        case map_of cache (jv_cwd job) of
          Some ctx \<Rightarrow> (job\<lparr>jv_context := ctx\<rparr>, cache)
        | None \<Rightarrow>
            (let ctx = find_context (jv_cwd job) in (job\<lparr>jv_context := ctx\<rparr>, (jv_cwd job, ctx) # cache)))"

fun enrich_all :: "(string \<Rightarrow> job_context option) \<Rightarrow> job_view list \<Rightarrow> context_cache \<Rightarrow> job_view list \<times> context_cache" where
  "enrich_all find_context [] cache = ([], cache)"
| "enrich_all find_context (job # js) cache =
     (let (job, cache) = enrich find_context job cache; (js, cache) = enrich_all find_context js cache in (job # js, cache))"

definition enrich_jobs :: "(string \<Rightarrow> job_context option) \<Rightarrow> job_view list \<Rightarrow> context_cache \<Rightarrow> job_view list \<times> context_cache" where
  "enrich_jobs find_context js cache =
     enrich_all find_context js (filter (\<lambda>(cwd, _). cwd \<in> jv_cwd ` set js) cache)"

definition status_jobs_shown :: "bool \<Rightarrow> job_view list \<Rightarrow> job_view list" where
  "status_jobs_shown finished js = filter (\<lambda>j. (jv_finished_at j \<noteq> None) = finished) js"

section \<open>Logs\<close>

text \<open>
  A copy of the log delivers what the file had when its size was read, from the offset on; the file may
  have grown (\<open>contents\<close>) when it is copied.
\<close>

definition copy_log_snapshot :: "nat \<Rightarrow> 8 word list \<Rightarrow> nat \<Rightarrow> 8 word list \<Rightarrow> nat \<times> 8 word list" where
  "copy_log_snapshot len contents offset out =
     (let available = len - offset in
      if available > 0
      then (let copied = take available (drop offset contents) in (offset + length copied, out @ copied))
      else (offset, out))"

text \<open>
  What an iteration reads: the size and contents of the file if it exists, or the error of opening or
  copying it; the view of the attempt; and the size of the file after that, if it can be read.
\<close>

record log_poll =
  lgp_file :: "string + (nat \<times> 8 word list) option"
  lgp_latest :: "string + log_paths_view"
  lgp_size_after :: "nat option"

record log_tail =
  lt_offset :: nat
  lt_out :: "8 word list"
  lt_notice_shown :: bool
  lt_notices :: "string list"

definition recovery_notice :: "string \<Rightarrow> string" where
  "recovery_notice state =
     ''[mlq] attempt is '' @ state @ '': the command may still be running; following until it drains '' @
     ''(Ctrl-C to stop, see `mlq recover list`)''"

definition end_notice :: "log_paths_view \<Rightarrow> string" where
  "end_notice v =
     ''[mlq] attempt '' @ show_int (lv_attempt_number v) @ '' '' @ lv_attempt_state v @
     (case lv_message v of Some m \<Rightarrow> '' '' @ em_dash @ '' '' @ m | None \<Rightarrow> [])"

definition notice_recovery :: "log_paths_view \<Rightarrow> attempt_state option \<Rightarrow> log_tail \<Rightarrow> log_tail" where
  "notice_recovery v state t =
     (if (state = Some A_Orphaned \<or> state = Some A_Quarantined) \<and> \<not> lt_notice_shown t
      then t\<lparr>lt_notice_shown := True, lt_notices := lt_notices t @ [recovery_notice (lv_attempt_state v)]\<rparr> else t)"

definition copy_log :: "(nat \<times> 8 word list) option \<Rightarrow> log_tail \<Rightarrow> log_tail" where
  "copy_log f t =
     (case f of
        None \<Rightarrow> t
      | Some (len, contents) \<Rightarrow>
          (let (offset, out) = copy_log_snapshot len contents (lt_offset t) (lt_out t)
           in t\<lparr>lt_offset := offset, lt_out := out\<rparr>))"

definition attempt_state_of :: "log_paths_view \<Rightarrow> attempt_state option" where
  "attempt_state_of v = (case attempt_state_from_str (lv_attempt_state v) of Inr s \<Rightarrow> Some s | Inl _ \<Rightarrow> None)"

text \<open>The exit code of the process, an error, or (\<open>None\<close>) still following.\<close>

fun logs_loop :: "bool \<Rightarrow> log_poll list \<Rightarrow> log_tail \<Rightarrow> (string + int) option \<times> log_tail" where
  "logs_loop following [] t = (None, t)"
| "logs_loop following (i # is) t =
     (case lgp_file i of
        Inl e \<Rightarrow> (Some (Inl e), t)
      | Inr f \<Rightarrow>
          (let t = copy_log f t in
           if \<not> following then (Some (Inr 0), t)
           else
             case lgp_latest i of
               Inl e \<Rightarrow> (Some (Inl e), t)
             | Inr v \<Rightarrow>
                 (let state = attempt_state_of v; t = notice_recovery v state t in
                  if (case state of Some s \<Rightarrow> attempt_state_is_terminal s | None \<Rightarrow> False) then
                    (if (case lgp_size_after i of Some n \<Rightarrow> n > lt_offset t | None \<Rightarrow> False)
                     then logs_loop following is t
                     else
                       (Some (Inr (outcome_exit_code (state = Some A_Succeeded) (lv_exit_code v) (lv_term_signal v))),
                        t\<lparr>lt_notices := lt_notices t @ [end_notice v]\<rparr>))
                  else logs_loop following is t)))"

text \<open>The path that is followed is the one of the first answer.\<close>

definition logs :: "bool \<Rightarrow> string + reply \<Rightarrow> (string \<Rightarrow> log_poll list) \<Rightarrow> bool \<Rightarrow> (string + int) option \<times> log_tail" where
  "logs following first polls stderr =
     (let start = \<lparr>lt_offset = 0, lt_out = [], lt_notice_shown = False, lt_notices = []\<rparr> in
      case first of
        Inl e \<Rightarrow> (Some (Inl e), start)
      | Inr (R_LogPaths v) \<Rightarrow> logs_loop following (polls (if stderr then lv_stderr v else lv_stdout v)) start
      | Inr _ \<Rightarrow> (Some (Inl (unexpected ''log paths'')), start))"

section \<open>Events for announcements\<close>

definition TTS_PAGE_SIZE :: nat where
  "TTS_PAGE_SIZE = 256"

text \<open>
  The pages behind the cursor: each request of the loop is answered for its operation. The cursor
  moves only when every page arrived; no result means that the loop still asks.
\<close>

fun tts_pages :: "(op \<Rightarrow> string + reply) list \<Rightarrow> int \<Rightarrow> event_view list \<Rightarrow> (string + event_view list \<times> int) option" where
  "tts_pages [] next_cursor collected = None"
| "tts_pages (answer # rest) next_cursor collected =
     (case answer (Events next_cursor TTS_PAGE_SIZE) of
        Inl e \<Rightarrow> Some (Inl e)
      | Inr (R_Events evs) \<Rightarrow>
          (let next_cursor = (if evs = [] then next_cursor else ev_id (last evs)) in
           if length evs = TTS_PAGE_SIZE then tts_pages rest next_cursor (collected @ evs)
           else Some (Inr (collected @ evs, next_cursor)))
      | Inr _ \<Rightarrow> Some (Inl (unexpected ''events'')))"

definition follow_tts_events :: "(op \<Rightarrow> string + reply) list \<Rightarrow> int \<Rightarrow> (string + event_view list \<times> int) option" where
  "follow_tts_events answers cursor = tts_pages answers cursor []"

text \<open>
  One round of the loop: the events behind the cursor, and if there are any those that arrive in the next
  moment. A failure keeps what was read before it. The batch is what is announced.
\<close>

definition tts_round :: "(op \<Rightarrow> string + reply) list \<Rightarrow> (op \<Rightarrow> string + reply) list \<Rightarrow> int \<Rightarrow> (event_view list \<times> int) option" where
  "tts_round first second cursor =
     (case follow_tts_events first cursor of
        None \<Rightarrow> None
      | Some (Inl e) \<Rightarrow> Some ([], cursor)
      | Some (Inr (evs, cursor)) \<Rightarrow>
          if evs = [] then Some ([], cursor)
          else
            (case follow_tts_events second cursor of
               None \<Rightarrow> None
             | Some (Inl e) \<Rightarrow> Some (evs, cursor)
             | Some (Inr (later, cursor)) \<Rightarrow> Some (evs @ later, cursor)))"

fun tts_rounds :: "((op \<Rightarrow> string + reply) list \<times> (op \<Rightarrow> string + reply) list) list \<Rightarrow> int \<Rightarrow> (event_view list list \<times> int) option" where
  "tts_rounds [] cursor = Some ([], cursor)"
| "tts_rounds ((first, second) # rest) cursor =
     Option.bind (tts_round first second cursor) (\<lambda>(batch, cursor).
       map_option (\<lambda>(batches, cursor). (batch # batches, cursor)) (tts_rounds rest cursor))"

section \<open>Installation\<close>

definition SERVICE_NAME :: string where
  "SERVICE_NAME = ''mlqd.service''"

definition systemd_user_unit_path :: "process_env \<Rightarrow> string + string" where
  "systemd_user_unit_path pe =
     (let nonempty = (\<lambda>name. case pe_var pe name of Some v \<Rightarrow> if v = [] then None else Some v | None \<Rightarrow> None) in
      bindE (case nonempty ''XDG_CONFIG_HOME'' of
               Some xdg \<Rightarrow> Inr xdg
             | None \<Rightarrow>
                 bindE (ok_or ''HOME is not set; cannot locate the systemd user unit directory'' (nonempty ''HOME'')) (\<lambda>home.
                   Inr (path_join home ''.config''))) (\<lambda>config_home.
        Inr (path_join (path_join config_home ''systemd/user'') SERVICE_NAME)))"

text \<open>The daemon's binary: beside this one, else the first on the path. \<open>exe_dir\<close> is the directory of the client.\<close>

definition mlqd_path :: "process_env \<Rightarrow> (string \<Rightarrow> bool) \<Rightarrow> string option \<Rightarrow> string + string" where
  "mlqd_path pe is_file exe_dir =
     (case (case exe_dir of Some dir \<Rightarrow> if is_file (path_join dir ''mlqd'') then Some (path_join dir ''mlqd'') else None
            | None \<Rightarrow> None) of
        Some sibling \<Rightarrow> pe_canonicalize pe sibling
      | None \<Rightarrow>
          (case List.find is_file (map (\<lambda>dir. path_join dir ''mlqd'')
                  (filter (\<lambda>dir. dir \<noteq> []) (split_paths_from [] (case pe_var pe ''PATH'' of Some v \<Rightarrow> v | None \<Rightarrow> [])))) of
             Some candidate \<Rightarrow> pe_canonicalize pe candidate
           | None \<Rightarrow> Inl ''mlqd not found next to mlq or on PATH; install with `cargo install --path .`''))"

end
