(* ===== verification/Display.thy ===== *)
theory Display
  imports Command_Line
begin

text \<open>
  Model of the texts of \<^verbatim>\<open>src/src/cli.rs\<close>: the status of the queue, the detail of a job, the
  result of a mutation and the spoken announcements. The text of a duration (\<^verbatim>\<open>humantime\<close>) is a parameter.
\<close>

section \<open>Text\<close>

definition truncate_text :: "string \<Rightarrow> nat \<Rightarrow> string" where
  "truncate_text s mx = (if char_count s \<le> mx then s else chars_take (mx - 1) s @ ellipsis)"

text \<open>\<open>{:<w}\<close>: padded with spaces to a number of characters.\<close>

definition pad :: "nat \<Rightarrow> string \<Rightarrow> string" where
  "pad w s = s @ replicate (w - char_count s) (CHR '' '')"

definition line :: "string \<Rightarrow> string" where
  "line s = s @ [CHR 0x0A]"

definition needs_quotes :: "string \<Rightarrow> bool" where
  "needs_quotes arg \<longleftrightarrow>
     arg = [] \<or> list_ex (\<lambda>ch. is_white ch \<or> ch \<in> set [[CHR 0x27], [CHR 0x22], ''$'', [CHR 0x60], [CHR 0x5C]]) (utf8_chars arg)"

definition shell_join :: "string list \<Rightarrow> string" where
  "shell_join args = join_with '' '' (map (\<lambda>arg. if needs_quotes arg then show_debug arg else arg) args)"

section \<open>The status of the queue\<close>

definition STATUS_NAME_WIDTH :: nat where "STATUS_NAME_WIDTH = 32"
definition STATUS_QUEUE_LIMIT :: nat where "STATUS_QUEUE_LIMIT = 10"
definition STATUS_FINISHED_LIMIT :: nat where "STATUS_FINISHED_LIMIT = 10"
definition STATUS_HELD_LIMIT :: nat where "STATUS_HELD_LIMIT = 10"

text \<open>Keys of \<open>sort_by_key\<close> are lists of numbers, compared from the left.\<close>

fun lex_less :: "int list \<Rightarrow> int list \<Rightarrow> bool" where
  "lex_less (x # xs) (y # ys) \<longleftrightarrow> x < y \<or> x = y \<and> lex_less xs ys"
| "lex_less [] ys \<longleftrightarrow> ys \<noteq> []"
| "lex_less (x # xs) [] \<longleftrightarrow> False"

definition sort_by_key :: "('a \<Rightarrow> int list) \<Rightarrow> 'a list \<Rightarrow> 'a list" where
  "sort_by_key key = order_by (\<lambda>a b. lex_less (key a) (key b))"

definition live_key :: "job_view \<Rightarrow> int list" where
  "live_key job =
     [if jv_state job = ''running'' then 0 else if jv_state job = ''starting'' then 1
      else if jv_state job = ''needs_attention'' then 2 else 3, jv_id job]"

definition queue_key :: "job_view \<Rightarrow> int list" where
  "queue_key job =
     [if jv_ready_sequence job = None then 1 else 0, - jv_priority job,
      case jv_ready_sequence job of Some n \<Rightarrow> n | None \<Rightarrow> i64_max, jv_id job]"

definition finished_key :: "job_view \<Rightarrow> int list" where
  "finished_key job = [- (case jv_finished_at job of Some t \<Rightarrow> t | None \<Rightarrow> 0), - jv_id job]"

datatype status_section = Live | Queued | HeldSection | Finished

definition section_of :: "job_view \<Rightarrow> status_section" where
  "section_of job =
     (if jv_finished_at job \<noteq> None then Finished
      else if jv_state job = ''queued'' then Queued
      else if jv_state job = ''held'' then HeldSection
      else Live)"

definition status_sections :: "status_view \<Rightarrow> job_view list \<times> job_view list \<times> job_view list \<times> job_view list" where
  "status_sections view =
     (let part = (\<lambda>s. filter (\<lambda>job. section_of job = s) (sv_jobs view)) in
      (sort_by_key live_key (part Live),
       take STATUS_QUEUE_LIMIT (sort_by_key queue_key (part Queued)),
       take STATUS_HELD_LIMIT (sort_by_key queue_key (part HeldSection)),
       take STATUS_FINISHED_LIMIT (sort_by_key finished_key (part Finished))))"

definition counted_attempts :: "job_view \<Rightarrow> int" where
  "counted_attempts job = jv_attempt_count job - jv_yield_count job"

definition status_header :: string where
  "status_header =
     line (pad 6 ''JOB'' @ '' '' @ pad STATUS_NAME_WIDTH ''NAME'' @ '' '' @ pad 15 ''STATE'' @ '' '' @ pad 3 ''PRI'' @ '' '' @
       pad 3 ''MAX'' @ '' '' @ pad 5 ''TRIES'' @ '' REASON'')"

definition status_reason :: "job_view \<Rightarrow> string" where
  "status_reason job =
     (let prior = (case (case jv_eligibility job of Some e \<Rightarrow> Some e | None \<Rightarrow> jv_state_reason job) of
            Some r \<Rightarrow> if r \<noteq> [] \<and> r \<noteq> ''-'' then [r] else []
          | None \<Rightarrow> []);
          reason = join_with ''; ''
            ((if jv_cancel_requested job = Some True then [''cancel_requested''] else []) @
             (if jv_yield_request job \<noteq> None then [''yield_requested''] else []) @ prior)
      in if reason = [] then ''-'' else reason)"

definition status_job_lines :: "job_view \<Rightarrow> string" where
  "status_job_lines job =
     line (pad 6 (show_int (jv_id job)) @ '' '' @ pad STATUS_NAME_WIDTH (truncate_text (jv_name job) STATUS_NAME_WIDTH) @ '' '' @
       pad 15 (jv_state job) @ '' '' @ pad 3 (show_int (jv_priority job)) @ '' '' @
       pad 3 (show_nat (jv_max_parallel_runs job)) @ '' '' @
       pad 5 (show_int (counted_attempts job) @ ''/'' @ show_nat (jv_max_attempts job)) @ '' '' @ status_reason job) @
     line (''       '' @ (case jv_context job of Some ctx \<Rightarrow> label ctx | None \<Rightarrow> ''cwd '' @ jv_cwd job))"

definition reservation_line :: "reservation_view \<Rightarrow> string" where
  "reservation_line res =
     line (''protected job: '' @ show_int (rv_protected_job res) @ '' ('' @
       (if rv_backfill_window_open res then ''backfill window open''
        else case rv_backfill_cutoff res of
          Some cutoff \<Rightarrow> ''backfill readiness cutoff '' @ show_int cutoff
        | None \<Rightarrow> ''backfill frontier unavailable'') @
       ''; blocked by attempts '' @ show_int_list (rv_blocking_attempts res) @
       ''; consumed bypasses '' @ show_int_list (rv_consumed_bypasses res) @ '')'')"

definition render_status :: "status_view \<Rightarrow> bool \<Rightarrow> string" where
  "render_status view finished_only =
     (let (live, queued, held, finished) = status_sections view in
      if finished_only then
        (if finished = [] then line ''no finished runs''
         else line ''Finished Runs'' @ status_header @ concat (map status_job_lines finished))
      else
        (case sv_effective_limit view of
           Some limit \<Rightarrow> line (''active leases: '' @ show_nat (sv_active_leases view) @ '' (effective limit '' @ show_nat limit @ '')'')
         | None \<Rightarrow> line ''active leases: 0'') @
        (case sv_reservation view of Some res \<Rightarrow> reservation_line res | None \<Rightarrow> []) @
        (if sv_paused view then line ''paused: new runs will not start'' else []) @
        (if sv_admission_blocked view then line ''admission blocked (see daemon logs)'' else []) @
        (if live = [] \<and> queued = [] \<and> held = [] then line ''no jobs''
         else
           (if live \<noteq> [] \<or> queued \<noteq> [] then status_header @ concat (map status_job_lines (live @ queued)) else []) @
           (if held \<noteq> [] then line [] @ line ''Held Jobs'' @ status_header @ concat (map status_job_lines held) else [])))"

text \<open>One round of the status command: the selected jobs with their contexts, as text.\<close>

definition status_text :: "(string \<Rightarrow> job_context option) \<Rightarrow> bool \<Rightarrow> status_view \<Rightarrow> context_cache \<Rightarrow> string \<times> context_cache" where
  "status_text find_context finished view cache =
     (let (js, cache) = enrich_jobs find_context (status_jobs_shown finished (sv_jobs view)) cache
      in (render_status (view\<lparr>sv_jobs := js\<rparr>) finished, cache))"

section \<open>Jobs\<close>

definition dependency_outcome :: "dependency_view \<Rightarrow> string" where
  "dependency_outcome d =
     (case (dv_resolution d, dv_parent_outcome d) of
        (Some resolution, Some outcome) \<Rightarrow>
          if dv_parent_state d = outcome then dependency_resolution_as_str resolution @ ''; parent '' @ outcome
          else dependency_resolution_as_str resolution @ ''; observed '' @ outcome @ '', now '' @ dv_parent_state d
      | _ \<Rightarrow> ''waiting; parent '' @ dv_parent_state d)"

definition attempt_lines :: "attempt_view \<Rightarrow> string" where
  "attempt_lines a =
     line (''  attempt '' @ pad 3 (show_int (av_number a)) @ '' '' @ av_state a @
       (case (av_exit_code a, av_term_signal a) of
          (Some code, _) \<Rightarrow> '' exit '' @ show_int code
        | (None, Some signal) \<Rightarrow> '' signal '' @ show_int signal
        | _ \<Rightarrow> []) @
       (case av_message a of Some m \<Rightarrow> '' '' @ em_dash @ '' '' @ m | None \<Rightarrow> [])) @
     (case av_yield_reason a of Some r \<Rightarrow> line (''    yield requested: '' @ r) | None \<Rightarrow> []) @
     line (''    logs: '' @ av_log_dir a)"

definition job_detail :: "(nat \<Rightarrow> string) \<Rightarrow> job_view \<Rightarrow> string" where
  "job_detail format_millis job =
     line (''job '' @ show_int (jv_id job) @ '' ['' @ jv_name job @ '']'') @
     line (''  state:            '' @ jv_state job @
       (case jv_state_reason job of Some r \<Rightarrow> '' ('' @ r @ '')'' | None \<Rightarrow> [])) @
     (case jv_eligibility job of Some e \<Rightarrow> line (''  eligibility:      '' @ e) | None \<Rightarrow> []) @
     (if jv_cancel_requested job = Some True then line ''  cancel requested: yes'' else []) @
     (case jv_yield_request job of
        Some r \<Rightarrow> line (''  yield requested:  '' @ (if yv_delivered r then ''signal sent'' else ''not yet signalled'') @
          (if yv_hold r then '', then hold'' else []))
      | None \<Rightarrow> []) @
     line (''  priority:         '' @ show_int (jv_priority job)) @
     line (''  maxParallelRuns:  '' @ show_nat (jv_max_parallel_runs job)) @
     (case jv_context job of
        Some ctx \<Rightarrow> line (''  repository:       '' @ ctx_repository ctx) @ line (''  worktree:         '' @ ctx_worktree ctx)
      | None \<Rightarrow> []) @
     line (''  cwd:              '' @ jv_cwd job) @
     line (''  command:          '' @ shell_join (jv_args job)) @
     line (''  attempts:         '' @ show_int (counted_attempts job) @ ''/'' @ show_nat (jv_max_attempts job) @
       (if jv_yield_count job = 0 then [] else '' (+'' @ show_int (jv_yield_count job) @ '' yielded)'')) @
     (case jv_yield_policy job of
        Some p \<Rightarrow> line (''  yield:            '' @ yield_signal_as_str (yp_signal p) @ '' -> exit '' @ show_nat (yp_exit_code p))
      | None \<Rightarrow> []) @
     concat (map (\<lambda>d. line (''  depends on:       job '' @ show_int (dv_parent d) @ '' ('' @
       dependency_condition_as_str (dv_condition d) @ '', '' @ dependency_outcome d @ '')'')) (jv_dependencies job)) @
     (case jv_time_limit_ms job of
        Some limit \<Rightarrow> line (''  time limit:       '' @ format_millis limit @ '' per attempt'')
      | None \<Rightarrow> []) @
     concat (map attempt_lines (jv_attempts job))"

definition job_title :: "job_view \<Rightarrow> string" where
  "job_title job = ''job '' @ show_int (jv_id job) @ '' ['' @ jv_name job @ '']''"

definition yield_message :: "yield_request_view \<Rightarrow> yield_policy \<Rightarrow> job_view \<Rightarrow> string" where
  "yield_message request policy job =
     job_title job @ '' '' @
     (if yv_delivered request
      then yield_signal_as_str (yp_signal policy) @
        '' was already sent and is not sent again; the command owes the yield at its next checkpoint''
      else ''yield requested'') @
     ''; it returns '' @ (if yv_hold request then ''held'' else ''queued'') @
     '' if the command exits with code '' @ show_nat (yp_exit_code policy)"

definition format_mutation_message :: "(nat \<Rightarrow> string) \<Rightarrow> op \<Rightarrow> job_view \<Rightarrow> string" where
  "format_mutation_message format_millis o' job =
     (let otherwise =
        job_title job @ '' is now '' @ jv_state job @
        (case (jv_eligibility job, jv_state_reason job) of
           (_, Some r) \<Rightarrow> '' ('' @ r @ '')''
         | (Some r, None) \<Rightarrow> '' ('' @ r @ '')''
         | _ \<Rightarrow> [])
      in case o' of
           Cancel _ force \<Rightarrow>
             if jv_state job \<in> {''starting'', ''running'', ''needs_attention''}
             then job_title job @ '' cancel requested'' @ (if force then '' (force)'' else []) else otherwise
         | Yield _ _ _ _ \<Rightarrow>
             (case (jv_yield_request job, jv_yield_policy job) of
                (Some request, Some policy) \<Rightarrow> yield_message request policy job
              | _ \<Rightarrow> otherwise)
         | SetMaxParallelRuns _ _ \<Rightarrow> job_title job @ '' maxParallelRuns is now '' @ show_nat (jv_max_parallel_runs job)
         | SetPriority _ _ \<Rightarrow> job_title job @ '' priority is now '' @ show_int (jv_priority job)
         | SetTimeLimit _ _ \<Rightarrow>
             (case jv_time_limit_ms job of
                Some limit \<Rightarrow> job_title job @ '' time limit is now '' @ format_millis limit
              | None \<Rightarrow> job_title job @ '' time limit cleared'')
         | _ \<Rightarrow> otherwise)"

definition confirm_question :: "bool \<Rightarrow> job_view \<Rightarrow> string" where
  "confirm_question hold job =
     ''Yield job '' @ show_int (jv_id job) @ '' ['' @ jv_name job @ ''] ('' @ jv_state job @ '', attempt '' @
     show_int (jv_attempt_count job) @ '')? It is asked to checkpoint and exit, then '' @
     (if hold then ''held until `mlq release`'' else ''requeued behind the work waiting at its priority'') @ ''. [y/N] ''"

text \<open>\<open>job\<close> with the context that was found for it.\<close>

definition submitted_text :: "job_view \<Rightarrow> string" where
  "submitted_text job =
     line (''submitted '' @ job_title job @ '' maxParallelRuns='' @ show_nat (jv_max_parallel_runs job) @
       '' priority='' @ show_int (jv_priority job)) @
     (case jv_context job of Some ctx \<Rightarrow> line (''  '' @ label ctx) | None \<Rightarrow> [])"

definition daemon_status_text :: "daemon_status_view \<Rightarrow> string" where
  "daemon_status_text view =
     line (''mlqd '' @ dsv_version view @ '' (pid '' @ show_nat (dsv_pid view) @ '')'') @
     line (''  socket:         '' @ dsv_socket_path view) @
     line (''  database:       '' @ dsv_db_path view) @
     line (''  active leases:  '' @ show_nat (dsv_active_leases view)) @
     line (''  queued jobs:    '' @ show_nat (dsv_queued_jobs view)) @
     (if dsv_paused view then line ''  paused'' else []) @
     (if dsv_admission_blocked view then line ''  admission blocked'' else [])"

definition recover_list_text :: "attempt_view list \<Rightarrow> string" where
  "recover_list_text as =
     (if as = [] then line ''no attempts need recovery''
      else
        line (pad 6 ''JOB'' @ '' '' @ pad 9 ''ATTEMPT'' @ '' '' @ pad 12 ''STATE'' @ '' MESSAGE'') @
        concat (map (\<lambda>a. line (pad 6 (show_int (av_job_id a)) @ '' '' @ pad 9 (show_int (av_number a)) @ '' '' @
          pad 12 (av_state a) @ '' '' @ (case av_message a of Some m \<Rightarrow> m | None \<Rightarrow> ''-''))) as))"

section \<open>Announcements\<close>

definition MAX_SPOKEN_OUTCOMES :: nat where "MAX_SPOKEN_OUTCOMES = 8"
definition MAX_SPOKEN_STARTS :: nat where "MAX_SPOKEN_STARTS = 5"

definition normalized_spoken_name :: "string \<Rightarrow> string" where
  "normalized_spoken_name name =
     truncate_text (join_with '' '' (split_whitespace
       (concat (map (\<lambda>ch. if ch = ''_'' \<or> ch = ''-'' \<or> is_control ch then '' '' else ch) (utf8_chars name))))) 60"

definition spoken_job_name :: "job_id \<Rightarrow> string \<Rightarrow> string" where
  "spoken_job_name i name =
     (let normalized = normalized_spoken_name name
      in if normalized = [] then ''job '' @ show_int i else ''job '' @ show_int i @ '', '' @ normalized)"

definition spoken_event_job :: "event_view \<Rightarrow> string" where
  "spoken_event_job e =
     (case (ev_job e, ev_job_name e) of
        (Some i, Some name) \<Rightarrow> spoken_job_name i name
      | (Some i, None) \<Rightarrow> ''job '' @ show_int i
      | (None, Some name) \<Rightarrow>
          (let name = normalized_spoken_name name in if name = [] then ''an unnamed job'' else name)
      | (None, None) \<Rightarrow> ''an unknown job'')"

text \<open>What an event says about its job, if it ends or interrupts a run.\<close>

definition spoken_outcome :: "event_view \<Rightarrow> string option" where
  "spoken_outcome e =
     (let name = spoken_event_job e; kind = ev_event_type e in
      if kind = ''job_succeeded'' then Some (name @ '' finished successfully'')
      else if kind = ''job_failed'' then Some (name @ '' failed'')
      else if kind = ''job_cancelled'' then Some (name @ '' was cancelled'')
      else if kind = ''job_lost'' then Some (name @ '' was lost'')
      else if kind = ''job_skipped'' then Some (name @ '' was skipped'')
      else if kind = ''retry_scheduled'' then
        Some (case ev_attempt_number e of
                Some n \<Rightarrow> ''Attempt '' @ show_int n @ '' for '' @ name @ '' failed and a retry is queued''
              | None \<Rightarrow> ''An attempt for '' @ name @ '' failed and a retry is queued'')
      else if kind = ''job_yielded'' then Some (name @ '' checkpointed and yielded its turn'')
      else if kind = ''attempt_orphaned'' \<or> kind = ''attempt_quarantined'' then Some (name @ '' needs operator attention'')
      else None)"

text \<open>The map of the started jobs is ordered by the number of the job, events without a job first.\<close>

fun job_key_less :: "job_id option \<Rightarrow> job_id option \<Rightarrow> bool" where
  "job_key_less None b \<longleftrightarrow> b \<noteq> None"
| "job_key_less (Some a) (Some b) \<longleftrightarrow> a < b"
| "job_key_less (Some a) None \<longleftrightarrow> False"

definition announce_event ::
  "event_view \<Rightarrow> string list \<times> (job_id option \<times> string) list \<Rightarrow> string list \<times> (job_id option \<times> string) list" where
  "announce_event e acc =
     (let (outcomes, started) = acc in
      case spoken_outcome e of
        Some s \<Rightarrow> (outcomes @ [s], filter (\<lambda>(j, _). j \<noteq> ev_job e) started)
      | None \<Rightarrow>
          if ev_event_type e = ''attempt_running''
          then (outcomes, btree_insert job_key_less (ev_job e) (spoken_event_job e) started) else acc)"

definition follow_tts_announcement :: "event_view list \<Rightarrow> string option" where
  "follow_tts_announcement evs =
     (let (outcomes, started) = fold announce_event evs ([], []) in
      if outcomes = [] \<and> started = [] then None
      else
        let omitted_outcomes = length outcomes - MAX_SPOKEN_OUTCOMES;
            omitted_starts = length started - MAX_SPOKEN_STARTS;
            sentences = take MAX_SPOKEN_OUTCOMES outcomes @
              (if omitted_outcomes > 0 then [show_nat omitted_outcomes @ '' more queue updates''] else []) @
              (if started = [] then []
               else [''Now running: '' @ join_with '', '' (take MAX_SPOKEN_STARTS (map snd started) @
                 (if omitted_starts > 0 then [show_nat omitted_starts @ '' more''] else []))])
        in Some (join_with ''. '' sentences @ ''.''))"

definition monitor_greeting :: "follow_tts_snapshot_view \<Rightarrow> string" where
  "monitor_greeting snapshot =
     (let running = map (\<lambda>j. spoken_job_name (fj_id j) (fj_name j)) (fv_running_jobs snapshot) @
        (if fv_additional_running_jobs snapshot > 0 then [show_nat (fv_additional_running_jobs snapshot) @ '' more''] else [])
      in if running = [] then ''Queue monitor started. No runs are currently active.''
         else ''Queue monitor started. Currently running: '' @ join_with '', '' running @ ''.'')"

definition tts_command :: "string option \<Rightarrow> string list" where
  "tts_command backend =
     [''tts'', ''speak'', ''--daemon''] @ (case backend of Some b \<Rightarrow> [''--backend'', b] | None \<Rightarrow> []) @
     [''--level'', ''status'', ''--text-stdin'']"

end
