(* ===== verification/Command_Properties.thy ===== *)
theory Command_Properties
  imports Display Client_Properties "HOL-Library.Sublist"
begin

text \<open>
  Properties of the commands: what a follower of a log prints, which events are announced, the
  environment that a submission sends, and which jobs the status shows.
\<close>

section \<open>Logs\<close>

text \<open>
  What an iteration may see of a log whose contents are \<open>F\<close> in the end: the file is only appended to, so
  what is read is the beginning of \<open>F\<close>, at least as long as the size that was read before it.
\<close>

definition sees :: "8 word list \<Rightarrow> log_poll \<Rightarrow> bool" where
  "sees F i \<longleftrightarrow>
     (\<forall>len contents. lgp_file i = Inr (Some (len, contents)) \<longrightarrow> len \<le> length contents \<and> prefix contents F) \<and>
     (\<forall>n. lgp_size_after i = Some n \<longrightarrow> n \<le> length F) \<and>
     (\<forall>v n. lgp_latest i = Inr v \<and> lv_term_signal v = Some n \<longrightarrow> 0 < n)"

definition delivered :: "8 word list \<Rightarrow> log_tail \<Rightarrow> bool" where
  "delivered F t \<longleftrightarrow> lt_offset t \<le> length F \<and> lt_out t = take (lt_offset t) F"

lemma copy_log_snapshot_delivers:
  assumes "len \<le> length contents" and "prefix contents F" and "off \<le> length F"
  shows "copy_log_snapshot len contents off (take off F) = (max off len, take (max off len) F)"
proof (cases "off < len")
  case True
  obtain zs where F: "F = contents @ zs" using assms(2) by (auto simp: prefix_def)
  have "take off F @ take (len - off) (drop off contents) = take len contents"
    using True assms(1) F take_add [of off "len - off" contents] by simp
  then show ?thesis using True assms(1) by (simp add: copy_log_snapshot_def Let_def F)
qed (simp add: copy_log_snapshot_def max_def)

lemma copy_log_delivers:
  assumes "delivered F t" and "sees F i" and "lgp_file i = Inr f"
  shows "delivered F (copy_log f t)"
proof (cases f)
  case (Some lc)
  obtain len contents where lc: "lc = (len, contents)" by (metis prod.exhaust)
  have *: "len \<le> length contents" "prefix contents F"
    using assms(2,3) by (auto simp: sees_def Some lc)
  then have "len \<le> length F" by (meson le_trans prefix_length_le)
  then show ?thesis
    using copy_log_snapshot_delivers [OF *, of "lt_offset t"] assms(1)
    by (auto simp: delivered_def copy_log_def Some lc)
qed (use assms in \<open>simp add: copy_log_def\<close>)

lemma delivered_notice [simp]:
  "delivered F (notice_recovery v s t) = delivered F t" "lt_offset (notice_recovery v s t) = lt_offset t"
  "delivered F (t\<lparr>lt_notices := ns\<rparr>) = delivered F t"
  by (auto simp: delivered_def notice_recovery_def)

definition log_end :: "log_poll \<Rightarrow> log_tail \<Rightarrow> int \<Rightarrow> bool" where
  "log_end i t code \<longleftrightarrow>
     (\<exists>v s. lgp_latest i = Inr v \<and> attempt_state_from_str (lv_attempt_state v) = Inr s \<and> attempt_state_is_terminal s \<and>
        (code = 0 \<longleftrightarrow> s = A_Succeeded) \<and> last (lt_notices t) = end_notice v) \<and>
     (\<forall>n. lgp_size_after i = Some n \<longrightarrow> n \<le> lt_offset t)"

lemma logs_loop_end:
  assumes "logs_loop True polls t = (Some (Inr code), t')" and "delivered F t" and "\<forall>i\<in>set polls. sees F i"
  shows "delivered F t' \<and> (\<exists>i\<in>set polls. log_end i t' code)"
  using assms
proof (induction polls arbitrary: t)
  case (Cons i rest)
  obtain f where f: "lgp_file i = Inr f" using Cons.prems(1) by (cases "lgp_file i") auto
  obtain v where v: "lgp_latest i = Inr v" using Cons.prems(1) f by (cases "lgp_latest i") auto
  define u where "u = notice_recovery v (attempt_state_of v) (copy_log f t)"
  have u: "delivered F u" unfolding u_def using copy_log_delivers [OF Cons.prems(2) _ f] Cons.prems(3) by simp
  show ?case
  proof (cases "logs_loop True rest u = (Some (Inr code), t')")
    case True
    then show ?thesis using Cons.IH [OF True u] Cons.prems(3) by auto
  next
    case False
    then obtain s where s: "attempt_state_of v = Some s" "attempt_state_is_terminal s"
        "\<forall>n. lgp_size_after i = Some n \<longrightarrow> n \<le> lt_offset u"
        "code = outcome_exit_code (s = A_Succeeded) (lv_exit_code v) (lv_term_signal v)"
        "t' = u\<lparr>lt_notices := lt_notices u @ [end_notice v]\<rparr>"
      using Cons.prems(1) f v by (auto simp: Let_def u_def split: option.splits if_splits)
    moreover have "attempt_state_from_str (lv_attempt_state v) = Inr s"
      using s(1) by (auto simp: attempt_state_of_def split: sum.splits)
    moreover have "code = 0 \<longleftrightarrow> s = A_Succeeded"
      using s(4) Cons.prems(3) v by (force simp: outcome_exit_code_def sees_def split: option.splits if_splits)
    ultimately have "log_end i t' code" unfolding log_end_def using v by auto
    then show ?thesis using u s(5) by auto
  qed
qed simp

text \<open>
  C37: following a log of an attempt. When the follower ends, the attempt is in a final state and the
  exit code is zero exactly if it succeeded; what was printed is the beginning of the file, without a byte
  missing or repeated, and all of it if the size that was read after the final state was that of the
  whole file.
\<close>

theorem logs_complete:
  assumes "\<forall>i\<in>set (polls path). sees F i"
    and "path = (if stderr then lv_stderr v else lv_stdout v)"
    and "logs True (Inr (R_LogPaths v)) polls stderr = (Some (Inr code), t)"
  shows "\<exists>i\<in>set (polls path). log_end i t code \<and> lt_out t = take (lt_offset t) F \<and>
    (lgp_size_after i = Some (length F) \<longrightarrow> lt_out t = F)"
proof -
  let ?start = "\<lparr>lt_offset = 0, lt_out = [], lt_notice_shown = False, lt_notices = []\<rparr>"
  have "logs_loop True (polls path) ?start = (Some (Inr code), t)"
    using assms(2,3) by (simp add: logs_def Let_def)
  then have "delivered F t \<and> (\<exists>i\<in>set (polls path). log_end i t code)"
    by (rule logs_loop_end) (use assms(1) in \<open>simp_all add: delivered_def\<close>)
  then show ?thesis by (auto simp: delivered_def log_end_def)
qed

definition sample_logs :: "string \<Rightarrow> log_paths_view" where
  "sample_logs state = \<lparr>lv_job = 1, lv_attempt = 1, lv_attempt_number = 1, lv_attempt_state = state, lv_exit_code = Some 0,
     lv_term_signal = None, lv_message = None, lv_stdout = ''out'', lv_stderr = ''err''\<rparr>"

definition sample_polls :: "log_poll list" where
  "sample_polls =
     [\<lparr>lgp_file = Inr (Some (1, [1, 2])), lgp_latest = Inr (sample_logs ''running''), lgp_size_after = Some 2\<rparr>,
      \<lparr>lgp_file = Inr (Some (3, [1, 2, 3])), lgp_latest = Inr (sample_logs ''succeeded''), lgp_size_after = Some 3\<rparr>]"

theorem logs_complete_witness:
  "lt_out (snd (logs True (Inr (R_LogPaths (sample_logs ''running''))) (\<lambda>_. sample_polls) False)) = [1, 2, 3]"
proof -
  obtain t where t: "logs True (Inr (R_LogPaths (sample_logs ''running''))) (\<lambda>_. sample_polls) False = (Some (Inr 0), t)"
    by (simp add: logs_def Let_def sample_polls_def sample_logs_def copy_log_def copy_log_snapshot_def
        attempt_state_of_def notice_recovery_def attempt_state_from_str_def outcome_exit_code_def)
  have "\<forall>i\<in>set sample_polls. sees [1, 2, 3] i"
    by (simp add: sample_polls_def sees_def sample_logs_def)
  from logs_complete [OF this refl t] obtain i where "i \<in> set sample_polls" "log_end i t 0"
      "lt_out t = take (lt_offset t) [1, 2, 3]" "lgp_size_after i = Some (length [1, 2, 3 :: 8 word]) \<longrightarrow> lt_out t = [1, 2, 3]"
    by blast
  then show ?thesis using t by (auto simp: sample_polls_def log_end_def sample_logs_def attempt_state_from_str_def)
qed

section \<open>Announced events\<close>

text \<open>
  An answer of the daemon: a failure on the way, an error of the daemon, or its reply. The log of
  the database grows between the answers.
\<close>

definition serves :: "services \<Rightarrow> (op \<Rightarrow> string + reply) \<Rightarrow> world \<times> coordinator \<Rightarrow> bool" where
  "serves svc ans wco \<longleftrightarrow>
     (\<forall>o' r. ans o' = Inr r \<longrightarrow> handle_read svc (fst wco) o' (snd wco) = Inr r)"

definition announced :: "database \<Rightarrow> int \<Rightarrow> int \<Rightarrow> event_view list \<Rightarrow> bool" where
  "announced db a c evs \<longleftrightarrow>
     a \<le> c \<and> (c = a \<or> c \<le> event_seq db) \<and> map ev_id evs = map e_id (log_slice (\<lambda>_. True) db a c)"

lemma announced_logged: "announced db a c evs \<Longrightarrow> logged db db' \<Longrightarrow> announced db' a c evs"
  by (auto simp: announced_def log_slice_logged) (auto simp: logged_def)

lemma announced_page:
  assumes "wf_log db" and "announced db a c evs"
    and "page = map event_view (events_after db c n)" and "c' = (if page = [] then c else ev_id (last page))"
  shows "announced db a c' (evs @ page)"
proof -
  let ?l = "log_after (\<lambda>_. True) db c"
  have ids: "map ev_id page = map e_id (take n ?l)"
    unfolding assms(3) by (simp add: events_after_def log_after_def event_view_def event_from_row_def comp_def)
  then have same: "page = [] \<longleftrightarrow> take n ?l = []" by (metis list.map_disc_iff)
  show ?thesis
  proof (cases "page = []")
    case False
    then have c': "c' = e_id (last (take n ?l))"
      using assms(4) ids same by (metis last_map)
    then have page: "log_slice (\<lambda>_. True) db c c' = take n ?l"
      using log_slice_prefix [OF assms(1), of "\<lambda>_. True" c "take n ?l" "drop n ?l"] False same by simp
    have "last (take n ?l) \<in> set ?l" using False same by (metis in_set_takeD last_in_set)
    then have "c < c'" "c' \<le> event_seq db" using assms(1) c' by (auto simp: log_after_def wf_log_def)
    then show ?thesis
      using assms(2) log_slice_extend [OF assms(1), of a c c' "\<lambda>_. True"] by (simp add: announced_def page ids)
  qed (use assms in simp)
qed

lemma log_chain_last: "log_chain db ds \<Longrightarrow> logged db (last (db # ds))"
proof (induction ds arbitrary: db)
  case (Cons d ds)
  then show ?case using logged_trans [of db d "last (d # ds)"] by simp
qed (simp add: logged_def)

lemma log_chain_append:
  "log_chain db (ds @ ds') \<longleftrightarrow> log_chain db ds \<and> log_chain (last (db # ds)) ds'"
  by (induction ds arbitrary: db) auto

lemma tts_pages_announced:
  assumes "list_all2 (serves svc) answers wcos" and "wf_log db" and "log_chain db (map (co_db \<circ> snd) wcos)"
    and "announced db a c evs" and "tts_pages answers c evs = Some (Inr (evs', c'))"
  shows "announced (last (db # map (co_db \<circ> snd) wcos)) a c' evs'"
  using assms
proof (induction answers wcos arbitrary: db c evs rule: list_all2_induct)
  case (Cons ans answers wco wcos)
  let ?db = "co_db (snd wco)"
  have wf: "wf_log ?db" and chain: "log_chain ?db (map (co_db \<circ> snd) wcos)" and got: "announced ?db a c evs"
    using Cons.prems wf_log_logged announced_logged by (auto simp: comp_def)
  obtain page where "ans (Events c TTS_PAGE_SIZE) = Inr (R_Events page)"
    using Cons.prems(4) by (auto split: sum.splits reply.splits)
  moreover from this have page: "page = map event_view (events_after ?db c TTS_PAGE_SIZE)"
    using Cons.hyps(1) by (force simp: serves_def handle_read_def Let_def bindE_eq_Inr)
  define d where "d = (if page = [] then c else ev_id (last page))"
  have step: "announced ?db a d (evs @ page)" by (rule announced_page [OF wf got page d_def])
  ultimately consider "tts_pages answers d (evs @ page) = Some (Inr (evs', c'))" | "evs' = evs @ page" "c' = d"
    using Cons.prems(4) by (auto simp: Let_def d_def split: if_splits)
  then show ?case
  proof cases
    case 1
    then show ?thesis using Cons.IH [OF wf chain step] by simp
  next
    case 2
    have "logged ?db (last (?db # map (co_db \<circ> snd) wcos))"
      using log_chain_last [OF chain] .
    from announced_logged [OF step this] 2 show ?thesis by (simp add: comp_def)
  qed
qed simp

text \<open>The coordinators that a round asks, one per answer.\<close>

lemma tts_round_announced:
  assumes "list_all2 (serves svc) first wcos" and "list_all2 (serves svc) second wcos'"
    and "wf_log db" and "log_chain db (map (co_db \<circ> snd) (wcos @ wcos'))"
    and "announced db a c evs" and "tts_round first second c = Some (batch, c')"
  shows "announced (last (db # map (co_db \<circ> snd) (wcos @ wcos'))) a c' (evs @ batch)"
proof -
  let ?d = "last (db # map (co_db \<circ> snd) wcos)" and ?d' = "last (db # map (co_db \<circ> snd) (wcos @ wcos'))"
  have chain: "log_chain db (map (co_db \<circ> snd) wcos)" "log_chain ?d (map (co_db \<circ> snd) wcos')"
    using assms(4) by (simp_all only: map_append log_chain_append)
  have wf: "wf_log ?d" by (rule wf_log_logged [OF assms(3) log_chain_last [OF chain(1)]])
  have d': "?d' = last (?d # map (co_db \<circ> snd) wcos')" by simp
  have later: "logged ?d ?d'" unfolding d' by (rule log_chain_last [OF chain(2)])
  have start: "announced db' x x []" for db' x by (simp add: announced_def)
  have join: "announced db' a y (xs @ ys)" if "wf_log db'" "announced db' a x xs" "announced db' x y ys" for db' x y xs ys
    using that log_slice_extend [OF that(1), of a x y "\<lambda>_. True"] by (auto simp: announced_def)
  have wf': "wf_log ?d'" by (rule wf_log_logged [OF wf later])
  have old: "announced ?d' a c evs"
    by (rule announced_logged [OF assms(5) log_chain_last [OF assms(4)]])
  consider "batch = []" "c' = c"
    | x ys where "follow_tts_events first c = Some (Inr (ys, x))" "batch = ys" "c' = x"
    | x ys zs where "follow_tts_events first c = Some (Inr (ys, x))" "follow_tts_events second x = Some (Inr (zs, c'))"
      "batch = ys @ zs"
    using assms(6) by (auto simp: tts_round_def split: option.splits sum.splits if_splits)
  then show ?thesis
  proof cases
    case 1
    then show ?thesis using old by simp
  next
    case 2
    have "announced ?d c x ys"
      using tts_pages_announced [OF assms(1,3) chain(1) start] 2 by (simp add: follow_tts_events_def)
    then show ?thesis using join [OF wf' old announced_logged [OF _ later]] 2 by simp
  next
    case 3
    have 1: "announced ?d c x ys"
      using tts_pages_announced [OF assms(1,3) chain(1) start] 3 by (simp add: follow_tts_events_def)
    have 2: "announced ?d' x c' zs"
      unfolding d' using tts_pages_announced [OF assms(2) wf chain(2) start] 3 by (simp add: follow_tts_events_def)
    show ?thesis using join [OF wf' join [OF wf' old announced_logged [OF 1 later]] 2] 3 by simp
  qed
qed

definition round_served :: "services \<Rightarrow> (op \<Rightarrow> string + reply) list \<times> (op \<Rightarrow> string + reply) list \<Rightarrow>
    (world \<times> coordinator) list \<times> (world \<times> coordinator) list \<Rightarrow> bool" where
  "round_served svc rnd wcos \<longleftrightarrow>
     list_all2 (serves svc) (fst rnd) (fst wcos) \<and> list_all2 (serves svc) (snd rnd) (snd wcos)"

definition served_dbs :: "((world \<times> coordinator) list \<times> (world \<times> coordinator) list) list \<Rightarrow> database list" where
  "served_dbs wcoss = concat (map (\<lambda>(ws, ws'). map (co_db \<circ> snd) (ws @ ws')) wcoss)"

text \<open>
  C36: the announcements say every event once. However the log of events grows, whichever requests fail and
  whatever pages arrive before a failure, the batches that the follower announces are the events of the
  log behind its first cursor, in order, none missing and none twice, up to its last cursor.
\<close>

theorem tts_exactly_once:
  assumes "list_all2 (round_served svc) rounds wcoss" and "wf_log db" and "log_chain db (served_dbs wcoss)"
    and "tts_rounds rounds a = Some (batches, c)" and "db' = last (db # served_dbs wcoss)"
  shows "a \<le> c \<and> map ev_id (concat batches) = map e_id (log_slice (\<lambda>_. True) db' a c)"
proof -
  have "announced db' a c (evs @ concat batches)"
    if "announced db a b evs" "tts_rounds rounds b = Some (batches, c)" for b evs
    using assms(1-3,5) that
  proof (induction rounds wcoss arbitrary: db b evs batches rule: list_all2_induct)
    case (Cons rnd rounds wcos wcoss)
    obtain first second ws ws' where *: "rnd = (first, second)" "wcos = (ws, ws')" by (metis prod.exhaust)
    obtain batch x rest where r: "tts_round first second b = Some (batch, x)" "tts_rounds rounds x = Some (rest, c)"
        "batches = batch # rest"
      using Cons.prems(5) * by (auto simp: bind_eq_Some_conv)
    let ?d = "last (db # map (co_db \<circ> snd) (ws @ ws'))"
    have dbs: "served_dbs (wcos # wcoss) = map (co_db \<circ> snd) (ws @ ws') @ served_dbs wcoss"
      by (simp add: served_dbs_def *)
    have chain: "log_chain db (map (co_db \<circ> snd) (ws @ ws'))" "log_chain ?d (served_dbs wcoss)"
      using Cons.prems(2) unfolding dbs log_chain_append by simp_all
    have "list_all2 (serves svc) first ws" "list_all2 (serves svc) second ws'"
      using Cons.hyps(1) * by (simp_all add: round_served_def)
    then have "announced ?d a x (evs @ batch)"
      by (rule tts_round_announced [OF _ _ Cons.prems(1) chain(1) Cons.prems(4) r(1)])
    moreover have "wf_log ?d" by (rule wf_log_logged [OF Cons.prems(1) log_chain_last [OF chain(1)]])
    moreover have "db' = last (?d # served_dbs wcoss)" using Cons.prems(3) unfolding dbs by simp
    ultimately show ?case using Cons.IH [OF _ chain(2) _ _ r(2), of "evs @ batch"] r(3) by simp
  qed (simp add: served_dbs_def)
  from this [of a "[]"] assms(4) show ?thesis by (simp add: announced_def)
qed

definition sample_answering :: "op \<Rightarrow> string + reply" where
  "sample_answering o' =
     (case handle_read sample_services sample_world o' event_coordinator of Inr r \<Rightarrow> Inr r | Inl e \<Rightarrow> Inl (eb_message e))"

theorem tts_exactly_once_witness:
  "\<exists>batches c. concat batches \<noteq> ([] :: event_view list) \<and>
     map ev_id (concat batches) = map e_id (log_slice (\<lambda>_. True) (co_db event_coordinator) 0 c)"
proof -
  let ?rounds = "[([sample_answering], [\<lambda>_. Inl ''lost''])]"
  let ?wcoss = "[([(sample_world, event_coordinator)], [(sample_world, event_coordinator)])]"
  obtain batches c where r: "tts_rounds ?rounds 0 = Some (batches, c)" "concat batches \<noteq> []"
    by (simp add: tts_round_def follow_tts_events_def sample_answering_def handle_read_def Let_def TTS_PAGE_SIZE_def
        events_after_def event_coordinator_def append_event_def sample_defs)
  have served: "list_all2 (round_served sample_services) ?rounds ?wcoss"
    by (simp add: round_served_def serves_def sample_answering_def split: sum.splits)
  have wf: "wf_log sample_db" by (simp add: wf_log_def sample_defs)
  have "audited sample_db (co_db event_coordinator)"
    unfolding event_coordinator_def by (simp add: audited_event audited_refl)
  then have chain: "log_chain sample_db (served_dbs ?wcoss)"
    by (simp add: served_dbs_def audited_def) (simp add: logged_def)
  from tts_exactly_once [OF served wf chain r(1) refl] r(2) show ?thesis
    by (intro exI [of _ batches] exI [of _ c]) (simp add: served_dbs_def)
qed

section \<open>The environment of a submission\<close>

text \<open>The value that the last \<^verbatim>\<open>--env\<close> entry of a name gives it.\<close>

definition explicit_value :: "string list \<Rightarrow> string \<Rightarrow> string option" where
  "explicit_value entries name = map_of (rev (map (the \<circ> split_once (CHR ''='')) entries)) name"

lemma split_once_None: "split_once sep s = None \<longleftrightarrow> sep \<notin> set s"
  by (induction s) auto

lemma baseline_env_lookup:
  "map_of (baseline_env pe) name = (if name \<in> set BASELINE_ENV then pe_var pe name else None)"
proof -
  have "map_of (fold (\<lambda>n env. case pe_var pe n of Some v \<Rightarrow> btree_insert str_less n v env | None \<Rightarrow> env) names env) name =
      (if name \<in> set names \<and> pe_var pe name \<noteq> None then pe_var pe name else map_of env name)" for names env
  proof (induction names arbitrary: env)
    case (Cons n names)
    then show ?case by (cases "pe_var pe n") (auto simp: map_of_btree_insert)
  qed simp
  from this [of BASELINE_ENV "[]"] show ?thesis by (auto simp: baseline_env_def)
qed

lemma inherit_env_eqs [simp]:
  "pe_var pe n = Some v \<Longrightarrow> inherit_env pe n env = Inr (btree_insert str_less n v env)"
  "inherit_env pe n env = Inr env' \<longleftrightarrow> (\<exists>v. pe_var pe n = Some v \<and> env' = btree_insert str_less n v env)"
  by (auto simp: inherit_env_def ok_or_def split: option.splits)

lemma explicit_env_eqs [simp]:
  "split_once (CHR ''='') e = Some (n, v) \<Longrightarrow> explicit_env e env = Inr (btree_insert str_less n v env)"
  "explicit_env e env = Inr env' \<longleftrightarrow>
     (\<exists>n v. split_once (CHR ''='') e = Some (n, v) \<and> env' = btree_insert str_less n v env)"
  by (auto simp: explicit_env_def ok_or_def split: option.splits)

lemma inherit_env_lookup:
  assumes "foldE (inherit_env pe) names env = Inr env'"
  shows "map_of env' name = (if name \<in> set names then pe_var pe name else map_of env name)"
  using assms
proof (induction names arbitrary: env)
  case (Cons n names)
  then obtain v where v: "pe_var pe n = Some v" "foldE (inherit_env pe) names (btree_insert str_less n v env) = Inr env'"
    by (auto simp: bindE_eq_Inr)
  from Cons.IH [OF v(2)] v(1) show ?case by (auto simp: map_of_btree_insert)
qed simp

lemma explicit_env_lookup:
  assumes "foldE explicit_env entries env = Inr env'"
  shows "map_of env' name = (case explicit_value entries name of Some v \<Rightarrow> Some v | None \<Rightarrow> map_of env name)"
  using assms
proof (induction entries arbitrary: env)
  case (Cons e entries)
  then obtain n v where nv: "split_once (CHR ''='') e = Some (n, v)"
      "foldE explicit_env entries (btree_insert str_less n v env) = Inr env'"
    by (auto simp: bindE_eq_Inr)
  from Cons.IH [OF nv(2)] nv(1) show ?case
    by (auto simp: map_of_btree_insert explicit_value_def map_add_def split: option.splits)
qed (simp add: explicit_value_def)


lemma inherit_env_total:
  "(\<exists>env'. foldE (inherit_env pe) names env = Inr env') \<longleftrightarrow> (\<forall>n\<in>set names. pe_var pe n \<noteq> None)"
proof (induction names arbitrary: env)
  case (Cons n names)
  then show ?case by (cases "pe_var pe n") (auto simp: bindE_eq_Inr)
qed simp

lemma explicit_env_total:
  "(\<exists>env'. foldE explicit_env entries env = Inr env') \<longleftrightarrow> (\<forall>e\<in>set entries. CHR ''='' \<in> set e)"
proof (induction entries arbitrary: env)
  case (Cons e entries)
  have "CHR ''='' \<in> set e \<longleftrightarrow> (\<exists>n v. split_once (CHR ''='') e = Some (n, v))"
    using split_once_None [of "CHR ''=''" e] by (cases "split_once (CHR ''='') e") auto
  then show ?case using Cons.IH by (auto simp: bindE_eq_Inr)
qed simp


definition sample_submit :: submit_args where
  "sample_submit = \<lparr>sa_name = None, sa_cwd = None, sa_max_parallel_runs = 1, sa_priority = 0, sa_max_attempts = 1,
     sa_retry_delay = None, sa_time_limit = None, sa_yield_signal = None, sa_yield_exit_code = None,
     sa_after_success = [], sa_after_terminal = [], sa_env = [''A=1'', ''A=2=3''], sa_inherit_env = [''B''], sa_json = False,
     sa_command = [''train'']\<rparr>"

definition sample_process :: process_env where
  "sample_process = \<lparr>pe_var = (\<lambda>name. if name \<in> {''A'', ''B'', ''C''} then Some ''x'' else None),
     pe_current_dir = Inr ''/'', pe_canonicalize = Inr\<rparr>"


section \<open>The jobs that the status shows\<close>

lemma lex_less_trans: "lex_less xs ys \<Longrightarrow> lex_less ys zs \<Longrightarrow> lex_less xs zs"
proof (induction xs ys arbitrary: zs rule: lex_less.induct)
  case (1 x xs y ys)
  then show ?case by (cases zs) auto
next
  case (2 ys)
  then show ?case by (cases ys; cases zs) auto
qed simp

lemma lex_less_total: "length xs = length ys \<Longrightarrow> xs \<noteq> ys \<Longrightarrow> lex_less xs ys \<or> lex_less ys xs"
  by (induction xs ys rule: lex_less.induct) auto

lemma sort_by_key_sorted:
  assumes "distinct (map f xs)" and "\<And>x y. key x = key y \<Longrightarrow> f x = f y" and "\<And>x y. length (key x) = length (key y)"
  shows "sorted_wrt (\<lambda>a b. lex_less (key a) (key b)) (sort_by_key key xs)"
  unfolding sort_by_key_def
proof (rule sorted_order_by)
  show "transp (\<lambda>a b. lex_less (key a) (key b))" by (rule transpI) (rule lex_less_trans)
  show "distinct xs" using assms(1) by (simp add: distinct_map)
  show "lex_less (key x) (key y) \<or> lex_less (key y) (key x)" if "x \<in> set xs" "y \<in> set xs" "x \<noteq> y" for x y
    using lex_less_total [OF assms(3), of x y] assms(1,2) that by (metis inj_onD distinct_map)
qed

lemma length_sort_by_key: "length (sort_by_key key xs) = length xs"
proof -
  have "length (insert_by b x ys) = Suc (length ys)" for b x and ys :: "'a list" by (induction ys) auto
  then show ?thesis unfolding sort_by_key_def by (induction xs) auto
qed

text \<open>The beginning of a sorted list: the rest comes behind it.\<close>

lemma shown_first:
  assumes "sorted_wrt r xs" and "x \<in> set xs"
  shows "x \<in> set (take n xs) \<or> (\<forall>y\<in>set (take n xs). r y x)"
proof -
  have "x \<in> set (take n xs) \<or> x \<in> set (drop n xs)" using assms(2) by (metis Un_iff append_take_drop_id set_append)
  moreover have "sorted_wrt r (take n xs @ drop n xs)" using assms(1) by simp
  ultimately show ?thesis unfolding sorted_wrt_append by blast
qed

definition shown_candidate :: "job_view \<Rightarrow> int \<Rightarrow> candidate" where
  "shown_candidate v seq =
     \<lparr>cand_job = jv_id v, cand_ready_seq = seq, cand_limit = jv_max_parallel_runs v, cand_priority = jv_priority v\<rparr>"

text \<open>Jobs with a readiness number come first, by the order of the candidates of a scheduling pass.\<close>

definition queue_before :: "job_view \<Rightarrow> job_view \<Rightarrow> bool" where
  "queue_before a b \<longleftrightarrow>
     (case (jv_ready_sequence a, jv_ready_sequence b) of
        (Some s, Some t) \<Rightarrow> s \<noteq> t \<longrightarrow> candidate_before (shown_candidate a s) (shown_candidate b t)
      | (Some s, None) \<Rightarrow> True
      | (None, Some t) \<Rightarrow> False
      | (None, None) \<Rightarrow> jv_priority b \<le> jv_priority a)"

lemma queue_key_before: "lex_less (queue_key a) (queue_key b) \<Longrightarrow> queue_before a b"
  by (auto simp: queue_key_def queue_before_def candidate_before_def shown_candidate_def split: option.splits)


definition sample_shown :: "job_id \<Rightarrow> int \<Rightarrow> job_view" where
  "sample_shown i priority = \<lparr>jv_id = i, jv_name = ''n'', jv_state = ''queued'', jv_eligibility = None, jv_state_reason = None,
     jv_max_parallel_runs = 1, jv_priority = priority, jv_cwd = ''/'', jv_context = None, jv_args = [''a''],
     jv_max_attempts = 1, jv_retry_delay_ms = 0, jv_time_limit_ms = None, jv_retry_not_before = None,
     jv_ready_sequence = Some i, jv_attempt_count = 0, jv_created_at = 0, jv_updated_at = 0, jv_finished_at = None,
     jv_dependencies = [], jv_attempts = [], jv_cancel_requested = None, jv_yield_policy = None, jv_yield_count = 0,
     jv_yield_request = None\<rparr>"

definition sample_status :: status_view where
  "sample_status = \<lparr>sv_jobs = [sample_shown 1 0, sample_shown 2 5], sv_active_leases = 0, sv_effective_limit = None,
     sv_reservation = None, sv_admission_blocked = False, sv_paused = False\<rparr>"


end
