(* ===== verification/Server.thy ===== *)
theory Server
  imports Daemon_Shell "HOL-Library.Sublist"
begin

text \<open>
  Model of what surrounds the coordinator in \<^verbatim>\<open>src/src/daemon/mod.rs\<close>: the start of the daemon
  under its singleton lock, with several processes starting, serving and crashing at the same time; the loop
  that accepts connections, with its permits and the bounded channel to the coordinator; and the
  private directories of \<^verbatim>\<open>src/src/paths.rs\<close>. Both loops are step relations over what one event
  does, as the processes and tasks interleave.
\<close>

unbundle bit_operations_syntax

section \<open>Private directories\<close>

text \<open>Entries are found by the components of their absolute path; modes are permission bits.\<close>

datatype dir_entry = NoEntry | NotDirectory | DirectoryMode "32 word"

type_synonym dir_tree = "string list \<Rightarrow> dir_entry"

record dir_faults =
  df_create :: "string \<Rightarrow> bool"
  df_inspect :: "string \<Rightarrow> bool"
  df_tighten :: "string \<Rightarrow> bool"

text \<open>\<open>DirBuilder\<close> with \<open>recursive\<close> and mode 0700: the missing ancestors are created the same way.\<close>

definition make_dirs :: "32 word \<Rightarrow> string list \<Rightarrow> dir_tree \<Rightarrow> dir_tree" where
  "make_dirs umask parts fs =
     (\<lambda>p. if fs p = NoEntry \<and> prefix p parts then DirectoryMode (0x1C0 AND NOT umask) else fs p)"

definition ensure_private_dir :: "32 word \<Rightarrow> dir_faults \<Rightarrow> string \<Rightarrow> dir_tree \<Rightarrow> string + dir_tree" where
  "ensure_private_dir umask faults dir fs =
     (let parts = path_components dir in
      bindE (if fs parts \<noteq> NoEntry then Inr fs
             else if df_create faults dir \<or> list_ex (\<lambda>p. fs p = NotDirectory) (prefixes parts) then Inl (''creating '' @ dir)
             else Inr (make_dirs umask parts fs)) (\<lambda>fs.
      bindE (ensure (\<not> df_inspect faults dir) (''inspecting '' @ dir)) (\<lambda>_.
        case fs parts of
          DirectoryMode m \<Rightarrow>
            (let mode = m AND 0x1FF in
             if mode AND 0x3F = 0 then Inr fs
             else if df_tighten faults dir then Inl (''tightening permissions on '' @ dir)
             else Inr (fs(parts := DirectoryMode 0x1C0)))
        | _ \<Rightarrow> Inl (dir @ '' exists but is not a directory''))))"

definition ensure_dirs :: "32 word \<Rightarrow> dir_faults \<Rightarrow> paths \<Rightarrow> dir_tree \<Rightarrow> string + dir_tree" where
  "ensure_dirs umask faults p fs =
     foldE (ensure_private_dir umask faults) [p_runtime_dir p, p_state_dir p, attempts_dir p] fs"

definition private_dir :: "dir_tree \<Rightarrow> string \<Rightarrow> bool" where
  "private_dir fs dir \<longleftrightarrow> (\<exists>m. fs (path_components dir) = DirectoryMode m \<and> m AND 0x3F = 0)"

text \<open>A step makes its directory private, keeps what is private, and touches no other entry that existed.\<close>

lemma mode_bits [simp]: "(m AND 0x1FF) AND 0x3F = m AND (0x3F :: 32 word)"
  by (simp add: and.assoc)

lemma ensure_private_dir_step:
  assumes "ensure_private_dir umask faults dir fs = Inr fs'"
  shows "private_dir fs' dir" and "private_dir fs d \<Longrightarrow> private_dir fs' d"
    and "fs p \<noteq> NoEntry \<Longrightarrow> p \<noteq> path_components dir \<Longrightarrow> fs' p = fs p"
proof -
  let ?parts = "path_components dir"
  obtain fs1 m where m: "fs1 ?parts = DirectoryMode m"
    "fs1 = fs \<or> fs ?parts = NoEntry \<and> fs1 = make_dirs umask ?parts fs"
    "fs' = (if m AND 0x3F = 0 then fs1 else fs1(?parts := DirectoryMode 0x1C0))"
    using assms by (auto simp: ensure_private_dir_def Let_def result_eqs split: if_splits dir_entry.splits)
  have old: "fs1 p = fs p" if "fs p \<noteq> NoEntry" for p using m(2) that by (auto simp: make_dirs_def)
  show "private_dir fs' dir" using m(1,3) by (auto simp: private_dir_def)
  then show "private_dir fs' d" if "private_dir fs d"
    using that old m(3) by (cases "path_components d = ?parts") (auto simp: private_dir_def)
  show "fs p \<noteq> NoEntry \<Longrightarrow> p \<noteq> ?parts \<Longrightarrow> fs' p = fs p" using old m(3) by auto
qed

text \<open>
  After the directories are ensured, the runtime, state and attempt directories exist and give nothing to
  the group or to others, whatever was there before; every other entry that existed is as it was.
\<close>

theorem directories_private:
  assumes "ensure_dirs umask faults p fs = Inr fs'"
  shows "private_dir fs' (p_runtime_dir p) \<and> private_dir fs' (p_state_dir p) \<and> private_dir fs' (attempts_dir p) \<and>
    (\<forall>q. fs q \<noteq> NoEntry \<and> q \<notin> path_components ` {p_runtime_dir p, p_state_dir p, attempts_dir p} \<longrightarrow> fs' q = fs q)"
proof -
  obtain fs1 fs2 where s: "ensure_private_dir umask faults (p_runtime_dir p) fs = Inr fs1"
    "ensure_private_dir umask faults (p_state_dir p) fs1 = Inr fs2"
    "ensure_private_dir umask faults (attempts_dir p) fs2 = Inr fs'"
    using assms by (auto simp: ensure_dirs_def bindE_eq_Inr)
  note steps = s [THEN ensure_private_dir_step(1)] s [THEN ensure_private_dir_step(2)]
  have "fs' q = fs q" if "fs q \<noteq> NoEntry" "q \<notin> path_components ` {p_runtime_dir p, p_state_dir p, attempts_dir p}" for q
    using that s [THEN ensure_private_dir_step(3), of q] by auto
  then show ?thesis using steps by blast
qed

definition sample_tree :: dir_tree where
  "sample_tree = (\<lambda>p. if p = [''run''] then DirectoryMode 0x1ED else if p = [''state''] then DirectoryMode 0x1C0 else NoEntry)"

theorem directories_private_witness:
  "\<exists>fs'. ensure_dirs 0x3F \<lparr>df_create = (\<lambda>_. False), df_inspect = (\<lambda>_. False), df_tighten = (\<lambda>_. False)\<rparr>
     \<lparr>p_runtime_dir = ''/run/q'', p_state_dir = ''/state'', p_config_file = ''/c''\<rparr> sample_tree = Inr fs' \<and>
     fs' [''run''] = DirectoryMode 0x1ED \<and> private_dir fs' ''/run/q''"
proof -
  let ?faults = "\<lparr>df_create = (\<lambda>_. False), df_inspect = (\<lambda>_. False), df_tighten = (\<lambda>_. False)\<rparr>"
  let ?p = "\<lparr>p_runtime_dir = ''/run/q'', p_state_dir = ''/state'', p_config_file = ''/c''\<rparr>"
  have parts: "path_components ''/run/q'' = [''run'', ''q'']" "path_components ''/state'' = [''state'']"
    "path_components (attempts_dir ?p) = [''state'', ''attempts'']"
    by (simp_all add: path_components_def attempts_dir_def path_join_def)
  obtain fs' where run: "ensure_dirs 0x3F ?faults ?p sample_tree = Inr fs'"
    by (simp add: ensure_dirs_def ensure_private_dir_def parts Let_def sample_tree_def make_dirs_def)
  from directories_private [OF run]
  have "private_dir fs' ''/run/q''" "fs' [''run''] = sample_tree [''run'']"
    by (simp_all add: parts sample_tree_def)
  then show ?thesis using run by (simp add: sample_tree_def)
qed

section \<open>The singleton\<close>

text \<open>
  How far a process is: before the lock, with it, with the database open, with the stale socket
  removed, serving, draining the coordinator after a signal, with its socket removed, and ended.
\<close>

datatype start_phase = Loading | Locked | Opened | Unlinked | Serving | Draining | Closing | Ended

text \<open>The holder of the lock, and the process whose listener the socket file is (a stale one's included).\<close>

record machine =
  m_lock :: "nat option"
  m_phase :: "nat \<Rightarrow> start_phase"
  m_socket :: "nat option"

definition enter :: "start_phase \<Rightarrow> nat \<Rightarrow> machine \<Rightarrow> machine" where
  "enter ph i m = m\<lparr>m_phase := (m_phase m)(i := ph)\<rparr>"

text \<open>Any return of \<open>run\<close> and any death of the process closes the lock file.\<close>

definition end_process :: "nat \<Rightarrow> machine \<Rightarrow> machine" where
  "end_process i m = (enter Ended i m)\<lparr>m_lock := (if m_lock m = Some i then None else m_lock m)\<rparr>"

datatype start_event = TryLock | OpenDatabase | RemoveSocket | BindSocket | StopServing | UnlinkSocket | CloseLock | Fail

fun start_event_step :: "start_event \<Rightarrow> nat \<Rightarrow> machine \<Rightarrow> machine option" where
  "start_event_step TryLock i m =
     (if m_phase m i \<noteq> Loading then None
      else if m_lock m = None then Some ((enter Locked i m)\<lparr>m_lock := Some i\<rparr>)
      else Some (end_process i m))"
| "start_event_step OpenDatabase i m = (if m_phase m i = Locked then Some (enter Opened i m) else None)"
| "start_event_step RemoveSocket i m =
     (if m_phase m i = Opened then Some ((enter Unlinked i m)\<lparr>m_socket := None\<rparr>) else None)"
| "start_event_step BindSocket i m =
     (if m_phase m i \<noteq> Unlinked then None
      else if m_socket m = None then Some ((enter Serving i m)\<lparr>m_socket := Some i\<rparr>)
      else Some (end_process i m))"
| "start_event_step StopServing i m = (if m_phase m i = Serving then Some (enter Draining i m) else None)"
| "start_event_step UnlinkSocket i m =
     (if m_phase m i = Draining then Some ((enter Closing i m)\<lparr>m_socket := None\<rparr>) else None)"
| "start_event_step CloseLock i m = (if m_phase m i = Closing then Some (end_process i m) else None)"
| "start_event_step Fail i m = (if m_phase m i = Ended then None else Some (end_process i m))"

inductive machine_step :: "machine \<Rightarrow> machine \<Rightarrow> bool" where
  machine_event: "start_event_step ev i m = Some m' \<Longrightarrow> machine_step m m'"

inductive_cases machine_stepE: "machine_step m m'"

definition holds_lock :: "start_phase \<Rightarrow> bool" where
  "holds_lock ph \<longleftrightarrow> ph \<in> {Locked, Opened, Unlinked, Serving, Draining, Closing}"

definition machine_inv :: "machine \<Rightarrow> bool" where
  "machine_inv m \<longleftrightarrow>
     (case m_lock m of
        None \<Rightarrow> \<forall>j. m_phase m j \<in> {Loading, Ended}
      | Some i \<Rightarrow> holds_lock (m_phase m i) \<and> (\<forall>j. j \<noteq> i \<longrightarrow> m_phase m j \<in> {Loading, Ended}) \<and>
          (m_phase m i \<in> {Serving, Draining} \<longrightarrow> m_socket m = Some i) \<and>
          (m_phase m i = Unlinked \<longrightarrow> m_socket m = None))"

lemmas machine_defs = machine_inv_def holds_lock_def enter_def end_process_def

lemma machine_inv_event:
  assumes "start_event_step ev i m = Some m'" and "machine_inv m"
  shows "machine_inv m'"
proof (cases "m_lock m")
  case None
  then have "m_phase m i = Loading \<or> m_phase m i = Ended" using assms(2) by (simp add: machine_inv_def)
  then show ?thesis using assms None by (elim disjE; cases ev) (auto simp: machine_defs split: if_splits)
next
  case (Some h)
  then have other: "m_phase m j \<in> {Loading, Ended}" if "j \<noteq> h" for j using assms(2) that by (simp add: machine_inv_def)
  show ?thesis
  proof (cases "i = h")
    case True
    then show ?thesis using assms Some other by (cases ev) (auto simp: machine_defs split: if_splits)
  next
    case False
    then show ?thesis using assms Some other [OF False] by (cases ev) (auto simp: machine_defs split: if_splits)
  qed
qed

interpretation machine_system: transition_system machine_step machine_inv
  by unfold_locales (elim machine_stepE, rule machine_inv_event)

definition machine_start :: "nat option \<Rightarrow> machine" where
  "machine_start stale = \<lparr>m_lock = None, m_phase = (\<lambda>_. Loading), m_socket = stale\<rparr>"

lemma machine_inv_start: "machine_inv (machine_start stale)"
  by (simp add: machine_start_def machine_defs)

text \<open>
  C16: one daemon at a time. However many processes start, fail and stop at any point, at most one
  of them is past the lock, so at most one has the database open; a daemon that serves or drains owns the socket,
  which no other process has removed or replaced; and a daemon that removed a stale socket can always bind.
\<close>

theorem single_daemon:
  assumes "machine_step\<^sup>*\<^sup>* (machine_start stale) m"
  shows "(\<forall>i j. holds_lock (m_phase m i) \<and> holds_lock (m_phase m j) \<longrightarrow> i = j) \<and>
    (\<forall>i. m_phase m i \<in> {Serving, Draining} \<longrightarrow> m_socket m = Some i) \<and>
    (\<forall>i. m_phase m i = Unlinked \<longrightarrow> (\<exists>m'. start_event_step BindSocket i m = Some m' \<and> m_phase m' i = Serving))"
proof -
  have "machine_inv m" by (rule machine_system.inv_steps [OF assms machine_inv_start])
  then have lock: "m_lock m = Some i" if "holds_lock (m_phase m i)" for i
  proof (cases "m_lock m")
    case (Some h)
    have "i \<noteq> h \<Longrightarrow> m_phase m i \<in> {Loading, Ended}" using \<open>machine_inv m\<close> Some by (simp add: machine_inv_def)
    then show ?thesis using that Some by (cases "i = h") (auto simp: holds_lock_def)
  next
    case None
    then have "m_phase m i \<in> {Loading, Ended}" using \<open>machine_inv m\<close> by (simp add: machine_inv_def)
    then show ?thesis using that by (auto simp: holds_lock_def)
  qed
  have "m_phase m i \<in> {Serving, Draining} \<longrightarrow> m_socket m = Some i" "m_phase m i = Unlinked \<longrightarrow> m_socket m = None" for i
    using lock [of i] \<open>machine_inv m\<close> by (auto simp: machine_inv_def holds_lock_def)
  moreover have "i = j" if "holds_lock (m_phase m i)" "holds_lock (m_phase m j)" for i j
    using lock [OF that(1)] lock [OF that(2)] by simp
  ultimately show ?thesis by (auto simp: enter_def)
qed

theorem single_daemon_witness:
  "\<exists>m. machine_step\<^sup>*\<^sup>* (machine_start (Some 3)) m \<and> m_phase m 7 = Serving \<and> m_socket m = Some 7"
proof -
  define m1 where "m1 = the (start_event_step TryLock 7 (machine_start (Some 3)))"
  define m2 where "m2 = the (start_event_step OpenDatabase 7 m1)"
  define m3 where "m3 = the (start_event_step RemoveSocket 7 m2)"
  define m4 where "m4 = the (start_event_step BindSocket 7 m3)"
  note defs = m4_def m3_def m2_def m1_def machine_start_def enter_def
  have "machine_step (machine_start (Some 3)) m1" "machine_step m1 m2" "machine_step m2 m3" "machine_step m3 m4"
    by (rule machine_event [of TryLock 7] machine_event [of OpenDatabase 7] machine_event [of RemoveSocket 7]
        machine_event [of BindSocket 7], simp add: defs)+
  then have run: "machine_step\<^sup>*\<^sup>* (machine_start (Some 3)) m4"
    by (meson converse_rtranclp_into_rtranclp rtranclp.rtrancl_refl)
  from single_daemon [OF run] have "m_phase m4 7 \<in> {Serving, Draining} \<longrightarrow> m_socket m4 = Some 7" by blast
  moreover have "m_phase m4 7 = Serving" by (simp add: defs)
  ultimately show ?thesis using run by (intro exI [of _ m4]) simp
qed

section \<open>Connections\<close>

datatype conn_kind = Exchange | Streaming

record server =
  srv_conns :: "(nat \<times> conn_kind) list"
  srv_queue :: "msg list"
  srv_accepting :: bool
  srv_shutdown_sent :: bool
  srv_running :: bool

definition CHANNEL_SIZE :: nat where
  "CHANNEL_SIZE = 1024"

definition streams :: "server \<Rightarrow> nat" where
  "streams s = length (filter (\<lambda>(_, k). k = Streaming) (srv_conns s))"

text \<open>A permit of each kind is held by its connection until the connection ends.\<close>

definition accept_connection :: "config \<Rightarrow> nat \<Rightarrow> server \<Rightarrow> server" where
  "accept_connection cfg c s =
     (if length (srv_conns s) < cfg_max_connections cfg then s\<lparr>srv_conns := (c, Exchange) # srv_conns s\<rparr> else s)"

definition open_stream :: "config \<Rightarrow> nat \<Rightarrow> server \<Rightarrow> server" where
  "open_stream cfg c s =
     (if streams s < max_subscriptions cfg
      then s\<lparr>srv_conns := map (\<lambda>(d, k). if d = c then (d, Streaming) else (d, k)) (srv_conns s)\<rparr> else s)"

text \<open>\<open>send\<close> waits for room in the channel, so it has no step while there is none; \<open>try_send\<close> of the timer drops its tick.\<close>

definition send_msg :: "msg \<Rightarrow> server \<Rightarrow> server option" where
  "send_msg msg s =
     (if srv_running s \<and> length (srv_queue s) < CHANNEL_SIZE then Some (s\<lparr>srv_queue := srv_queue s @ [msg]\<rparr>) else None)"

definition timer_tick :: "server \<Rightarrow> server" where
  "timer_tick s = (case send_msg Tick s of Some s \<Rightarrow> s | None \<Rightarrow> s)"

text \<open>The coordinator takes the next message; the shutdown ends it and closes the channel.\<close>

definition receive_msg :: "server \<Rightarrow> server option" where
  "receive_msg s =
     (case srv_queue s of
        [] \<Rightarrow> None
      | Shutdown # _ \<Rightarrow> Some (s\<lparr>srv_queue := [], srv_running := False\<rparr>)
      | _ # queue \<Rightarrow> Some (s\<lparr>srv_queue := queue\<rparr>))"

datatype server_event = Accept nat | OpenStream nat | CloseConnection nat | TimerTick | SendRequest request
  | ReceiveMsg | Terminate | SendShutdown

fun server_event_step :: "config \<Rightarrow> server_event \<Rightarrow> server \<Rightarrow> server option" where
  "server_event_step cfg (Accept c) s =
     (if srv_accepting s \<and> c \<notin> fst ` set (srv_conns s) then Some (accept_connection cfg c s) else None)"
| "server_event_step cfg (OpenStream c) s =
     (if (c, Exchange) \<in> set (srv_conns s) then Some (open_stream cfg c s) else None)"
| "server_event_step cfg (CloseConnection c) s = Some (s\<lparr>srv_conns := filter (\<lambda>(d, _). d \<noteq> c) (srv_conns s)\<rparr>)"
| "server_event_step cfg TimerTick s = Some (timer_tick s)"
| "server_event_step cfg (SendRequest rq) s = (if srv_conns s = [] then None else send_msg (Request rq) s)"
| "server_event_step cfg ReceiveMsg s = (if srv_running s then receive_msg s else None)"
| "server_event_step cfg Terminate s = (if srv_accepting s then Some (s\<lparr>srv_accepting := False\<rparr>) else None)"
| "server_event_step cfg SendShutdown s =
     (if srv_accepting s \<or> srv_shutdown_sent s then None
      else map_option (\<lambda>s. s\<lparr>srv_shutdown_sent := True\<rparr>) (send_msg Shutdown s))"

inductive server_step :: "config \<Rightarrow> server \<Rightarrow> server \<Rightarrow> bool" for cfg where
  server_event: "server_event_step cfg ev s = Some s' \<Longrightarrow> server_step cfg s s'"

inductive_cases server_stepE: "server_step cfg s s'"

definition server_start :: server where
  "server_start = \<lparr>srv_conns = [], srv_queue = [], srv_accepting = True, srv_shutdown_sent = False, srv_running = True\<rparr>"

definition server_inv :: "config \<Rightarrow> server \<Rightarrow> bool" where
  "server_inv cfg s \<longleftrightarrow>
     distinct (map fst (srv_conns s)) \<and> length (srv_conns s) \<le> cfg_max_connections cfg \<and>
     streams s \<le> max_subscriptions cfg \<and> length (srv_queue s) \<le> CHANNEL_SIZE"

text \<open>A subscription takes one more slot at most, as connections are distinct.\<close>

lemma streams_open:
  assumes "distinct (map fst xs)"
  shows "length (filter (\<lambda>(_, k). k = Streaming) (map (\<lambda>(d, k). if d = c then (d, Streaming) else (d, k)) xs))
    \<le> Suc (length (filter (\<lambda>(_, k). k = Streaming) xs))"
proof -
  let ?f = "\<lambda>(d, k). if d = c then (d, Streaming) else (d, k)"
  have same: "map ?f ys = ys" if "c \<notin> fst ` set ys" for ys
    using that by (induction ys) auto
  show ?thesis
    using assms
  proof (induction xs)
    case (Cons x xs)
    then show ?case using same [of xs] by (cases "fst x = c") (auto split: prod.splits)
  qed simp
qed

lemma server_inv_event:
  assumes "server_event_step cfg ev s = Some s'" and "server_inv cfg s"
  shows "server_inv cfg s'"
proof (cases ev)
  case (OpenStream c)
  have "map (fst \<circ> (\<lambda>(d, k). if d = c then (d, Streaming) else (d, k))) xs = map fst xs" for xs :: "(nat \<times> conn_kind) list"
    by (induction xs) auto
  then show ?thesis
    using assms streams_open [of "srv_conns s" c]
    by (auto simp del: map_eq_conv simp: OpenStream server_inv_def open_stream_def streams_def split: if_splits)
next
  case (CloseConnection c)
  have "length (filter P (filter Q xs)) \<le> length (filter P xs)" for P Q and xs :: "(nat \<times> conn_kind) list"
    by (induction xs) auto
  moreover have "length (filter Q xs) \<le> n" if "length xs \<le> n" for Q n and xs :: "(nat \<times> conn_kind) list"
    using that length_filter_le le_trans by blast
  ultimately have "streams s' \<le> streams s" "length (srv_conns s') \<le> length (srv_conns s)"
    using assms(1) by (auto simp: CloseConnection streams_def)
  then show ?thesis
    using assms by (auto simp: CloseConnection server_inv_def distinct_map_filter)
qed (use assms in \<open>auto simp: server_inv_def streams_def accept_connection_def timer_tick_def send_msg_def receive_msg_def
      split: if_splits list.splits msg.splits\<close>)

interpretation server_system: transition_system "server_step cfg" "server_inv cfg" for cfg
  by unfold_locales (elim server_stepE, rule server_inv_event)

lemma server_inv_start: "server_inv cfg server_start"
  by (simp add: server_inv_def server_start_def streams_def)

lemma subscription_share: "0 < cfg_max_connections cfg \<Longrightarrow> max_subscriptions cfg < cfg_max_connections cfg"
  by (simp add: max_subscriptions_def min_def max_def) linarith

text \<open>
  C17: subscribers never starve other clients. Whatever connections, streams, ticks and requests come, the
  connections and the streams stay within their limits and the channel within its size; streams never take every
  connection, so while the daemon accepts, a client that comes when only streams are open gets its connection.
\<close>

theorem server_headroom:
  assumes "(server_step cfg)\<^sup>*\<^sup>* server_start s" and "0 < cfg_max_connections cfg"
  shows "length (srv_conns s) \<le> cfg_max_connections cfg \<and> streams s \<le> max_subscriptions cfg \<and>
    streams s < cfg_max_connections cfg \<and> length (srv_queue s) \<le> CHANNEL_SIZE \<and>
    (srv_accepting s \<and> c \<notin> fst ` set (srv_conns s) \<and> (\<forall>(d, k) \<in> set (srv_conns s). k = Streaming) \<longrightarrow>
       (\<exists>s'. server_event_step cfg (Accept c) s = Some s' \<and> (c, Exchange) \<in> set (srv_conns s')))"
proof -
  have inv: "server_inv cfg s" by (rule server_system.inv_steps [OF assms(1) server_inv_start])
  have less: "streams s < cfg_max_connections cfg"
    using inv subscription_share [OF assms(2)] by (simp add: server_inv_def)
  moreover have "\<forall>(d, k) \<in> set (srv_conns s). k = Streaming \<Longrightarrow> length (srv_conns s) = streams s"
    unfolding streams_def by (subst filter_True) auto
  ultimately show ?thesis using inv by (auto simp: server_inv_def accept_connection_def)
qed

theorem server_headroom_witness:
  "\<exists>s. (server_step default_config)\<^sup>*\<^sup>* server_start s \<and> streams s = 1 \<and>
     (\<exists>s'. server_event_step default_config (Accept 2) s = Some s' \<and> (2, Exchange) \<in> set (srv_conns s'))"
proof -
  define s where "s = server_start\<lparr>srv_conns := [(1, Streaming)]\<rparr>"
  have "server_step default_config server_start (server_start\<lparr>srv_conns := [(1, Exchange)]\<rparr>)"
    by (rule server_event [of _ "Accept 1"]) (simp add: server_start_def accept_connection_def default_config_def)
  moreover have "server_step default_config (server_start\<lparr>srv_conns := [(1, Exchange)]\<rparr>) s"
    by (rule server_event [of _ "OpenStream 1"])
      (simp add: s_def server_start_def open_stream_def streams_def max_subscriptions_def default_config_def)
  ultimately have run: "(server_step default_config)\<^sup>*\<^sup>* server_start s" by simp
  from server_headroom [OF run, of 2]
  have "\<exists>s'. server_event_step default_config (Accept 2) s = Some s' \<and> (2, Exchange) \<in> set (srv_conns s')"
    by (simp add: default_config_def s_def server_start_def)
  then show ?thesis using run by (intro exI [of _ s]) (simp add: streams_def s_def)
qed

end
