(* ===== verification/Spec2Isabelle.thy ===== *)
theory Spec2Isabelle
  imports Graph_Properties Request_Properties Recovery_Properties Attempt_Properties Policy_Properties
    Runner_Properties Client_Properties Follow_Properties Command_Properties Server
begin

text \<open>
  A model of \<^bold>\<open>mlqueue\<close>, a machine-wide queue for local commands, and the theorems that make it
  correct. The sources are the Rust files under \<^verbatim>\<open>src/src\<close>.

  \<^bold>\<open>The program.\<close> A client (\<^verbatim>\<open>client.rs\<close>, driven by \<^verbatim>\<open>cli.rs\<close> and \<^verbatim>\<open>follow.rs\<close>) sends
  framed JSON requests to the daemon over a socket. A connection (\<^verbatim>\<open>daemon/mod.rs\<close>) hands each
  request to one coordinator (\<^verbatim>\<open>daemon/coordinator.rs\<close>), which owns a SQLite database (\<^verbatim>\<open>db.rs\<close>). On
  every tick, and after every mutation, the coordinator reconciles the unfinished attempts with their
  control files and processes, resolves prerequisites and runs a scheduling pass (\<^verbatim>\<open>scheduler.rs\<close>). A
  start is committed with a lease, then a detached runner (\<^verbatim>\<open>process/runner.rs\<close>) is spawned; daemon
  and runner talk through control files (\<^verbatim>\<open>process/artifacts.rs\<close>) and find each other in
  \<^verbatim>\<open>/proc\<close> (\<^verbatim>\<open>process/identity.rs\<close>), so that both survive a restart of the daemon.

  \<^bold>\<open>How the parts are modelled.\<close> Every theory names the file it models; definitions keep the names of
  the functions, a function of several stages has one definition per stage.
  \<^item> \<open>Prelude\<close>: results as sums, checked 64-bit arithmetic, JSON values, stable sorting.
  \<^item> \<open>Domain\<close>, \<open>Protocol\<close>, \<open>Settings\<close>, \<open>Job_Context\<close>: the enumerations with their text, operations,
    views, request hashes and framing, paths and configuration, discovery of a repository.
  \<^item> \<open>Scheduler\<close>: \<open>plan_pass\<close>, a fold over the candidates with the local variables as its state.
  \<^item> \<open>Tables\<close>, \<open>Database\<close>: one record per row, one list per table, a function per query or update.
  \<^item> \<open>Views\<close>, \<open>Mutations\<close>, \<open>Schedule\<close>, \<open>Reconcile\<close>, \<open>Coordinator\<close>: the coordinator. A transaction is a
    function from the database to an error or a new database; a handler acts on the record
    \<open>coordinator\<close>, which has the database, the attempt directories, the signals sent and the runners
    spawned. \<open>run\<close> is the message loop.
  \<^item> \<open>Identity\<close>, \<open>Artifacts\<close>, \<open>Runner\<close>: the runner as a function of what each iteration of its loops
    reads; its state has the trace of its effects.
  \<^item> \<open>Daemon_Shell\<close>, \<open>Client\<close>: connections, streams, requests with retries and subscriptions, over lists
    of bytes.
  \<^item> \<open>Server\<close>: the start under the singleton lock, the accept loop with its permits, the channel to the
    coordinator and the shutdown, as step relations over the events of processes and tasks; private directories.
  \<^item> \<open>Follow_Checks\<close>, \<open>Follow\<close>, \<open>Command_Line\<close>, \<open>Display\<close>: checks, hooks and the loop of a follower;
    the translation of commands to operations, submissions, log following, announcements, and the texts
    of the status and of a job.

  \<^bold>\<open>What is proved.\<close>
  \<^item> \<open>Queue\<close> is the abstract specification: a step relation on jobs, edges, attempts, open leases and the
    reservation, with its invariant. \<open>Queue_Tables\<close> reads it off the tables; the proof theories
    (\<open>Mutation_Proofs\<close>, \<open>Schedule_Proofs\<close>, \<open>Reconcile_Proofs\<close>, \<open>Coordinator_Proofs\<close>) show that every
    transaction refines it, and the theorems of this theory that every run of the daemon does, keeps the
    invariant, and only appends to the log (\<open>Audit_Trail\<close>).
  \<^item> \<open>Scheduler\<close>, \<open>Policy_Properties\<close>: a pass never oversubscribes, respects priorities, the protected
    job and its backfill frontier, wastes no capacity, and equals a reference policy without a reservation.
  \<^item> \<open>Graph_Properties\<close>: prerequisites are resolved completely in one call.
  \<^item> \<open>Recovery_Properties\<close>, \<open>Attempt_Properties\<close>: a lease is given up only on evidence, signals and the
    start gate, retries, launches and manual resolution.
  \<^item> \<open>Runner_Properties\<close> over \<open>Runner_Proofs\<close>: one guarded spawn, bounded and justified signals, the
    meaning of the result, and that the runner returns.
  \<^item> \<open>Request_Properties\<close>, \<open>Client_Properties\<close>: mutations are idempotent, retried requests apply once,
    and a subscription delivers every event once; these span client, connection and coordinator.
  \<^item> \<open>Server\<close>: at most one daemon is past the lock and it owns its socket, subscribers never take all
    connections, and the directories end up private.
  \<^item> \<open>Follow_Properties\<close>, \<open>Job_Context\<close>, \<open>Command_Properties\<close>: what a follower prints, when a check
    reports again, that commands leave no process behind, which repository owns a directory, that
    following a log loses and repeats nothing, that announcements see every event, and what the
    status shows.
  \<open>Examples\<close>, \<open>Daemon_Examples\<close> and the samples at the end of the property theories are the concrete
  inputs of the witnesses.

  \<^bold>\<open>Interfaces.\<close> Four locales state what a component promises to its clients, each interpreted on the
  definitions of the model: \<open>str_enum\<close> of \<open>Domain\<close> (an enumeration and its text, for the four that are
  stored), \<open>row_table\<close> of \<open>Tables\<close> (rows found and updated by their key, for jobs, attempts and edges),
  \<open>transition_system\<close> of \<open>Prelude\<close> (an invariant along a step relation, for the abstract queue,
  the starting processes and the accept loop) and
  \<open>admission_policy\<close> of \<open>Scheduler\<close> (what the transaction relies on in a pass, for \<open>plan_pass\<close>).

  \<^bold>\<open>Termination and inputs.\<close> All functions are total. A loop over the outside world takes the list of
  what it reads in each iteration; where the list ends the loop is still running (\<open>RunUnfinished\<close>,
  \<open>StreamOpen\<close>, \<open>None\<close>), so no bound is chosen, and \<open>runner_returns\<close> and \<open>command_cleanup\<close> state when an
  end is reached. The loops that end by themselves (\<open>pass_loop\<close>, \<open>advance_loop\<close>,
  \<open>serve_frames\<close>, \<open>shrink_page\<close>) have a measure.

  \<^bold>\<open>Parameters.\<close> Clocks, the process table, faults of the file system and of process creation, SHA-256, the
  JSON and TOML codecs, the formatting of durations and the system calls around sockets are
  arguments. Theorems that need a codec to read back what it wrote say so.

  \<^bold>\<open>Not modelled.\<close> Errors of SQLite itself, the SQL text of the migrations and the setup of the
  connection (\<^verbatim>\<open>db.rs\<close>); the asynchronous runtime, the umask and the signal dispositions of
  \<^verbatim>\<open>daemon/mod.rs\<close>; the output threads of \<^verbatim>\<open>follow/output.rs\<close>; the argument parser generated by \<^verbatim>\<open>clap\<close>, the warning about names that look sensitive, the speech
  process and the systemd commands of \<^verbatim>\<open>cli.rs\<close>; the best-effort log file of the runner.
\<close>

section \<open>The daemon\<close>

lemma daemon_run:
  assumes "wf_db db" "new_coordinator svc w cfg p dirs db = Inr co" "run svc w ms co = (resps, co')"
  shows "wf_db (co_db co')" "q_steps (abs_queue db) (abs_queue (co_db co'))" "records db (co_db co')"
  using daemon_safe [OF assms(2,1,3)] refines_wf [OF assms(1)] by (auto simp: refines_def)

lemma edge_satisfied_row:
  assumes "wf_tables db" "edges_satisfied (abs_queue db) c" "d \<in> set (dependencies db)" "d_child d = c"
  shows "d_resolution d = Some Dep_Satisfied"
proof -
  have "edge_row db (d_parent d) c = Some d" using assms by (simp add: edge_row_iff)
  then have "q_edge (abs_queue db) (d_parent d) c = Some (d_condition d, snd (edge_of d))"
    by (simp add: edge_of_def)
  then obtain s where "snd (edge_of d) = Some (Dep_Satisfied, s)"
    using assms(2) unfolding edges_satisfied_def by blast
  then show ?thesis by (auto simp: edge_of_def split: option.splits)
qed

text \<open>
  A start of the daemon on the sample database with its prerequisites resolved (jobs 5 and 6 are
  skipped), and the messages of the witnesses.
\<close>

definition resolved_db :: database where
  "resolved_db = advance_dependency_graph 20 sample_db"

lemma wf_resolved_db: "wf_db resolved_db"
  unfolding resolved_db_def by (rule wf_advanced_sample)

lemma resolved_db_skipped: "job_state_of resolved_db 6 = Some J_Skipped"
  by code_simp

definition sample_start :: coordinator where
  "sample_start = projr (new_coordinator sample_services sample_world default_config sample_paths (\<lambda>_. empty_dir) resolved_db)"

definition sample_run :: "response list \<times> coordinator" where
  "sample_run = run sample_services sample_world
     [(Request (sample_request ''1'' (Hold 2)), sample_world), (Tick, live_world),
      (Request (sample_request ''2'' (Cancel 1 True)), live_world), (Tick, sample_world)] sample_start"

lemma sample_start_ok:
  "new_coordinator sample_services sample_world default_config sample_paths (\<lambda>_. empty_dir) resolved_db = Inr sample_start"
proof -
  have "boot_id (w_proc sample_world) \<noteq> None" by (simp add: boot_id_def sample_world_def)
  then show ?thesis by (auto simp: sample_start_def new_coordinator_def Let_def)
qed

lemma sample_run_ok:
  "run sample_services sample_world
     [(Request (sample_request ''1'' (Hold 2)), sample_world), (Tick, live_world),
      (Request (sample_request ''2'' (Cancel 1 True)), live_world), (Tick, sample_world)] sample_start =
   (fst sample_run, snd sample_run)"
  by (simp add: sample_run_def)











end
